(* ===== verification/Frontik_Prelude.thy ===== *)
theory Frontik_Prelude
  imports
    Complex_Main
    "HOL-Library.AList"
    "HOL-Library.Char_ord"
    "HOL-Library.List_Lexorder"
    "HOL-Library.Product_Lexorder"
    "HOL-Library.Multiset"
begin

text \<open>
  Shared vocabulary of the development: the exceptions the sources raise, Python's string and
  dictionary operations as executable functions, and the generic lemmas the component theories
  use. Strings are \<^typ>\<open>string\<close> (lists of 8-bit characters), so case conversion and white space
  follow Python on ASCII text. A \<open>dict\<close> is an association list in insertion order; the interface
  its clients rely on is the locale \<open>dict_like\<close>, interpreted on these lists below.
\<close>

named_theorems py_simps \<open>evaluation of the Python string helpers\<close>
named_theorems dict_simps \<open>laws of the dictionary operations\<close>

section \<open>Exceptions\<close>

datatype py_exc =
    ValueError
  | KeyError
  | TypeError
  | IndexError
  | AssertionError
  | RuntimeError string
  | HTTPException int
  | PyException string
  | SystemExit int
  | OutOfRequestTime

type_synonym 'a py = "py_exc + 'a"

definition py_bind :: "'a py \<Rightarrow> ('a \<Rightarrow> 'b py) \<Rightarrow> 'b py" where
  "py_bind m f = (case m of Inl e \<Rightarrow> Inl e | Inr x \<Rightarrow> f x)"

lemma py_bind_simps [simp]:
  "py_bind (Inl e) f = Inl e"
  "py_bind (Inr x) f = f x"
  by (simp_all add: py_bind_def)

lemma py_bind_Inr_conv: "py_bind m f = Inr y \<longleftrightarrow> (\<exists>x. m = Inr x \<and> f x = Inr y)"
  by (cases m) auto

section \<open>Strings\<close>

definition lower_char :: "char \<Rightarrow> char" where
  "lower_char c = (let n = (of_char c :: nat) in if 65 \<le> n \<and> n \<le> 90 then char_of (n + 32) else c)"

definition upper_char :: "char \<Rightarrow> char" where
  "upper_char c = (let n = (of_char c :: nat) in if 97 \<le> n \<and> n \<le> 122 then char_of (n - 32) else c)"

definition lower :: "string \<Rightarrow> string" where
  "lower s = map lower_char s"

definition upper :: "string \<Rightarrow> string" where
  "upper s = map upper_char s"

definition starts_with :: "string \<Rightarrow> string \<Rightarrow> bool" where
  "starts_with s p \<longleftrightarrow> take (length p) s = p"

definition ends_with :: "string \<Rightarrow> string \<Rightarrow> bool" where
  "ends_with s p \<longleftrightarrow> length p \<le> length s \<and> drop (length s - length p) s = p"

definition rstrip_char :: "char \<Rightarrow> string \<Rightarrow> string" where
  "rstrip_char c s = rev (dropWhile (\<lambda>x. x = c) (rev s))"

definition lstrip_char :: "char \<Rightarrow> string \<Rightarrow> string" where
  "lstrip_char c s = dropWhile (\<lambda>x. x = c) s"

text \<open>\<open>s.split(c)\<close> with a one-character separator: never the empty list.\<close>

fun split_on :: "char \<Rightarrow> string \<Rightarrow> string list" where
  "split_on c [] = [[]]"
| "split_on c (x # xs) =
     (if x = c then [] # split_on c xs
      else (case split_on c xs of [] \<Rightarrow> [[x]] | w # ws \<Rightarrow> (x # w) # ws))"

text \<open>\<open>sep.join(ws)\<close>.\<close>

fun join_with :: "string \<Rightarrow> string list \<Rightarrow> string" where
  "join_with sep [] = []"
| "join_with sep [w] = w"
| "join_with sep (w # v # ws) = w @ sep @ join_with sep (v # ws)"

text \<open>\<open>s.rsplit('.', 1)\<close> unpacked into two names: \<open>None\<close> when there is no dot.\<close>

definition rsplit_dot :: "string \<Rightarrow> (string \<times> string) option" where
  "rsplit_dot s =
     (let ws = split_on CHR ''.'' s
      in if length ws < 2 then None else Some (join_with ''.'' (butlast ws), last ws))"

text \<open>\<open>s.partition(c)\<close>: the text before the separator, the separator if found, the text after.\<close>

definition partition_at :: "char \<Rightarrow> string \<Rightarrow> string \<times> string \<times> string" where
  "partition_at c s =
     (case dropWhile (\<lambda>x. x \<noteq> c) s of
        [] \<Rightarrow> (s, [], [])
      | y # rest \<Rightarrow> (takeWhile (\<lambda>x. x \<noteq> c) s, [y], rest))"

text \<open>\<open>part in s\<close> for strings.\<close>

fun contains :: "'a list \<Rightarrow> 'a list \<Rightarrow> bool" where
  "contains s p \<longleftrightarrow> take (length p) s = p \<or> (case s of [] \<Rightarrow> False | _ # s' \<Rightarrow> contains s' p)"

declare contains.simps [simp del]

text \<open>\<open>'{}'.format(n)\<close> for an integer.\<close>

fun nat_digits :: "nat \<Rightarrow> string" where
  "nat_digits n =
     (if n < 10 then [char_of (48 + n)] else nat_digits (n div 10) @ [char_of (48 + n mod 10)])"

declare nat_digits.simps [simp del]

definition str_of_int :: "int \<Rightarrow> string" where
  "str_of_int i = (if i < 0 then ''-'' @ nat_digits (nat (- i)) else nat_digits (nat i))"

text \<open>
  \<open>int(s, base)\<close> on ASCII text: surrounding white space, a sign, the prefix \<open>0x\<close> for base 16 (with one
  underscore allowed after it), then digits with single underscores between them. \<open>None\<close> stands for
  \<open>ValueError\<close>.
\<close>

definition is_space :: "char \<Rightarrow> bool" where
  "is_space c \<longleftrightarrow> (of_char c :: nat) \<in> {9, 10, 11, 12, 13, 28, 29, 30, 31, 32}"

definition strip :: "string \<Rightarrow> string" where
  "strip s = rev (dropWhile is_space (rev (dropWhile is_space s)))"

definition digit_value :: "char \<Rightarrow> nat option" where
  "digit_value c = (let n = (of_char c :: nat) in
     if 48 \<le> n \<and> n \<le> 57 then Some (n - 48)
     else if 97 \<le> n \<and> n \<le> 122 then Some (n - 87)
     else if 65 \<le> n \<and> n \<le> 90 then Some (n - 55)
     else None)"

fun parse_digits :: "nat \<Rightarrow> bool \<Rightarrow> int \<Rightarrow> string \<Rightarrow> int option" where
  "parse_digits b after_digit acc [] = (if after_digit then Some acc else None)"
| "parse_digits b after_digit acc (c # cs) =
     (if c = CHR ''_'' then (if after_digit then parse_digits b False acc cs else None)
      else (case digit_value c of
              Some d \<Rightarrow> if d < b then parse_digits b True (acc * int b + int d) cs else None
            | None \<Rightarrow> None))"

definition skip_prefix :: "nat \<Rightarrow> string \<Rightarrow> string" where
  "skip_prefix b s =
     (if b = 16 \<and> (take 2 s = ''0x'' \<or> take 2 s = ''0X'')
      then (if take 1 (drop 2 s) = ''_'' then drop 3 s else drop 2 s) else s)"

definition py_int :: "nat \<Rightarrow> string \<Rightarrow> int option" where
  "py_int b s =
     (let r = strip s
      in if take 1 r = ''-'' then map_option uminus (parse_digits b False 0 (skip_prefix b (drop 1 r)))
         else if take 1 r = ''+'' then parse_digits b False 0 (skip_prefix b (drop 1 r))
         else parse_digits b False 0 (skip_prefix b r))"

text \<open>\<open>f'{x}'\<close> of an optional string: \<open>None\<close> prints as the word None.\<close>

definition str_of_opt :: "string option \<Rightarrow> string" where
  "str_of_opt x = (case x of None \<Rightarrow> ''None'' | Some s \<Rightarrow> s)"

text \<open>Truthiness of an optional string: both \<open>None\<close> and the empty string are false.\<close>

definition truthy :: "'a list option \<Rightarrow> bool" where
  "truthy x \<longleftrightarrow> (case x of None \<Rightarrow> False | Some s \<Rightarrow> s \<noteq> [])"

lemma truthy_simps [simp]:
  "\<not> truthy None" "truthy (Some s) \<longleftrightarrow> s \<noteq> []"
  by (simp_all add: truthy_def)

lemma contains_Cons: "contains (x # s) p \<longleftrightarrow> take (length p) (x # s) = p \<or> contains s p"
  by (subst contains.simps) simp

lemma contains_drop: "contains (drop k s) p \<Longrightarrow> contains s p"
proof (induction k arbitrary: s)
  case (Suc k)
  then show ?case by (cases s) (auto simp: contains_Cons)
qed simp

lemma split_on_not_Nil [simp]: "split_on c s \<noteq> []"
  by (cases s) (auto split: list.splits)

lemma split_on_free: "w \<in> set (split_on c s) \<Longrightarrow> c \<notin> set w"
  by (induction s arbitrary: w) (auto split: if_splits list.splits)

lemma join_with_Cons: "ws \<noteq> [] \<Longrightarrow> join_with sep (w # ws) = w @ sep @ join_with sep ws"
  by (cases ws) auto

lemma join_split_on: "join_with [c] (split_on c s) = s"
proof (induction s)
  case (Cons x xs)
  obtain w ws where ws: "split_on c xs = w # ws"
    by (meson list.exhaust split_on_not_Nil)
  show ?case
  proof (cases "x = c")
    case True
    then show ?thesis using Cons.IH by (simp add: join_with_Cons)
  next
    case False
    then show ?thesis using Cons.IH ws by (cases ws) auto
  qed
qed simp

lemma split_on_append_sep:
  "c \<notin> set w \<Longrightarrow> split_on c (w @ c # s) = w # split_on c s"
  by (induction w) auto

lemma split_on_no_sep: "c \<notin> set w \<Longrightarrow> split_on c w = [w]"
  by (induction w) auto

lemma join_with_snoc: "ws \<noteq> [] \<Longrightarrow> join_with sep (ws @ [w]) = join_with sep ws @ sep @ w"
proof (induction ws)
  case (Cons v ws)
  then show ?case by (cases ws) (simp_all add: join_with_Cons)
qed simp

lemma rsplit_dot_join:
  assumes "rsplit_dot s = Some (a, b)"
  shows "a @ ''.'' @ b = s" and "CHR ''.'' \<notin> set b"
proof -
  let ?ws = "split_on CHR ''.'' s"
  have a: "a = join_with ''.'' (butlast ?ws)" and b: "b = last ?ws" and ws: "2 \<le> length ?ws"
    using assms by (auto simp: rsplit_dot_def Let_def split: if_splits)
  from ws have "butlast ?ws \<noteq> []" by (cases ?ws) auto
  from join_with_snoc [OF this, of "''.''" "last ?ws"] have "join_with ''.'' ?ws = a @ ''.'' @ b" by (simp add: a b)
  with join_split_on [of "CHR ''.''" s] show "a @ ''.'' @ b = s" by simp
  show "CHR ''.'' \<notin> set b" unfolding b by (rule split_on_free [of _ _ s]) simp
qed

lemma rsplit_dot_None: "rsplit_dot s = None \<longleftrightarrow> CHR ''.'' \<notin> set s"
proof
  assume "rsplit_dot s = None"
  then have "length (split_on CHR ''.'' s) < 2" by (simp add: rsplit_dot_def Let_def split: if_splits)
  then obtain w where w: "split_on CHR ''.'' s = [w]"
    by (cases "split_on CHR ''.'' s") (auto simp: less_Suc_eq numeral_2_eq_2)
  with join_split_on [of "CHR ''.''" s] split_on_free [of w "CHR ''.''" s] show "CHR ''.'' \<notin> set s" by simp
qed (simp add: rsplit_dot_def split_on_no_sep)

lemma split_on_join:
  assumes "\<And>w. w \<in> set ws \<Longrightarrow> c \<notin> set w" and "ws \<noteq> []"
  shows "split_on c (join_with [c] ws) = ws"
  using assms
proof (induction ws)
  case (Cons w ws)
  then show ?case
    by (cases ws) (simp_all add: split_on_append_sep split_on_no_sep)
qed simp

lemma partition_at_found:
  "c \<notin> set a \<Longrightarrow> partition_at c (a @ c # b) = (a, [c], b)"
  by (simp add: partition_at_def dropWhile_append takeWhile_append)

lemma partition_at_missing: "c \<notin> set s \<Longrightarrow> partition_at c s = (s, [], [])"
proof -
  assume "c \<notin> set s"
  then have "dropWhile (\<lambda>x. x \<noteq> c) s = []" by (auto simp: dropWhile_eq_Nil_conv)
  then show ?thesis by (simp add: partition_at_def del: dropWhile_eq_Nil_conv)
qed

lemma ends_with_snoc [simp]: "ends_with (s @ [x]) [c] \<longleftrightarrow> x = c"
  by (simp add: ends_with_def)

lemma not_ends_with_Nil [simp]: "\<not> ends_with [] [c]"
  by (simp add: ends_with_def)

lemma rstrip_char_not_ends: "\<not> ends_with (rstrip_char c s) [c]"
proof (cases "dropWhile (\<lambda>x. x = c) (rev s)")
  case (Cons y ys)
  then have "y \<noteq> c"
    using hd_dropWhile [of "\<lambda>x. x = c" "rev s"] by simp
  then show ?thesis using Cons by (simp add: rstrip_char_def)
qed (simp add: rstrip_char_def del: dropWhile_eq_Nil_conv)

lemma rstrip_char_snoc [simp]: "rstrip_char c (s @ [c]) = rstrip_char c s"
  by (simp add: rstrip_char_def)

lemma rstrip_char_id: "\<not> ends_with s [c] \<Longrightarrow> rstrip_char c s = s"
  by (cases s rule: rev_cases) (auto simp: rstrip_char_def)

text \<open>Printing a number and reading it back.\<close>

definition decimal :: "char \<Rightarrow> bool" where
  "decimal c \<longleftrightarrow> (let n = (of_char c :: nat) in 48 \<le> n \<and> n \<le> 57)"

lemma decimal_facts:
  "decimal c \<Longrightarrow> c \<noteq> CHR ''_'' \<and> c \<noteq> CHR ''-'' \<and> c \<noteq> CHR ''+'' \<and> \<not> is_space c \<and>
     (\<exists>d. digit_value c = Some d \<and> d < 10)"
  by (auto simp: decimal_def is_space_def digit_value_def Let_def)

lemma digit_value_char: "d < (10 :: nat) \<Longrightarrow> digit_value (char_of (48 + d)) = Some d" "d < (10 :: nat) \<Longrightarrow> decimal (char_of (48 + d))"
  by (simp_all add: digit_value_def decimal_def Let_def)

lemma nat_digits_decimal: "list_all decimal (nat_digits n)" and nat_digits_not_Nil: "nat_digits n \<noteq> []"
proof -
  show "list_all decimal (nat_digits n)"
  proof (induction n rule: nat_digits.induct)
    case (1 n)
    then show ?case by (subst nat_digits.simps) (auto simp: digit_value_char)
  qed
  show "nat_digits n \<noteq> []" by (subst nat_digits.simps) simp
qed

lemma parse_digits_snoc:
  "list_all decimal s \<Longrightarrow> decimal c \<Longrightarrow> digit_value c = Some d \<Longrightarrow>
   parse_digits 10 a acc (s @ [c]) = map_option (\<lambda>v. v * 10 + int d) (if s = [] then Some acc else parse_digits 10 a acc s)"
proof (induction s arbitrary: a acc)
  case Nil
  with decimal_facts [of c] show ?case by auto
next
  case (Cons x s)
  from Cons.prems(1) decimal_facts [of x] obtain e where "digit_value x = Some e" "e < 10" "x \<noteq> CHR ''_''" by auto
  with Cons.IH [of True "acc * 10 + int e"] Cons.prems show ?case by (cases s) auto
qed

lemma parse_nat_digits: "parse_digits 10 a 0 (nat_digits n) = Some (int n)"
proof (induction n rule: nat_digits.induct)
  case (1 n)
  show ?case
  proof (cases "n < 10")
    case True
    then show ?thesis using decimal_facts [OF digit_value_char(2) [OF True]]
      by (subst nat_digits.simps) (auto simp: digit_value_char)
  next
    case False
    have sum: "int (n div 10) * 10 + int (n mod 10) = int n" by presburger
    have sum: "int (n div 10) * 10 + int (n mod 10) = int n" by presburger
    have "n mod 10 < 10" by simp
    from parse_digits_snoc [OF nat_digits_decimal [of "n div 10"] digit_value_char(2) [OF this] digit_value_char(1) [OF this]] 1 False
    show ?thesis by (subst nat_digits.simps) (simp add: nat_digits_not_Nil sum)
  qed
qed

lemma strip_id: "s \<noteq> [] \<Longrightarrow> \<not> is_space (hd s) \<Longrightarrow> \<not> is_space (last s) \<Longrightarrow> strip s = s"
proof -
  assume s: "s \<noteq> []" "\<not> is_space (hd s)" "\<not> is_space (last s)"
  then have "dropWhile is_space s = s" by (cases s) simp_all
  moreover from s have "dropWhile is_space (rev s) = rev s" by (cases s rule: rev_cases) simp_all
  ultimately show ?thesis by (simp add: strip_def)
qed

lemma py_int_str_of_int: "py_int 10 (str_of_int i) = Some i"
proof -
  have ends: "decimal (hd (nat_digits n))" "decimal (last (nat_digits n))" for n
    using nat_digits_decimal [of n] nat_digits_not_Nil [of n] by (auto simp: list_all_iff)
  have plain: "take (Suc 0) (nat_digits n) \<noteq> ''-''" "take (Suc 0) (nat_digits n) \<noteq> ''+''" for n
    using decimal_facts [OF ends(1) [of n]] nat_digits_not_Nil [of n] by (cases "nat_digits n"; auto)+
  have strip: "strip (nat_digits n) = nat_digits n" "strip (CHR ''-'' # nat_digits n) = CHR ''-'' # nat_digits n" for n
    using decimal_facts [OF ends(1) [of n]] decimal_facts [OF ends(2) [of n]] nat_digits_not_Nil [of n]
    by (auto intro!: strip_id simp: is_space_def)
  show ?thesis
    by (simp add: py_int_def str_of_int_def skip_prefix_def strip plain parse_nat_digits Let_def)
qed

lemma find_append:
  "find P (xs @ ys) = (case find P xs of Some x \<Rightarrow> Some x | None \<Rightarrow> find P ys)"
  by (induction xs) auto

section \<open>Dictionaries\<close>

text \<open>
  The contract of a mutable mapping, as the sources use it: \<open>d.get(k)\<close>, \<open>d[k] = v\<close>, deleting a
  key, \<open>d.keys()\<close>. A loop of assignments is the recurring client, so its lemma is proved here once.
\<close>

locale dict_like =
  fixes get :: "'d \<Rightarrow> 'k \<Rightarrow> 'v option"
    and put :: "'d \<Rightarrow> 'k \<Rightarrow> 'v \<Rightarrow> 'd"
    and remove :: "'d \<Rightarrow> 'k \<Rightarrow> 'd"
    and keys :: "'d \<Rightarrow> 'k list"
    and ok :: "'d \<Rightarrow> bool"
  assumes get_put: "get (put d k v) k' = (if k' = k then Some v else get d k')"
    and get_remove: "get (remove d k) k' = (if k' = k then None else get d k')"
    and keys_iff: "k \<in> set (keys d) \<longleftrightarrow> get d k \<noteq> None"
    and ok_put: "ok d \<Longrightarrow> ok (put d k v)"
    and ok_remove: "ok d \<Longrightarrow> ok (remove d k)"
    and ok_distinct: "ok d \<Longrightarrow> distinct (keys d)"
begin

primrec put_all :: "('a \<Rightarrow> 'k) \<Rightarrow> ('a \<Rightarrow> 'v) \<Rightarrow> 'a list \<Rightarrow> 'd \<Rightarrow> 'd" where
  "put_all f g [] d = d"
| "put_all f g (x # xs) d = put_all f g xs (put d (f x) (g x))"

text \<open>The last assignment to a key wins; untouched keys keep their value.\<close>

lemma get_put_all:
  "get (put_all f g xs d) k =
     (case find (\<lambda>x. f x = k) (rev xs) of Some x \<Rightarrow> Some (g x) | None \<Rightarrow> get d k)"
  by (induction xs arbitrary: d) (auto simp: get_put find_append split: option.splits)

lemma keys_put_all: "set (keys (put_all f g xs d)) = set (keys d) \<union> f ` set xs"
  by (induction xs arbitrary: d) (auto simp: keys_iff get_put)

lemma ok_put_all: "ok d \<Longrightarrow> ok (put_all f g xs d)"
  by (induction xs arbitrary: d) (simp_all add: ok_put)

end

type_synonym ('k, 'v) dict = "('k \<times> 'v) list"

definition dict_get :: "('k, 'v) dict \<Rightarrow> 'k \<Rightarrow> 'v option" where
  "dict_get d k = map_of d k"

definition dict_set :: "('k, 'v) dict \<Rightarrow> 'k \<Rightarrow> 'v \<Rightarrow> ('k, 'v) dict" where
  "dict_set d k v = AList.update k v d"

definition dict_del :: "('k, 'v) dict \<Rightarrow> 'k \<Rightarrow> ('k, 'v) dict" where
  "dict_del d k = AList.delete k d"

definition dict_keys :: "('k, 'v) dict \<Rightarrow> 'k list" where
  "dict_keys d = map fst d"

definition dict_values :: "('k, 'v) dict \<Rightarrow> 'v list" where
  "dict_values d = map snd d"

definition dict_ok :: "('k, 'v) dict \<Rightarrow> bool" where
  "dict_ok d \<longleftrightarrow> distinct (map fst d)"

lemmas dict_defs = dict_get_def dict_set_def dict_del_def dict_keys_def dict_values_def dict_ok_def

lemma dict_get_set [simp, dict_simps]:
  "dict_get (dict_set d k v) k' = (if k' = k then Some v else dict_get d k')"
  by (simp add: dict_defs update_conv')

lemma dict_get_del [simp, dict_simps]:
  "dict_get (dict_del d k) k' = (if k' = k then None else dict_get d k')"
  by (simp add: dict_defs delete_conv')

lemma dict_get_Nil [simp, dict_simps]: "dict_get [] k = None"
  by (simp add: dict_defs)

lemma dict_ok_Nil [simp, dict_simps]: "dict_ok []"
  by (simp add: dict_defs)

lemma dict_keys_iff: "k \<in> set (dict_keys d) \<longleftrightarrow> dict_get d k \<noteq> None"
  by (auto simp: dict_defs map_of_eq_None_iff)

interpretation pydict: dict_like dict_get dict_set dict_del dict_keys dict_ok
proof unfold_locales
  fix d :: "('k, 'v) dict" and k v
  show "dict_ok d \<Longrightarrow> dict_ok (dict_set d k v)"
    by (simp add: dict_defs distinct_update)
  show "dict_ok d \<Longrightarrow> dict_ok (dict_del d k)"
    by (simp add: dict_defs distinct_delete)
  show "dict_ok d \<Longrightarrow> distinct (dict_keys d)"
    by (simp add: dict_defs)
qed (auto simp: dict_keys_iff)

section \<open>Searching sorted lists\<close>

lemma find_Some_split:
  "find P xs = Some x \<Longrightarrow> \<exists>us vs. xs = us @ x # vs \<and> P x \<and> (\<forall>u \<in> set us. \<not> P u)"
proof (induction xs)
  case (Cons y ys)
  show ?case
  proof (cases "P y")
    case True
    then show ?thesis using Cons.prems by (metis append_Nil emptyE find.simps(2) list.set(1) option.inject)
  next
    case False
    with Cons obtain us vs where "ys = us @ x # vs" "P x" "\<forall>u \<in> set us. \<not> P u" by auto
    with False show ?thesis by (intro exI [of _ "y # us"] exI [of _ vs]) auto
  qed
qed simp

lemma find_SomeD: "find P xs = Some x \<Longrightarrow> x \<in> set xs \<and> P x"
  by (auto dest: find_Some_split)

text \<open>A linear search of a list sorted by a key finds a match of least key.\<close>

lemma find_sorted_least:
  assumes "sorted (map f xs)" and "find P xs = Some x" and "y \<in> set xs" and "P y"
  shows "f x \<le> f y"
proof -
  from find_Some_split [OF assms(2)] obtain us vs where
    xs: "xs = us @ x # vs" and us: "\<forall>u \<in> set us. \<not> P u" by blast
  from us assms(3,4) xs have "y = x \<or> y \<in> set vs" by auto
  with assms(1) xs show ?thesis by (auto simp: sorted_append)
qed

text \<open>Among matches of the key it found, a search after a stable sort finds the one listed first.\<close>

lemma find_sort_key_first:
  assumes "find P (sort_key f xs) = Some x"
  shows "find (\<lambda>y. P y \<and> f y = f x) xs = Some x"
proof -
  let ?Q = "\<lambda>y. f y = f x"
  have cond: "find (\<lambda>y. P y \<and> ?Q y) ys = find P (filter ?Q ys)" for ys
    by (induction ys) auto
  have weaken: "find P ys = Some x \<Longrightarrow> find (\<lambda>y. P y \<and> ?Q y) ys = Some x" for ys
    by (induction ys) (auto split: if_splits)
  have fst_match: "find (\<lambda>y. P y \<and> ?Q y) (sort_key f xs) = Some x"
    by (rule weaken [OF assms])
  have "filter ?Q (sort_key f xs) = filter ?Q xs"
    by (simp add: sort_key_stable)
  with fst_match show ?thesis by (simp add: cond)
qed

end
