(* ===== verification/Routing.thy ===== *)
theory Routing
  imports Frontik_Prelude
begin

text \<open>
  Model of \<open>frontik/routing.py\<close>: the global route table \<open>_fastapi_routes\<close>, its priority order, the
  registration methods of \<open>FrontikRouter\<close> and the lookup \<open>find_route\<close> with its HEAD, OPTIONS, 405 and
  404 branches. Route objects are shared and mutated by the lookup (\<open>route.methods.add\<close>), so they
  live in a heap addressed by references. \<open>route.matches\<close> is Starlette's: it is the argument
  \<open>m\<close> of the definitions, and \<open>starlette_matches\<close> states what is relied upon.
\<close>

section \<open>Data\<close>

datatype match = NoMatch | PartialMatch | FullMatch

record route =
  r_api :: bool
  r_path :: string
  r_path_format :: string
  r_methods :: "string set"
  r_endpoint :: "string \<times> string"

type_synonym route_ref = nat

record routing =
  heap :: "route_ref \<Rightarrow> route"
  next_ref :: route_ref
  router_ids :: "nat list"
  router_routes :: "nat \<Rightarrow> route_ref list"
  fastapi_routes :: "route_ref list"
  preflight_routes :: "route_ref list"
  method_not_allowed_routes :: "route_ref list"
  not_found_routes :: "route_ref list"

record 'c scope =
  sc_path :: string
  sc_method :: string
  sc_route :: "route_ref option"
  sc_child :: "'c option"
  sc_allowed :: "string set option"
  sc_endpoint :: "(string \<times> string) option"

type_synonym 'c matcher = "route \<Rightarrow> string \<Rightarrow> string \<Rightarrow> match \<times> 'c"

section \<open>Priority of routes\<close>

definition is_param_segment :: "string \<Rightarrow> bool" where
  "is_param_segment segment \<longleftrightarrow> CHR ''{'' \<in> set segment"

definition path_segments :: "string \<Rightarrow> string list" where
  "path_segments path = filter (\<lambda>s. s \<noteq> []) (split_on CHR ''/'' path)"

definition get_route_sort_key :: "route \<Rightarrow> int \<times> int \<times> bool list" where
  "get_route_sort_key route =
     (if \<not> r_api route then (3, 0, [])
      else let segments = path_segments (r_path_format route);
               has_params = list_ex is_param_segment segments
           in if \<not> has_params then (1, - int (length segments), [])
              else (2, - int (length segments), map is_param_segment segments))"

text \<open>\<open>_fastapi_routes.sort(key=get_route_sort_key)\<close>: Python's sort is stable, as is \<^const>\<open>sort_key\<close>.\<close>

definition sort_routes :: "(route_ref \<Rightarrow> route) \<Rightarrow> route_ref list \<Rightarrow> route_ref list" where
  "sort_routes h rs = sort_key (\<lambda>r. get_route_sort_key (h r)) rs"

section \<open>Registration\<close>

definition normalize_path :: "string \<Rightarrow> string" where
  "normalize_path path =
     (if ends_with path ''/'' \<and> path \<noteq> ''/'' then rstrip_char CHR ''/'' path else path)"

definition frontik_router_init :: "nat \<Rightarrow> routing \<Rightarrow> routing" where
  "frontik_router_init self st =
     st\<lparr>router_ids := router_ids st @ [self], router_routes := (router_routes st)(self := [])\<rparr>"

text \<open>
  \<open>super().add_api_route\<close> and \<open>super().mount\<close> build the route object and append it to \<open>self.routes\<close>;
  what they build is the argument \<open>mk\<close>.
\<close>

definition super_add :: "(string \<Rightarrow> route) \<Rightarrow> nat \<Rightarrow> string \<Rightarrow> routing \<Rightarrow> routing" where
  "super_add mk self path st =
     st\<lparr>heap := (heap st)(next_ref st := mk path),
        next_ref := Suc (next_ref st),
        router_routes := (router_routes st)(self := router_routes st self @ [next_ref st])\<rparr>"

definition publish_last :: "nat \<Rightarrow> routing \<Rightarrow> routing" where
  "publish_last self st =
     st\<lparr>fastapi_routes := fastapi_routes st @ [last (router_routes st self)]\<rparr>"

definition add_api_route :: "(string \<Rightarrow> route) \<Rightarrow> nat \<Rightarrow> string \<Rightarrow> routing \<Rightarrow> routing" where
  "add_api_route mk self path st =
     publish_last self (super_add mk self (normalize_path path) st)"

definition add_route :: "(string \<Rightarrow> route) \<Rightarrow> nat \<Rightarrow> string \<Rightarrow> routing \<Rightarrow> routing" where
  "add_route mk self path st =
     publish_last self (super_add mk self (normalize_path path) st)"

definition mount :: "(string \<Rightarrow> route) \<Rightarrow> nat \<Rightarrow> string \<Rightarrow> routing \<Rightarrow> routing" where
  "mount mk self path st = publish_last self (super_add mk self path st)"

text \<open>
  \<open>import_all_pages\<close>: without a pages package nothing happens; otherwise the package and each listed
  module for which a spec is found is imported, then the table is sorted. Importing a module runs its
  decorators, so \<open>import_module\<close> is an argument acting on the routing state.
\<close>

definition import_all_pages ::
    "(string \<Rightarrow> bool) \<Rightarrow> (string \<Rightarrow> routing \<Rightarrow> routing) \<Rightarrow> (string \<Rightarrow> string list) \<Rightarrow> string \<Rightarrow> routing \<Rightarrow> routing"
  where
  "import_all_pages find_spec import_module iter_submodules app_module st =
     (let pages_package_path = app_module @ ''.pages'' in
      if \<not> find_spec pages_package_path then st
      else let st = import_module pages_package_path st;
               st = fold (\<lambda>name st. if find_spec name then import_module name st else st)
                      (iter_submodules pages_package_path) st
           in st\<lparr>fastapi_routes := sort_routes (heap st) (fastapi_routes st)\<rparr>)"

section \<open>Lookup\<close>

fun find_fastapi_route_partial ::
    "'c matcher \<Rightarrow> (route_ref \<Rightarrow> route) \<Rightarrow> 'c scope \<Rightarrow> route_ref list \<Rightarrow> string set" where
  "find_fastapi_route_partial m h scope [] = {}"
| "find_fastapi_route_partial m h scope (r # rs) =
     (if r_api (h r) \<and> ''OPTIONS'' \<in> r_methods (h r)
      then find_fastapi_route_partial m h scope rs
      else if r_api (h r) \<and> fst (m (h r) (sc_path scope) (sc_method scope)) = PartialMatch
      then r_methods (h r) \<union> find_fastapi_route_partial m h scope rs
      else find_fastapi_route_partial m h scope rs)"

text \<open>
  The loop of \<open>_find_fastapi_route_exact\<close>; on a full match the scope takes the child scope and the
  route.
\<close>

fun find_fastapi_route_exact ::
    "'c matcher \<Rightarrow> (route_ref \<Rightarrow> route) \<Rightarrow> 'c scope \<Rightarrow> route_ref list \<Rightarrow> 'c scope \<times> route_ref option" where
  "find_fastapi_route_exact m h scope [] = (scope, None)"
| "find_fastapi_route_exact m h scope (r # rs) =
     (if r_api (h r) \<and> sc_method scope \<notin> r_methods (h r)
      then find_fastapi_route_exact m h scope rs
      else (case m (h r) (sc_path scope) (sc_method scope) of (mt, child_scope) \<Rightarrow>
        if mt = FullMatch
        then (scope\<lparr>sc_child := Some child_scope, sc_route := Some r\<rparr>, Some r)
        else find_fastapi_route_exact m h scope rs))"

definition add_method :: "route_ref \<Rightarrow> string \<Rightarrow> routing \<Rightarrow> routing" where
  "add_method r meth st =
     st\<lparr>heap := (heap st)(r := (heap st r)\<lparr>r_methods := insert meth (r_methods (heap st r))\<rparr>)\<rparr>"

definition last_route :: "route_ref list \<Rightarrow> route_ref py" where
  "last_route rs = (if rs = [] then Inl IndexError else Inr (last rs))"

definition get_allowed_methods :: "'c matcher \<Rightarrow> routing \<Rightarrow> 'c scope \<Rightarrow> string set" where
  "get_allowed_methods m st scope = find_fastapi_route_partial m (heap st) scope (fastapi_routes st)"

text \<open>The branch for an unmatched request: 405 with the allowed methods, or 404.\<close>

definition route_fallback ::
    "'c matcher \<Rightarrow> routing \<Rightarrow> 'c scope \<Rightarrow> string \<Rightarrow> ('c scope \<times> routing \<times> route_ref) py" where
  "route_fallback m st scope meth =
     (let allowed = get_allowed_methods m st scope in
      py_bind (last_route (if allowed \<noteq> {} then method_not_allowed_routes st else not_found_routes st))
        (\<lambda>r. let scope = (if allowed \<noteq> {} then scope\<lparr>sc_allowed := Some allowed\<rparr> else scope);
                 st = (if r_api (heap st r) \<and> meth \<notin> r_methods (heap st r) then add_method r meth st else st)
             in if \<not> r_api (heap st r) then Inl AssertionError
                else Inr (scope\<lparr>sc_route := Some r\<rparr>, st, r)))"

text \<open>\<open>find_route\<close> after the table search and the HEAD branch: preflight, fallback, endpoint.\<close>

definition finish_route ::
    "'c matcher \<Rightarrow> routing \<Rightarrow> 'c scope \<Rightarrow> route_ref option \<Rightarrow> string \<Rightarrow> ('c scope \<times> routing) py" where
  "finish_route m st scope route meth =
     py_bind
       (if route = None \<and> meth = ''OPTIONS'' then
          py_bind (last_route (preflight_routes st))
            (\<lambda>r. Inr (scope\<lparr>sc_route := Some r\<rparr>,
                      if r_api (heap st r) then add_method r meth st else st, Some r))
        else Inr (scope, st, route))
       (\<lambda>(scope, st, route).
          py_bind
            (case route of
               Some r \<Rightarrow> Inr (scope, st, r)
             | None \<Rightarrow> route_fallback m st scope meth)
            (\<lambda>(scope, st, r).
               Inr (if r_api (heap st r) then scope\<lparr>sc_endpoint := Some (r_endpoint (heap st r))\<rparr> else scope, st)))"

text \<open>
  \<open>find_route(path, method, fastapi_routes, prefix)\<close>; \<open>None\<close> for the table means the global one. The
  HEAD branch calls itself for GET (without the prefix, as the source does), so the recursion is one
  level deep.
\<close>

function find_route ::
    "'c matcher \<Rightarrow> routing \<Rightarrow> string \<Rightarrow> string \<Rightarrow> route_ref list option \<Rightarrow> string \<Rightarrow> ('c scope \<times> routing) py" where
  "find_route m st path meth tbl prefix =
     (let path = normalize_path path;
          scope = \<lparr>sc_path = prefix @ path, sc_method = upper meth, sc_route = None,
                   sc_child = None, sc_allowed = None, sc_endpoint = None\<rparr>;
          (scope, route) = find_fastapi_route_exact m (heap st) scope
                             (case tbl of Some rs \<Rightarrow> rs | None \<Rightarrow> fastapi_routes st);
          (scope, route) = (case tbl of
                              Some rs \<Rightarrow> find_fastapi_route_exact m (heap st) scope rs
                            | None \<Rightarrow> (scope, route))
      in if route = None \<and> meth = ''HEAD''
         then py_bind (find_route m st path ''GET'' tbl [])
                (\<lambda>(scope, st).
                   let scope = scope\<lparr>sc_method := ''HEAD''\<rparr>;
                       route = sc_route scope;
                       st = (case route of
                               Some r \<Rightarrow> if r_api (heap st r) then add_method r ''HEAD'' st else st
                             | None \<Rightarrow> st)
                   in finish_route m st scope route meth)
         else finish_route m st scope route meth)"
  by pat_completeness auto
termination
  by (relation "measure (\<lambda>(m, st, path, meth, tbl, prefix). if meth = ''HEAD'' then 1 else 0)") auto

declare find_route.simps [simp del]

text \<open>\<open>FrontikRouter.app\<close> dispatches to \<open>scope['route'].handle\<close>; a missing route is an attribute error.\<close>

definition frontik_router_app :: "(route_ref \<Rightarrow> 'c scope \<Rightarrow> 'r py) \<Rightarrow> 'c scope \<Rightarrow> 'r py" where
  "frontik_router_app handle scope =
     (case sc_route scope of None \<Rightarrow> Inl (PyException ''AttributeError'') | Some r \<Rightarrow> handle r scope)"

section \<open>What the lookup relies on\<close>

text \<open>
  Starlette's documented matching of a route with methods: the path decides between no match and
  some match, the method between a partial and a full one. The path test \<open>pm\<close> sees only the
  route's path.
\<close>

definition starlette_matches :: "(string \<Rightarrow> string \<Rightarrow> bool) \<Rightarrow> 'c matcher \<Rightarrow> bool" where
  "starlette_matches pm m \<longleftrightarrow>
     (\<forall>r p meth. r_api r \<longrightarrow>
        fst (m r p meth) =
          (if pm (r_path r) p then (if meth \<in> r_methods r then FullMatch else PartialMatch) else NoMatch))"

text \<open>The predicate a table search evaluates at each route.\<close>

definition full_match :: "'c matcher \<Rightarrow> (route_ref \<Rightarrow> route) \<Rightarrow> string \<Rightarrow> string \<Rightarrow> route_ref \<Rightarrow> bool" where
  "full_match m h path meth r \<longleftrightarrow>
     (r_api (h r) \<longrightarrow> meth \<in> r_methods (h r)) \<and> fst (m (h r) path meth) = FullMatch"

text \<open>
  Well-formed tables: allocated and distinct references, and the three fallback routers hold API
  routes that are not in the table (\<open>app.py\<close> registers them on plain \<open>APIRouter\<close> objects).
\<close>

definition fallback_refs :: "routing \<Rightarrow> route_ref set" where
  "fallback_refs st =
     {last (preflight_routes st), last (method_not_allowed_routes st), last (not_found_routes st)}"

definition routing_ok :: "routing \<Rightarrow> bool" where
  "routing_ok st \<longleftrightarrow>
     distinct (fastapi_routes st) \<and>
     (\<forall>r \<in> set (fastapi_routes st). r < next_ref st) \<and>
     preflight_routes st \<noteq> [] \<and> method_not_allowed_routes st \<noteq> [] \<and> not_found_routes st \<noteq> [] \<and>
     (\<forall>r \<in> fallback_refs st. r < next_ref st \<and> r_api (heap st r) \<and> r \<notin> set (fastapi_routes st))"


section \<open>Lemmas on the table search\<close>

definition table :: "routing \<Rightarrow> route_ref list option \<Rightarrow> route_ref list" where
  "table st tbl = (case tbl of Some rs \<Rightarrow> rs | None \<Rightarrow> fastapi_routes st)"

definition start_scope :: "string \<Rightarrow> string \<Rightarrow> string \<Rightarrow> 'c scope" where
  "start_scope path meth prefix =
     \<lparr>sc_path = prefix @ normalize_path path, sc_method = upper meth, sc_route = None,
      sc_child = None, sc_allowed = None, sc_endpoint = None\<rparr>"

definition table_search ::
    "'c matcher \<Rightarrow> routing \<Rightarrow> string \<Rightarrow> string \<Rightarrow> route_ref list option \<Rightarrow> string \<Rightarrow> route_ref option" where
  "table_search m st path meth tbl prefix =
     find (full_match m (heap st) (prefix @ normalize_path path) (upper meth)) (table st tbl)"

lemma start_scope_simps [simp]:
  "sc_path (start_scope path meth prefix) = prefix @ normalize_path path"
  "sc_method (start_scope path meth prefix) = upper meth"
  "sc_route (start_scope path meth prefix) = None"
  "sc_child (start_scope path meth prefix) = None"
  "sc_allowed (start_scope path meth prefix) = None"
  "sc_endpoint (start_scope path meth prefix) = None"
  by (simp_all add: start_scope_def)

lemma upper_literals [simp]: "upper ''GET'' = ''GET''" "upper ''HEAD'' = ''HEAD''" "upper ''OPTIONS'' = ''OPTIONS''"
  by (code_simp, code_simp, code_simp)

lemma normalize_path_idem [simp]: "normalize_path (normalize_path path) = normalize_path path"
  using rstrip_char_not_ends [of "CHR ''/''" path] by (auto simp: normalize_path_def)

lemma find_exact_as_find:
  "find_fastapi_route_exact m h scope rs =
     (case find (full_match m h (sc_path scope) (sc_method scope)) rs of
        None \<Rightarrow> (scope, None)
      | Some r \<Rightarrow> (scope\<lparr>sc_child := Some (snd (m (h r) (sc_path scope) (sc_method scope))),
                         sc_route := Some r\<rparr>, Some r))"
  by (induction rs) (auto simp: full_match_def split: prod.splits option.splits)

lemma find_partial_as_set:
  "find_fastapi_route_partial m h scope rs =
     (\<Union>r \<in> {r \<in> set rs. r_api (h r) \<and> ''OPTIONS'' \<notin> r_methods (h r) \<and>
                 fst (m (h r) (sc_path scope) (sc_method scope)) = PartialMatch}. r_methods (h r))"
  by (induction rs) auto

lemma find_route_found:
  assumes "table_search m st path meth tbl prefix = Some r"
  shows "find_route m st path meth tbl prefix =
    finish_route m st ((start_scope path meth prefix)\<lparr>sc_child := Some (snd (m (heap st r) (prefix @ normalize_path path) (upper meth))),
      sc_route := Some r\<rparr>) (Some r) meth"
  using assms unfolding table_search_def table_def
  by (cases tbl) (simp_all add: find_route.simps [of m st path meth] find_exact_as_find start_scope_def Let_def)

lemma find_route_missing:
  assumes "table_search m st path meth tbl prefix = None" and "meth \<noteq> ''HEAD''"
  shows "find_route m st path meth tbl prefix = finish_route m st (start_scope path meth prefix) None meth"
  using assms unfolding table_search_def table_def
  by (cases tbl) (simp_all add: find_route.simps [of m st path meth] find_exact_as_find start_scope_def Let_def)

lemma find_route_normalized: "find_route m st (normalize_path path) meth tbl prefix = find_route m st path meth tbl prefix"
  by (simp add: find_route.simps [of m st "normalize_path path"] find_route.simps [of m st path] Let_def)

lemma find_route_head:
  assumes "table_search m st path ''HEAD'' tbl prefix = None"
  shows "find_route m st path ''HEAD'' tbl prefix =
    py_bind (find_route m st path ''GET'' tbl [])
      (\<lambda>(scope, st). let scope = scope\<lparr>sc_method := ''HEAD''\<rparr>;
         st = (case sc_route scope of
                 Some r \<Rightarrow> if r_api (heap st r) then add_method r ''HEAD'' st else st
               | None \<Rightarrow> st)
       in finish_route m st scope (sc_route scope) ''HEAD'')"
  using assms unfolding table_search_def table_def
  by (cases tbl)
     (simp_all add: find_route.simps [of m st path "''HEAD''"] find_exact_as_find start_scope_def
        find_route_normalized Let_def)

lemma finish_route_Some [simp]:
  "finish_route m st scope (Some r) meth =
     Inr (if r_api (heap st r) then scope\<lparr>sc_endpoint := Some (r_endpoint (heap st r))\<rparr> else scope, st)"
  by (simp add: finish_route_def)

lemma add_method_simps [simp]:
  "heap (add_method r meth st) q =
     (if q = r then (heap st r)\<lparr>r_methods := insert meth (r_methods (heap st r))\<rparr> else heap st q)"
  "fastapi_routes (add_method r meth st) = fastapi_routes st"
  "preflight_routes (add_method r meth st) = preflight_routes st"
  "method_not_allowed_routes (add_method r meth st) = method_not_allowed_routes st"
  "not_found_routes (add_method r meth st) = not_found_routes st"
  "next_ref (add_method r meth st) = next_ref st"
  by (simp_all add: add_method_def)


section \<open>The abstract specification of the lookup\<close>

text \<open>
  Which route a request gets, with no mention of scopes or of the lookup's side effects: the first
  full match; for HEAD without one, the answer to GET; for OPTIONS the preflight route; otherwise
  405 when some path matches, else 404.
\<close>

definition allowed_spec :: "'c matcher \<Rightarrow> routing \<Rightarrow> string \<Rightarrow> string \<Rightarrow> string set" where
  "allowed_spec m st path meth =
     (\<Union>r \<in> {r \<in> set (fastapi_routes st). r_api (heap st r) \<and> ''OPTIONS'' \<notin> r_methods (heap st r) \<and>
                 fst (m (heap st r) path (upper meth)) = PartialMatch}. r_methods (heap st r))"

definition fallback_spec :: "'c matcher \<Rightarrow> routing \<Rightarrow> string \<Rightarrow> string \<Rightarrow> route_ref" where
  "fallback_spec m st path meth =
     (if meth = ''OPTIONS'' then last (preflight_routes st)
      else if allowed_spec m st path meth \<noteq> {} then last (method_not_allowed_routes st)
      else last (not_found_routes st))"

definition route_spec ::
    "'c matcher \<Rightarrow> routing \<Rightarrow> string \<Rightarrow> string \<Rightarrow> route_ref list option \<Rightarrow> string \<Rightarrow> route_ref" where
  "route_spec m st path meth tbl prefix =
     (case table_search m st path meth tbl prefix of
        Some r \<Rightarrow> r
      | None \<Rightarrow>
          if meth = ''HEAD''
          then (case table_search m st path ''GET'' tbl [] of
                  Some r \<Rightarrow> r
                | None \<Rightarrow> fallback_spec m st (normalize_path path) ''GET'')
          else fallback_spec m st (prefix @ normalize_path path) meth)"

lemma routing_ok_fallbacks:
  assumes "routing_ok st"
  shows "preflight_routes st \<noteq> []" "method_not_allowed_routes st \<noteq> []" "not_found_routes st \<noteq> []"
    "r_api (heap st (last (preflight_routes st)))"
    "r_api (heap st (last (method_not_allowed_routes st)))"
    "r_api (heap st (last (not_found_routes st)))"
    "last (preflight_routes st) \<notin> set (fastapi_routes st)"
    "last (method_not_allowed_routes st) \<notin> set (fastapi_routes st)"
    "last (not_found_routes st) \<notin> set (fastapi_routes st)"
  using assms by (auto simp: routing_ok_def fallback_refs_def)

lemma fallback_spec_ok:
  assumes "routing_ok st"
  shows "r_api (heap st (fallback_spec m st path meth))"
    and "fallback_spec m st path meth \<notin> set (fastapi_routes st)"
  using routing_ok_fallbacks [OF assms] by (auto simp: fallback_spec_def)

text \<open>The unmatched case, in one equation: the fallback route gets the method and is returned.\<close>

lemma finish_route_None:
  assumes "routing_ok st"
  shows "\<exists>scope' st'. finish_route m st (start_scope path meth prefix) None meth = Inr (scope', st') \<and>
    sc_route scope' = Some (fallback_spec m st (prefix @ normalize_path path) meth) \<and>
    sc_method scope' = upper meth \<and>
    sc_endpoint scope' = Some (r_endpoint (heap st (fallback_spec m st (prefix @ normalize_path path) meth))) \<and>
    sc_allowed scope' =
      (if meth \<noteq> ''OPTIONS'' \<and> allowed_spec m st (prefix @ normalize_path path) meth \<noteq> {}
       then Some (allowed_spec m st (prefix @ normalize_path path) meth) else None) \<and>
    (st' = add_method (fallback_spec m st (prefix @ normalize_path path) meth) meth st \<or>
     st' = st \<and> meth \<in> r_methods (heap st (fallback_spec m st (prefix @ normalize_path path) meth)))"
  using routing_ok_fallbacks [OF assms]
  by (auto simp: finish_route_def route_fallback_def get_allowed_methods_def find_partial_as_set
      last_route_def fallback_spec_def allowed_spec_def Let_def py_bind_def)


text \<open>The only effect of a lookup: the method set of one route grows.\<close>

definition with_methods :: "route_ref \<Rightarrow> string set \<Rightarrow> routing \<Rightarrow> routing" where
  "with_methods r M st = st\<lparr>heap := (heap st)(r := (heap st r)\<lparr>r_methods := M\<rparr>)\<rparr>"

lemma with_methods_same: "with_methods r (r_methods (heap st r)) st = st"
  by (simp add: with_methods_def)

lemma add_method_with: "add_method r meth st = with_methods r (insert meth (r_methods (heap st r))) st"
  by (simp add: with_methods_def add_method_def)

lemma with_methods_simps [simp]:
  "heap (with_methods r M st) q = (if q = r then (heap st r)\<lparr>r_methods := M\<rparr> else heap st q)"
  "fastapi_routes (with_methods r M st) = fastapi_routes st"
  "with_methods r M' (with_methods r M st) = with_methods r M' st"
  by (simp_all add: with_methods_def)

definition lookup_result ::
    "routing \<Rightarrow> string \<Rightarrow> route_ref \<Rightarrow> 'c scope \<Rightarrow> routing \<Rightarrow> string set \<Rightarrow> bool" where
  "lookup_result st meth r scope st' M \<longleftrightarrow>
     sc_route scope = Some r \<and> sc_method scope = upper meth \<and>
     (r_api (heap st r) \<longrightarrow> sc_endpoint scope = Some (r_endpoint (heap st r))) \<and>
     st' = with_methods r M st \<and> r_methods (heap st r) \<subseteq> M \<and>
     (r_api (heap st r) \<and> upper meth = meth \<longrightarrow> meth \<in> M)"

lemma lookup_result_found:
  assumes "table_search m st path meth tbl prefix = Some r"
  shows "\<exists>scope. find_route m st path meth tbl prefix = Inr (scope, st) \<and>
    lookup_result st meth r scope st (r_methods (heap st r))"
proof -
  from find_Some_split [OF assms [unfolded table_search_def]]
  have "full_match m (heap st) (prefix @ normalize_path path) (upper meth) r" by blast
  with find_route_found [OF assms] show ?thesis
    by (auto simp: lookup_result_def with_methods_same full_match_def)
qed

lemma lookup_result_missing:
  assumes "routing_ok st" and "table_search m st path meth tbl prefix = None" and "meth \<noteq> ''HEAD''"
  shows "\<exists>scope st' M. find_route m st path meth tbl prefix = Inr (scope, st') \<and>
    lookup_result st meth (fallback_spec m st (prefix @ normalize_path path) meth) scope st' M"
proof -
  let ?r = "fallback_spec m st (prefix @ normalize_path path) meth"
  obtain scope st' where
    f: "finish_route m st (start_scope path meth prefix) None meth = Inr (scope, st')"
    and sc: "sc_route scope = Some ?r" "sc_method scope = upper meth"
      "sc_endpoint scope = Some (r_endpoint (heap st ?r))"
    and st': "st' = add_method ?r meth st \<or> st' = st \<and> meth \<in> r_methods (heap st ?r)"
    using finish_route_None [OF assms(1), of m path meth prefix] by auto
  from st' have "\<exists>M. lookup_result st meth ?r scope st' M"
  proof
    assume "st' = add_method ?r meth st"
    then have "lookup_result st meth ?r scope st' (insert meth (r_methods (heap st ?r)))"
      using sc by (simp add: lookup_result_def add_method_with subset_insertI)
    then show ?thesis ..
  next
    assume "st' = st \<and> meth \<in> r_methods (heap st ?r)"
    then have "lookup_result st meth ?r scope st' (r_methods (heap st ?r))"
      using sc by (simp add: lookup_result_def with_methods_same)
    then show ?thesis ..
  qed
  with f find_route_missing [OF assms(2,3)] show ?thesis by auto
qed

lemma lookup_result_head:
  assumes "lookup_result st ''GET'' r scope st' M"
  shows "lookup_result st ''HEAD'' r
    (let s = scope\<lparr>sc_method := ''HEAD''\<rparr> in
     if r_api (heap st r) then s\<lparr>sc_endpoint := Some (r_endpoint (heap st r))\<rparr> else s)
    (if r_api (heap st r) then add_method r ''HEAD'' st' else st')
    (if r_api (heap st r) then insert ''HEAD'' M else M)"
  using assms by (auto simp: lookup_result_def add_method_with Let_def)

text \<open>The refinement: the lookup always returns, and returns the specified route.\<close>

lemma find_route_refines:
  assumes ok: "routing_ok st"
  shows "\<exists>scope st' M. find_route m st path meth tbl prefix = Inr (scope, st') \<and>
    lookup_result st meth (route_spec m st path meth tbl prefix) scope st' M"
proof (cases "table_search m st path meth tbl prefix")
  case (Some r)
  then show ?thesis
    using lookup_result_found [OF Some] by (force simp: route_spec_def)
next
  case None
  show ?thesis
  proof (cases "meth = ''HEAD''")
    case False
    then show ?thesis using lookup_result_missing [OF ok None] None by (simp add: route_spec_def)
  next
    case True
    let ?r = "route_spec m st path meth tbl prefix"
    have "\<exists>scope st' M. find_route m st path ''GET'' tbl [] = Inr (scope, st') \<and>
        lookup_result st ''GET'' ?r scope st' M"
    proof (cases "table_search m st path ''GET'' tbl []")
      case None
      with \<open>table_search m st path meth tbl prefix = None\<close> True
      show ?thesis using lookup_result_missing [OF ok None] by (simp add: route_spec_def)
    next
      case (Some r)
      with None True show ?thesis using lookup_result_found [OF Some] by (force simp: route_spec_def)
    qed
    then obtain scope st' M where get: "find_route m st path ''GET'' tbl [] = Inr (scope, st')"
      and res: "lookup_result st ''GET'' ?r scope st' M" by blast
    have "r_api (heap st' ?r) = r_api (heap st ?r)" "r_endpoint (heap st' ?r) = r_endpoint (heap st ?r)"
      using res by (auto simp: lookup_result_def)
    with None True get res show ?thesis
      using lookup_result_head [OF res] find_route_head [of m st path tbl prefix]
      by (auto simp: lookup_result_def Let_def)
  qed
qed


lemma find_cong_set: "(\<And>x. x \<in> set xs \<Longrightarrow> P x = Q x) \<Longrightarrow> find P xs = find Q xs"
  by (induction xs) auto

lemma find_eq_self: "r \<in> set xs \<Longrightarrow> find (\<lambda>q. q = r) xs = Some r"
  by (induction xs) auto

lemma table_search_None_iff:
  "table_search m st path meth tbl prefix = None \<longleftrightarrow>
     (\<forall>r \<in> set (table st tbl). \<not> full_match m (heap st) (prefix @ normalize_path path) (upper meth) r)"
  by (auto simp: table_search_def find_None_iff)

lemma table_search_Some_iff:
  assumes "table_search m st path meth tbl prefix = Some r"
  shows "r \<in> set (table st tbl)" "full_match m (heap st) (prefix @ normalize_path path) (upper meth) r"
  using find_Some_split [OF assms [unfolded table_search_def]] by auto

text \<open>Growing the methods of a route outside the table changes no table search and no 405 answer.\<close>

lemma table_search_with_methods:
  assumes "r \<notin> set (fastapi_routes st)"
  shows "table_search m (with_methods r M st) path meth None prefix = table_search m st path meth None prefix"
    and "allowed_spec m (with_methods r M st) path meth = allowed_spec m st path meth"
proof -
  have h: "heap (with_methods r M st) q = heap st q" if "q \<in> set (fastapi_routes st)" for q
    using that assms by auto
  then have "find (full_match m (heap (with_methods r M st)) p k) (fastapi_routes st) =
      find (full_match m (heap st) p k) (fastapi_routes st)" for p k
    by (intro find_cong_set) (simp add: full_match_def)
  then show "table_search m (with_methods r M st) path meth None prefix = table_search m st path meth None prefix"
    by (simp add: table_search_def table_def)
  show "allowed_spec m (with_methods r M st) path meth = allowed_spec m st path meth"
    by (auto simp: allowed_spec_def h simp del: with_methods_simps(1))
qed

lemma fallback_spec_with_methods:
  "r \<notin> set (fastapi_routes st) \<Longrightarrow> fallback_spec m (with_methods r M st) path meth = fallback_spec m st path meth"
  by (simp add: fallback_spec_def table_search_with_methods(2)) (simp add: with_methods_def)

lemma route_spec_with_methods:
  "r \<notin> set (fastapi_routes st) \<Longrightarrow> route_spec m (with_methods r M st) path meth None prefix = route_spec m st path meth None prefix"
  by (auto simp: route_spec_def table_search_with_methods(1) fallback_spec_with_methods split: option.split)

lemma routing_ok_with_methods: "routing_ok st \<Longrightarrow> routing_ok (with_methods r M st)"
  by (auto simp: routing_ok_def fallback_refs_def with_methods_def)

text \<open>
  Once a route has HEAD in its method set, it answers HEAD for every path it matches and no other
  route answered.
\<close>

lemma table_search_head_again:
  assumes "starlette_matches pm m" and none: "table_search m st path ''HEAD'' None [] = None"
    and r: "r \<in> set (fastapi_routes st)" and api: "r_api (heap st r)"
    and path: "pm (r_path (heap st r)) (normalize_path path)" and M: "''HEAD'' \<in> M"
  shows "table_search m (with_methods r M st) path ''HEAD'' None [] = Some r"
proof -
  let ?st = "with_methods r M st"
  have hit: "full_match m (heap ?st) (normalize_path path) ''HEAD'' r"
    using assms(1) api M path by (simp add: full_match_def starlette_matches_def)
  have "\<not> full_match m (heap ?st) (normalize_path path) ''HEAD'' q"
    if "q \<in> set (fastapi_routes st)" "q \<noteq> r" for q
    using that none by (auto simp: table_search_None_iff table_def full_match_def)
  then have "find (full_match m (heap ?st) (normalize_path path) ''HEAD'') (fastapi_routes st) =
      find (\<lambda>q. q = r) (fastapi_routes st)"
    using hit by (intro find_cong_set) auto
  also have "\<dots> = Some r" using r by (rule find_eq_self)
  finally show ?thesis by (simp add: table_search_def table_def)
qed

lemma full_match_path:
  "starlette_matches pm m \<Longrightarrow> r_api (h r) \<Longrightarrow> full_match m h path meth r \<Longrightarrow> pm (r_path (h r)) path"
  by (auto simp: full_match_def starlette_matches_def split: if_splits)

text \<open>The state after a HEAD lookup that was answered by a GET route.\<close>

lemma find_route_head_state:
  assumes "table_search m st path ''HEAD'' None [] = None"
    and "table_search m st path ''GET'' None [] = Some r"
  shows "\<exists>scope. find_route m st path ''HEAD'' None [] =
    Inr (scope, if r_api (heap st r) then add_method r ''HEAD'' st else st) \<and> sc_route scope = Some r"
  using lookup_result_found [OF assms(2)] find_route_head [OF assms(1)]
  by (auto simp: lookup_result_def Let_def)

lemma find_route_sorted:
  assumes "fastapi_routes st = sort_routes (heap st) registered"
    and "q \<in> set registered" and "full_match m (heap st) (prefix @ normalize_path path) (upper meth) q"
  shows "\<exists>scope r. find_route m st path meth None prefix = Inr (scope, st) \<and> sc_route scope = Some r \<and>
    find (full_match m (heap st) (prefix @ normalize_path path) (upper meth))
      (sort_key (\<lambda>r. get_route_sort_key (heap st r)) registered) = Some r"
proof -
  have tbl: "table st None = sort_key (\<lambda>r. get_route_sort_key (heap st r)) registered"
    using assms(1) by (simp add: table_def sort_routes_def)
  then obtain r where r: "table_search m st path meth None prefix = Some r"
    using assms(2,3) by (metis table_search_None_iff not_None_eq set_sort)
  then show ?thesis
    using lookup_result_found [OF r] by (auto simp: lookup_result_def table_search_def tbl)
qed

lemma sort_key_exact_route:
  assumes "get_route_sort_key r \<le> get_route_sort_key q"
    and "r_api q" and "\<not> list_ex is_param_segment (path_segments (r_path_format q))"
  shows "r_api r \<and> \<not> list_ex is_param_segment (path_segments (r_path_format r)) \<and>
    length (path_segments (r_path_format q)) \<le> length (path_segments (r_path_format r))"
  using assms by (auto simp: get_route_sort_key_def Let_def split: if_splits)

section \<open>Properties\<close>

text \<open>C1. \<open>find_route\<close> refines its specification on every well-formed table: it always returns, the
  scope holds the route \<^const>\<open>route_spec\<close> names, the scope's endpoint is that route's, and the only
  effect on the routing state is that this one route's method set grew.\<close>

theorem find_route_total_and_correct:
  assumes "routing_ok st"
  shows "\<exists>scope st' M. find_route m st path meth tbl prefix = Inr (scope, st') \<and>
    sc_route scope = Some (route_spec m st path meth tbl prefix) \<and>
    (r_api (heap st (route_spec m st path meth tbl prefix)) \<longrightarrow>
       sc_endpoint scope = Some (r_endpoint (heap st (route_spec m st path meth tbl prefix)))) \<and>
    st' = with_methods (route_spec m st path meth tbl prefix) M st \<and>
    r_methods (heap st (route_spec m st path meth tbl prefix)) \<subseteq> M"
  using find_route_refines [OF assms, of m path meth tbl prefix] by (force simp: lookup_result_def)

text \<open>The route a request is dispatched to accepts the request's method, so Starlette's own
  method check cannot reject it: for every upper-case method, an API route returned by \<open>find_route\<close>
  has the scope's method in its method set afterwards.\<close>

theorem find_route_dispatchable:
  assumes "routing_ok st" and "upper meth = meth"
    and "find_route m st path meth tbl prefix = Inr (scope, st')"
    and "sc_route scope = Some r" and "r_api (heap st' r)"
  shows "sc_method scope \<in> r_methods (heap st' r)"
  using find_route_refines [OF assms(1), of m path meth tbl prefix] assms(2-5)
  by (auto simp: lookup_result_def)

text \<open>C8. Priority: when the table is sorted as \<open>import_all_pages\<close> leaves it and some registered
  route fully matches the request, the lookup returns a registered full match whose sort key is least
  among all registered full matches, and among those of the same key the one registered first.\<close>

theorem find_route_priority:
  assumes "fastapi_routes st = sort_routes (heap st) registered"
    and "q \<in> set registered" and "full_match m (heap st) (prefix @ normalize_path path) (upper meth) q"
  shows "\<exists>scope r. find_route m st path meth None prefix = Inr (scope, st) \<and> sc_route scope = Some r \<and>
    r \<in> set registered \<and> full_match m (heap st) (prefix @ normalize_path path) (upper meth) r \<and>
    get_route_sort_key (heap st r) \<le> get_route_sort_key (heap st q) \<and>
    find (\<lambda>x. full_match m (heap st) (prefix @ normalize_path path) (upper meth) x \<and>
              get_route_sort_key (heap st x) = get_route_sort_key (heap st r)) registered = Some r"
proof -
  let ?P = "full_match m (heap st) (prefix @ normalize_path path) (upper meth)"
  let ?key = "\<lambda>r. get_route_sort_key (heap st r)"
  obtain scope r where f: "find_route m st path meth None prefix = Inr (scope, st)" "sc_route scope = Some r"
    and found: "find ?P (sort_key ?key registered) = Some r"
    using find_route_sorted [OF assms] by blast
  have "?key r \<le> ?key q"
    using find_sorted_least [OF _ found, of ?key q] assms(2,3) by simp
  moreover have "r \<in> set registered" "?P r"
    using find_SomeD [OF found] by simp_all
  ultimately show ?thesis using f find_sort_key_first [OF found] by blast
qed

text \<open>An exact route is never shadowed by a parametrised one: if a registered API route without
  parameters fully matches, the route returned is an API route without parameters.\<close>

theorem exact_route_not_shadowed:
  assumes "fastapi_routes st = sort_routes (heap st) registered"
    and "q \<in> set registered" and "full_match m (heap st) (prefix @ normalize_path path) (upper meth) q"
    and "r_api (heap st q)" and "\<not> list_ex is_param_segment (path_segments (r_path_format (heap st q)))"
  shows "\<exists>scope r. find_route m st path meth None prefix = Inr (scope, st) \<and> sc_route scope = Some r \<and>
    r_api (heap st r) \<and> \<not> list_ex is_param_segment (path_segments (r_path_format (heap st r))) \<and>
    length (path_segments (r_path_format (heap st q))) \<le> length (path_segments (r_path_format (heap st r)))"
proof -
  obtain scope r where f: "find_route m st path meth None prefix = Inr (scope, st)" "sc_route scope = Some r"
    and found: "find (full_match m (heap st) (prefix @ normalize_path path) (upper meth))
      (sort_key (\<lambda>r. get_route_sort_key (heap st r)) registered) = Some r"
    using find_route_sorted [OF assms(1-3)] by blast
  have "get_route_sort_key (heap st r) \<le> get_route_sort_key (heap st q)"
    using find_sorted_least [OF _ found, of "\<lambda>r. get_route_sort_key (heap st r)" q] assms(2,3) by simp
  with f show ?thesis using sort_key_exact_route [OF _ assms(4,5)] by blast
qed


text \<open>Asking again gives the same answer: although a lookup may add the method to the route it
  returns, repeating the same request on the state it left returns the same route.\<close>

theorem find_route_repeatable:
  assumes "routing_ok st" and "starlette_matches pm m"
    and "find_route m st path meth None [] = Inr (scope, st')"
  shows "\<exists>scope' st''. find_route m st' path meth None [] = Inr (scope', st'') \<and> sc_route scope' = sc_route scope"
proof -
  let ?r = "route_spec m st path meth None []"
  obtain M where st': "st' = with_methods ?r M st" and sc: "sc_route scope = Some ?r"
    using find_route_refines [OF assms(1), of m path meth None "[]"] assms(3) by (auto simp: lookup_result_def)
  have same: "route_spec m st' path meth None [] = ?r"
  proof (cases "?r \<in> set (fastapi_routes st)")
    case False
    then show ?thesis using st' route_spec_with_methods by simp
  next
    case True
    then consider "table_search m st path meth None [] = Some ?r"
      | "meth = ''HEAD''" "table_search m st path ''HEAD'' None [] = None"
        "table_search m st path ''GET'' None [] = Some ?r"
      using fallback_spec_ok(2) [OF assms(1)]
      by (auto simp: route_spec_def split: option.splits if_splits)
    then show ?thesis
    proof cases
      case 1
      then have "st' = st" using lookup_result_found [OF 1] assms(3) by auto
      then show ?thesis by simp
    next
      case 2
      show ?thesis
      proof (cases "r_api (heap st ?r)")
        case False
        then have "st' = st" using find_route_head_state [OF 2(2,3)] 2(1) assms(3) by auto
        then show ?thesis by simp
      next
        case api: True
        have "pm (r_path (heap st ?r)) (normalize_path path)"
          using full_match_path [OF assms(2), of "heap st" ?r] api table_search_Some_iff(2) [OF 2(3)] by simp
        moreover have "st' = with_methods ?r (insert ''HEAD'' (r_methods (heap st ?r))) st"
          using find_route_head_state [OF 2(2,3)] 2(1) assms(3) api by (auto simp: add_method_with)
        ultimately have "table_search m st' path ''HEAD'' None [] = Some ?r"
          using table_search_head_again [OF assms(2) 2(2) True api] by auto
        then show ?thesis using 2(1) by (simp add: route_spec_def)
      qed
    qed
  qed
  have "routing_ok st'" using assms(1) st' by (simp add: routing_ok_with_methods)
  from find_route_refines [OF this, of m path meth None "[]"] sc same show ?thesis
    by (auto simp: lookup_result_def)
qed

text \<open>The method set is shared between paths, so a HEAD lookup leaks into later ones: after
  HEAD on one path was answered by the GET route \<open>r\<close>, HEAD on any other path that \<open>r\<close> matches and
  that had no HEAD route of its own is answered by \<open>r\<close>, whatever route GET on that path has.\<close>

theorem head_lookup_leaks:
  assumes "starlette_matches pm m" and "routing_ok st"
    and "table_search m st path ''HEAD'' None [] = None"
    and "table_search m st path ''GET'' None [] = Some r" and "r_api (heap st r)"
    and "table_search m st path' ''HEAD'' None [] = None"
    and "pm (r_path (heap st r)) (normalize_path path')"
  shows "\<exists>scope st' scope' st''. find_route m st path ''HEAD'' None [] = Inr (scope, st') \<and>
    find_route m st' path' ''HEAD'' None [] = Inr (scope', st'') \<and> sc_route scope' = Some r"
proof -
  let ?st = "with_methods r (insert ''HEAD'' (r_methods (heap st r))) st"
  obtain scope where 1: "find_route m st path ''HEAD'' None [] = Inr (scope, ?st)"
    using find_route_head_state [OF assms(3,4)] assms(5) by (auto simp: add_method_with)
  have "r \<in> set (fastapi_routes st)"
    using table_search_Some_iff(1) [OF assms(4)] by (simp add: table_def)
  from table_search_head_again [OF assms(1,6) this assms(5,7), of "insert ''HEAD'' (r_methods (heap st r))"]
  have "table_search m ?st path' ''HEAD'' None [] = Some r" by simp
  with lookup_result_found [OF this] 1 show ?thesis by (auto simp: lookup_result_def)
qed


section \<open>A concrete table\<close>

text \<open>
  The matching of path templates by segments, as Starlette compiles them: a literal segment matches
  itself, a parameter any non-empty segment.
\<close>

definition template_match :: "string \<Rightarrow> string \<Rightarrow> bool" where
  "template_match t p \<longleftrightarrow>
     list_all2 (\<lambda>a b. if is_param_segment a then b \<noteq> [] else a = b) (split_on CHR ''/'' t) (split_on CHR ''/'' p)"

definition template_matcher :: "unit matcher" where
  "template_matcher r p meth =
     (if template_match (r_path r) p
      then (if meth \<in> r_methods r then FullMatch else PartialMatch) else NoMatch, ())"

lemma template_matcher_ok: "starlette_matches template_match template_matcher"
  by (simp add: starlette_matches_def template_matcher_def)

definition get_route :: "string \<Rightarrow> string \<Rightarrow> route" where
  "get_route path name =
     \<lparr>r_api = True, r_path = path, r_path_format = path, r_methods = {''GET''}, r_endpoint = (''pages'', name)\<rparr>"

definition demo_heap :: "route_ref \<Rightarrow> route" where
  "demo_heap r =
     (if r = 0 then get_route ''/x'' ''exact''
      else if r = 1 then get_route ''/{p}'' ''param''
      else if r = 2 then get_route ''__preflight_options'' ''default_preflight_options''
      else if r = 3 then get_route ''__method_not_allowed'' ''default_405''
      else get_route ''__not_found'' ''default_404'')"

definition demo_routing :: routing where
  "demo_routing =
     \<lparr>heap = demo_heap, next_ref = 5, router_ids = [0], router_routes = (\<lambda>_. [1, 0]),
      fastapi_routes = [0, 1], preflight_routes = [2], method_not_allowed_routes = [3],
      not_found_routes = [4]\<rparr>"

lemma demo_routing_ok: "routing_ok demo_routing"
  by (simp add: routing_ok_def demo_routing_def fallback_refs_def demo_heap_def get_route_def)

lemma demo_sorted: "fastapi_routes demo_routing = sort_routes (heap demo_routing) [1, 0]"
  by code_simp

lemma demo_searches:
  "full_match template_matcher (heap demo_routing) ([] @ normalize_path ''/x/'') (upper ''get'') 0"
  "full_match template_matcher (heap demo_routing) ([] @ normalize_path ''/x/'') (upper ''get'') 1"
  "table_search template_matcher demo_routing ''/y'' ''HEAD'' None [] = None"
  "table_search template_matcher demo_routing ''/y'' ''GET'' None [] = Some 1"
  "table_search template_matcher demo_routing ''/x'' ''HEAD'' None [] = None"
  "table_search template_matcher demo_routing ''/x'' ''GET'' None [] = Some 0"
  by code_simp+

theorem find_route_total_and_correct_witness:
  "\<exists>scope st' M. find_route template_matcher demo_routing ''/x/'' ''get'' None [] = Inr (scope, st') \<and>
    sc_route scope = Some 0 \<and> st' = with_methods 0 M demo_routing \<and> {''GET''} \<subseteq> M"
proof -
  have "route_spec template_matcher demo_routing ''/x/'' ''get'' None [] = 0" by code_simp
  moreover have "r_methods (heap demo_routing 0) = {''GET''}"
    by (simp add: demo_routing_def demo_heap_def get_route_def)
  ultimately show ?thesis
    using find_route_total_and_correct [OF demo_routing_ok, of template_matcher "''/x/''" "''get''" None "[]"]
    by metis
qed

theorem find_route_dispatchable_witness:
  "\<exists>scope st'. find_route template_matcher demo_routing ''/x'' ''PUT'' None [] = Inr (scope, st') \<and>
    sc_method scope \<in> r_methods (heap st' 3)"
proof -
  have s: "upper ''PUT'' = ''PUT''" "route_spec template_matcher demo_routing ''/x'' ''PUT'' None [] = 3"
    by code_simp+
  then obtain scope st' M where f: "find_route template_matcher demo_routing ''/x'' ''PUT'' None [] = Inr (scope, st')"
    and r: "lookup_result demo_routing ''PUT'' 3 scope st' M"
    using find_route_refines [OF demo_routing_ok, of template_matcher "''/x''" "''PUT''" None "[]"] by auto
  have "r_api (heap st' 3)"
    using r by (simp add: lookup_result_def demo_routing_def demo_heap_def get_route_def)
  with f r s find_route_dispatchable [OF demo_routing_ok s(1) f, of 3] show ?thesis
    by (auto simp: lookup_result_def)
qed

theorem find_route_priority_witness:
  "\<exists>scope r. find_route template_matcher demo_routing ''/x/'' ''get'' None [] = Inr (scope, demo_routing) \<and>
    sc_route scope = Some r \<and>
    get_route_sort_key (heap demo_routing r) \<le> get_route_sort_key (heap demo_routing 1)"
  using find_route_priority [OF demo_sorted, of 1 template_matcher "[]" "''/x/''" "''get''"] demo_searches(2)
  by auto

theorem exact_route_not_shadowed_witness:
  "\<exists>scope r. find_route template_matcher demo_routing ''/x/'' ''get'' None [] = Inr (scope, demo_routing) \<and>
    sc_route scope = Some r \<and> r_api (heap demo_routing r) \<and>
    \<not> list_ex is_param_segment (path_segments (r_path_format (heap demo_routing r)))"
proof -
  have "r_api (heap demo_routing 0)" "\<not> list_ex is_param_segment (path_segments (r_path_format (heap demo_routing 0)))"
    by code_simp+
  with exact_route_not_shadowed [OF demo_sorted, of 0 template_matcher "[]" "''/x/''" "''get''"] demo_searches(1)
  show ?thesis by auto
qed


theorem find_route_repeatable_witness:
  "\<exists>scope st' scope' st''. find_route template_matcher demo_routing ''/y'' ''HEAD'' None [] = Inr (scope, st') \<and>
    find_route template_matcher st' ''/y'' ''HEAD'' None [] = Inr (scope', st'') \<and> sc_route scope' = Some 1"
proof -
  obtain scope st' where f: "find_route template_matcher demo_routing ''/y'' ''HEAD'' None [] = Inr (scope, st')"
    and "sc_route scope = Some 1"
    using find_route_head_state [OF demo_searches(3,4)] by blast
  with find_route_repeatable [OF demo_routing_ok template_matcher_ok f] show ?thesis by metis
qed

theorem head_lookup_leaks_witness:
  "(\<exists>scope st' scope' st''. find_route template_matcher demo_routing ''/y'' ''HEAD'' None [] = Inr (scope, st') \<and>
      find_route template_matcher st' ''/x'' ''HEAD'' None [] = Inr (scope', st'') \<and> sc_route scope' = Some 1) \<and>
   (\<exists>scope st'. find_route template_matcher demo_routing ''/x'' ''HEAD'' None [] = Inr (scope, st') \<and>
      sc_route scope = Some 0)"
proof
  have "r_api (heap demo_routing 1)" "template_match (r_path (heap demo_routing 1)) (normalize_path ''/x'')"
    by code_simp+
  then show "\<exists>scope st' scope' st''. find_route template_matcher demo_routing ''/y'' ''HEAD'' None [] = Inr (scope, st') \<and>
      find_route template_matcher st' ''/x'' ''HEAD'' None [] = Inr (scope', st'') \<and> sc_route scope' = Some 1"
    by (rule head_lookup_leaks [OF template_matcher_ok demo_routing_ok demo_searches(3,4) _ demo_searches(5)])
  show "\<exists>scope st'. find_route template_matcher demo_routing ''/x'' ''HEAD'' None [] = Inr (scope, st') \<and>
      sc_route scope = Some 0"
    using find_route_head_state [OF demo_searches(5,6)] by blast
qed

end
