(* ===== verification/Pipe_Protocol.thy ===== *)
theory Pipe_Protocol
  imports Frontik_Prelude "HOL-Library.Word"
begin

text \<open>
  The byte protocol between the master and a worker (\<open>frontik/process.py\<close>): a message is the magic
  \<open>T1uf31f\<close>, the payload length as an 8-byte little-endian integer (\<open>struct\<close> format \<open>=Q\<close> on
  little-endian hosts) and the payload. The reader of \<open>_worker_listener\<close> is a step function on the
  bytes it has still to read, up to the end of the stream; \<open>StreamReader.readuntil\<close> is modelled with
  its buffer limit (64 KiB by default), which is an argument.
\<close>

section \<open>Searching for a separator\<close>

type_synonym byte = "8 word"

fun find_sub :: "'a list \<Rightarrow> 'a list \<Rightarrow> nat option" where
  "find_sub p s =
     (if take (length p) s = p then Some 0
      else (case s of [] \<Rightarrow> None | _ # s' \<Rightarrow> map_option Suc (find_sub p s')))"

declare find_sub.simps [simp del]

lemma find_sub_prefix: "find_sub p (p @ s) = Some 0"
  by (subst find_sub.simps) simp

lemma find_sub_Nil: "p \<noteq> [] \<Longrightarrow> find_sub p [] = None"
  by (subst find_sub.simps) simp

lemma find_sub_None_iff: "find_sub p s = None \<longleftrightarrow> \<not> contains s p"
  by (induction s) (auto simp: find_sub.simps [of p "_ # _"] find_sub.simps [of p "[]"]
      contains.simps [of "_ # _"] contains.simps [of "[]"])

lemma find_sub_le: "find_sub p s = Some i \<Longrightarrow> i + length p \<le> length s"
proof (induction s arbitrary: i)
  case (Cons x s)
  show ?case
  proof (cases "take (length p) (x # s) = p")
    case True
    then have "length p \<le> length (x # s)" by (metis nat_le_linear take_all_iff)
    with True Cons.prems show ?thesis by (simp add: find_sub.simps [of p "x # s"])
  next
    case False
    with Cons.prems obtain j where "find_sub p s = Some j" "i = Suc j"
      by (auto simp: find_sub.simps [of p "x # s"])
    with Cons.IH show ?thesis by fastforce
  qed
qed (auto simp: find_sub.simps [of p "[]"] split: if_splits)

text \<open>
  A separator whose first byte does not occur in it again has no overlap with itself: text that does
  not hold it, followed by it, is scanned up to exactly that place.
\<close>

lemma find_sub_after:
  assumes "t \<notin> set q" and "\<not> contains u (t # q)"
  shows "find_sub (t # q) (u @ (t # q) @ v) = Some (length u)"
  using assms(2)
proof (induction u)
  case Nil
  then show ?case using find_sub_prefix [of "t # q" v] by simp
next
  case (Cons a u)
  let ?p = "t # q"
  have no: "take (length ?p) ((a # u) @ ?p @ v) \<noteq> ?p"
  proof
    assume hit: "take (length ?p) ((a # u) @ ?p @ v) = ?p"
    show False
    proof (cases "length ?p \<le> length (a # u)")
      case True
      with hit Cons.prems show False by (simp add: contains_Cons)
    next
      case False
      then have "?p ! length (a # u) = t"
        using hit by (metis (no_types, lifting) append_Cons nth_append_length nth_take not_le)
      moreover have "?p ! length (a # u) \<in> set q" using False by simp
      ultimately show False using assms(1) by simp
    qed
  qed
  have "\<not> contains u ?p" using Cons.prems by (simp add: contains_Cons)
  from Cons.IH [OF this] no show ?case
    by (subst find_sub.simps) simp
qed

lemma contains_skip: "t \<notin> set a \<Longrightarrow> contains (a @ b) (t # q) \<longleftrightarrow> contains b (t # q)"
  by (induction a) (auto simp: contains_Cons)

section \<open>Messages\<close>

definition MESSAGE_HEADER_MAGIC :: "byte list" where
  "MESSAGE_HEADER_MAGIC = [0x54, 0x31, 0x75, 0x66, 0x33, 0x31, 0x66]"

fun le_bytes :: "nat \<Rightarrow> nat \<Rightarrow> byte list" where
  "le_bytes 0 n = []"
| "le_bytes (Suc k) n = word_of_nat n # le_bytes k (n div 256)"

fun le_value :: "byte list \<Rightarrow> nat" where
  "le_value [] = 0"
| "le_value (b # bs) = unat b + 256 * le_value bs"

text \<open>\<open>struct.pack('=Q', n)\<close> fails on numbers of more than 64 bits.\<close>

definition pack_size :: "nat \<Rightarrow> byte list option" where
  "pack_size n = (if n < 2 ^ 64 then Some (le_bytes 8 n) else None)"

definition unpack_size :: "byte list \<Rightarrow> nat" where
  "unpack_size bs = le_value bs"

definition message_header :: "nat \<Rightarrow> byte list" where
  "message_header n = MESSAGE_HEADER_MAGIC @ le_bytes 8 n"

definition message :: "byte list \<Rightarrow> byte list" where
  "message data = message_header (length data) @ data"

lemma length_le_bytes [simp]: "length (le_bytes k n) = k"
  by (induction k arbitrary: n) auto

lemma length_message_header [simp]: "length (message_header n) = 15"
  by (simp add: message_header_def MESSAGE_HEADER_MAGIC_def)

lemma le_value_le_bytes: "le_value (le_bytes k n) = n mod 256 ^ k"
proof (induction k arbitrary: n)
  case (Suc k)
  have "n mod 256 ^ Suc k = n mod 256 + 256 * (n div 256 mod 256 ^ k)"
    by (metis mod_mult2_eq power_Suc add.commute)
  with Suc show ?case by (simp add: unat_of_nat)
qed simp

lemma le_bytes_8:
  "le_bytes 8 n = [word_of_nat n, word_of_nat (n div 256), word_of_nat (n div 256 div 256),
     word_of_nat (n div 256 div 256 div 256), word_of_nat (n div 256 div 256 div 256 div 256),
     word_of_nat (n div 256 div 256 div 256 div 256 div 256),
     word_of_nat (n div 256 div 256 div 256 div 256 div 256 div 256),
     word_of_nat (n div 256 div 256 div 256 div 256 div 256 div 256 div 256)]"
proof -
  have "(8 :: nat) = Suc (Suc (Suc (Suc (Suc (Suc (Suc (Suc 0)))))))" by simp
  then show ?thesis by (simp only: le_bytes.simps)
qed

lemma unpack_pack: "pack_size n = Some bs \<Longrightarrow> unpack_size bs = n \<and> length bs = 8"
  by (auto simp: pack_size_def unpack_size_def le_value_le_bytes split: if_splits)

section \<open>The reader\<close>

datatype read_result = Found "byte list" | Overrun | AtEof

text \<open>
  \<open>readuntil(MESSAGE_HEADER_MAGIC)\<close> on the bytes still to come: the rest after the separator, or an
  overrun when the separator starts beyond the limit or the scan passed the limit without it, or the
  end of the stream.
\<close>

definition readuntil :: "nat \<Rightarrow> byte list \<Rightarrow> read_result" where
  "readuntil limit s =
     (case find_sub MESSAGE_HEADER_MAGIC s of
        Some i \<Rightarrow> if i \<le> limit then Found (drop (i + length MESSAGE_HEADER_MAGIC) s) else Overrun
      | None \<Rightarrow> if limit < length s + 1 - length MESSAGE_HEADER_MAGIC then Overrun else AtEof)"

definition readexactly :: "nat \<Rightarrow> byte list \<Rightarrow> (byte list \<times> byte list) option" where
  "readexactly n s = (if length s < n then None else Some (take n s, drop n s))"

datatype listen_event =
    Delivered "byte list"
  | Rejected "byte list"
  | LimitOverrun
  | PipeClosed

text \<open>
  One round of the \<open>while True\<close> loop of \<open>_worker_listener\<close>. \<open>accept\<close> tells whether \<open>pickle.loads\<close> and
  the listener handler succeed on a payload. An overrun is caught by \<open>except Exception\<close> and leaves
  the buffer as it was; an incomplete read ends the process.
\<close>

definition worker_listener_step ::
    "nat \<Rightarrow> (byte list \<Rightarrow> bool) \<Rightarrow> byte list \<Rightarrow> listen_event \<times> byte list" where
  "worker_listener_step limit accept s =
     (case readuntil limit s of
        Overrun \<Rightarrow> (LimitOverrun, s)
      | AtEof \<Rightarrow> (PipeClosed, [])
      | Found s \<Rightarrow>
         (case readexactly 8 s of
            None \<Rightarrow> (PipeClosed, [])
          | Some (size_header, s) \<Rightarrow>
             (case readexactly (unpack_size size_header) s of
                None \<Rightarrow> (PipeClosed, [])
              | Some (data_raw, s) \<Rightarrow>
                  (if accept data_raw then Delivered data_raw else Rejected data_raw, s))))"

text \<open>The first \<open>n\<close> rounds of the loop.\<close>

fun worker_listener :: "nat \<Rightarrow> (byte list \<Rightarrow> bool) \<Rightarrow> nat \<Rightarrow> byte list \<Rightarrow> listen_event list" where
  "worker_listener limit accept 0 s = []"
| "worker_listener limit accept (Suc n) s =
     (case worker_listener_step limit accept s of
        (PipeClosed, _) \<Rightarrow> [PipeClosed]
      | (e, s') \<Rightarrow> e # worker_listener limit accept n s')"

definition received :: "(byte list \<Rightarrow> bool) \<Rightarrow> byte list \<Rightarrow> listen_event" where
  "received accept data = (if accept data then Delivered data else Rejected data)"

lemma magic_split: "MESSAGE_HEADER_MAGIC = 0x54 # [0x31, 0x75, 0x66, 0x33, 0x31, 0x66]"
  by (simp add: MESSAGE_HEADER_MAGIC_def)

lemma magic_head_once: "(0x54 :: byte) \<notin> set [0x31, 0x75, 0x66, 0x33, 0x31, 0x66]"
  by simp

lemma readuntil_after:
  assumes "\<not> contains u MESSAGE_HEADER_MAGIC"
  shows "readuntil limit (u @ MESSAGE_HEADER_MAGIC @ v) = (if length u \<le> limit then Found v else Overrun)"
proof -
  have "find_sub MESSAGE_HEADER_MAGIC (u @ MESSAGE_HEADER_MAGIC @ v) = Some (length u)"
    using find_sub_after [OF magic_head_once] assms unfolding magic_split by blast
  then show ?thesis by (simp add: readuntil_def)
qed

text \<open>A header announcing \<open>n\<close> bytes makes the reader take the next \<open>n\<close> bytes, whatever they are.\<close>

lemma step_header:
  assumes "\<not> contains u MESSAGE_HEADER_MAGIC" and "length u \<le> limit" and "length data < 2 ^ 64"
  shows "worker_listener_step limit accept (u @ message_header (length data) @ data @ rest) =
    (received accept data, rest)"
proof -
  have size: "unpack_size (le_bytes 8 (length data)) = length data"
    using assms(3) by (simp add: unpack_size_def le_value_le_bytes)
  have "readuntil limit (u @ message_header (length data) @ data @ rest) =
      Found (le_bytes 8 (length data) @ data @ rest)"
    using readuntil_after [OF assms(1), of limit "le_bytes 8 (length data) @ data @ rest"] assms(2)
    by (simp add: message_header_def)
  then show ?thesis
    by (simp add: worker_listener_step_def readexactly_def received_def size)
qed

lemma contains_Nil_magic: "\<not> contains [] MESSAGE_HEADER_MAGIC"
  by (subst contains.simps) (simp add: MESSAGE_HEADER_MAGIC_def)

lemma step_message:
  "length data < 2 ^ 64 \<Longrightarrow> worker_listener_step limit accept (message data @ rest) = (received accept data, rest)"
  using step_header [OF contains_Nil_magic, of limit data accept rest] by (simp add: message_def)

lemma received_neq_closed [simp]: "received accept data \<noteq> PipeClosed"
  by (simp add: received_def)

lemma listener_cons:
  assumes "worker_listener_step limit accept s = (e, s')" and "e \<noteq> PipeClosed"
  shows "worker_listener limit accept (Suc n) s = e # worker_listener limit accept n s'"
  using assms by (cases e) auto

text \<open>
  A reader loop that consumes one encoded message per round delivers a concatenation of messages in
  order and then goes on with the rest of the stream.
\<close>

locale framed_stream =
  fixes run :: "nat \<Rightarrow> 'b list \<Rightarrow> 'e list"
    and enc :: "'m \<Rightarrow> 'b list"
    and ev :: "'m \<Rightarrow> 'e"
    and sendable :: "'m \<Rightarrow> bool"
  assumes run_enc: "sendable x \<Longrightarrow> run (Suc n) (enc x @ rest) = ev x # run n rest"
begin

lemma run_stream:
  "(\<And>x. x \<in> set xs \<Longrightarrow> sendable x) \<Longrightarrow>
   run (length xs + n) (concat (map enc xs) @ rest) = map ev xs @ run n rest"
  by (induction xs) (simp_all add: run_enc)

end

interpretation pipe_reader:
  framed_stream "worker_listener limit accept" message "received accept" "\<lambda>d. length d < 2 ^ 64"
  for limit accept
proof unfold_locales
  fix d rest :: "byte list" and n
  assume "length d < 2 ^ 64"
  from listener_cons [OF step_message [OF this]]
  show "worker_listener limit accept (Suc n) (message d @ rest) = received accept d # worker_listener limit accept n rest"
    by simp
qed

declare worker_listener.simps(2) [simp del]

lemma listener_at_eof: "worker_listener limit accept (Suc n) [] = [PipeClosed]"
  by (simp add: worker_listener.simps worker_listener_step_def readuntil_def find_sub_Nil MESSAGE_HEADER_MAGIC_def)

text \<open>What is left of a resent message after a reader that was \<open>k > 0\<close> bytes short has eaten into it.\<close>

lemma leftover_has_no_magic:
  assumes "0 < k" and "\<not> contains (le_bytes 8 (length d) @ d) MESSAGE_HEADER_MAGIC"
  shows "\<not> contains (drop k (message d)) MESSAGE_HEADER_MAGIC"
proof (cases "k \<le> length MESSAGE_HEADER_MAGIC")
  case True
  have "(0x54 :: byte) \<notin> set (drop k MESSAGE_HEADER_MAGIC)"
    using assms(1) magic_head_once by (cases k) (auto simp: magic_split dest: in_set_dropD)
  then have "contains (drop k MESSAGE_HEADER_MAGIC @ (le_bytes 8 (length d) @ d)) MESSAGE_HEADER_MAGIC \<longleftrightarrow>
      contains (le_bytes 8 (length d) @ d) MESSAGE_HEADER_MAGIC"
    unfolding magic_split by (rule contains_skip)
  with True assms(2) show ?thesis by (simp add: message_def message_header_def)
next
  case False
  then have "drop k (message d) = drop (k - length MESSAGE_HEADER_MAGIC) (le_bytes 8 (length d) @ d)"
    by (simp add: message_def message_header_def)
  then show ?thesis using contains_drop assms(2) by metis
qed

text \<open>The first round after a truncated message swallows the missing bytes of the next one.\<close>

lemma step_truncated:
  assumes "length part < announced" and "announced < 2 ^ 64" and "announced - length part \<le> length (message d)"
  shows "worker_listener_step limit accept (message_header announced @ part @ message d @ rest) =
    (received accept (part @ take (announced - length part) (message d)), drop (announced - length part) (message d) @ rest)"
proof -
  let ?k = "announced - length part"
  have "message d @ rest = take ?k (message d) @ drop ?k (message d) @ rest"
    by (metis append_assoc append_take_drop_id)
  then have eq: "message_header announced @ part @ message d @ rest =
      [] @ message_header (length (part @ take ?k (message d))) @ (part @ take ?k (message d)) @ (drop ?k (message d) @ rest)"
    using assms(1,3) by simp
  have "length (part @ take ?k (message d)) < 2 ^ 64" using assms by simp
  then show ?thesis
    unfolding eq by (intro step_header contains_Nil_magic) simp_all
qed

lemma listener_overrun:
  assumes "\<not> contains u MESSAGE_HEADER_MAGIC" and "limit < length u"
  shows "worker_listener limit accept n (u @ message d @ rest) = replicate n LimitOverrun"
proof (induction n)
  case (Suc n)
  have "worker_listener_step limit accept (u @ message d @ rest) = (LimitOverrun, u @ message d @ rest)"
    using readuntil_after [OF assms(1), of limit "le_bytes 8 (length d) @ d @ rest"] assms(2)
    by (simp add: worker_listener_step_def message_def message_header_def)
  from listener_cons [OF this] Suc show ?case by simp
qed simp

section \<open>Properties\<close>

text \<open>C7. The pipe protocol is lossless: a worker reading the messages a master wrote completely
  receives exactly their payloads, in order, for any payload bytes (the magic included) and any
  number of messages, and then sees the end of the pipe.\<close>

theorem listener_receives_messages:
  assumes "\<And>d. d \<in> set msgs \<Longrightarrow> length d < 2 ^ 64"
  shows "worker_listener limit accept (length msgs + 1) (concat (map message msgs)) =
    map (\<lambda>d. if accept d then Delivered d else Rejected d) msgs @ [PipeClosed]"
  using pipe_reader.run_stream [of msgs limit accept 1 "[]"] assms listener_at_eof
  by (simp add: received_def)

text \<open>Recovery by writing twice: after complete messages and one message whose payload was cut
  off, two copies of a resent message make the reader deliver it: it takes the missing bytes out of
  the first copy, skips the rest of it and reads the second copy in full. This needs the missing
  bytes to fit in one copy, the resent bytes to be free of the magic, and the skipped part to be
  within the reader's buffer limit.\<close>

lemma reader_recovers:
  assumes "\<And>x. x \<in> set msgs \<Longrightarrow> length x < 2 ^ 64"
    and "length part < announced" and "announced < 2 ^ 64" and "announced - length part \<le> length (message d)"
    and "length d < 2 ^ 64" and "\<not> contains (le_bytes 8 (length d) @ d) MESSAGE_HEADER_MAGIC"
    and "length (message d) - (announced - length part) \<le> limit" and "accept d"
  shows "worker_listener limit accept (length msgs + (2 + n))
      (concat (map message msgs) @ message_header announced @ part @ message d @ message d @ rest) =
    map (received accept) msgs @ received accept (part @ take (announced - length part) (message d)) #
      Delivered d # worker_listener limit accept n rest"
proof -
  let ?k = "announced - length part"
  let ?u = "drop ?k (message d)"
  have "\<not> contains ?u MESSAGE_HEADER_MAGIC"
    using leftover_has_no_magic [OF _ assms(6), of ?k] assms(2) by simp
  then have "worker_listener_step limit accept (?u @ message d @ rest) = (received accept d, rest)"
    using step_header [of ?u limit d accept rest] assms(5,7) by (simp add: message_def)
  from listener_cons [OF this, of n] assms(8)
  have "worker_listener limit accept (Suc n) (?u @ message d @ rest) = Delivered d # worker_listener limit accept n rest"
    by (simp add: received_def)
  moreover from listener_cons [OF step_truncated [OF assms(2-4), of limit accept "message d @ rest"], of "Suc n"]
  have "worker_listener limit accept (2 + n) (message_header announced @ part @ message d @ message d @ rest) =
      received accept (part @ take ?k (message d)) # worker_listener limit accept (Suc n) (?u @ message d @ rest)"
    by simp
  ultimately show ?thesis
    using pipe_reader.run_stream [OF assms(1), of msgs limit accept "2 + n"] by simp
qed

text \<open>Where that recovery fails: if the part of the first copy to be skipped is longer than the
  reader's buffer limit, the reader reports a limit overrun in every later round and never delivers
  anything again, since the failed read consumes no bytes.\<close>

theorem large_resend_stalls_reader:
  assumes "length part < announced" and "announced < 2 ^ 64" and "announced - length part \<le> length (message d)"
    and "\<not> contains (le_bytes 8 (length d) @ d) MESSAGE_HEADER_MAGIC"
    and "limit < length (message d) - (announced - length part)"
  shows "worker_listener limit accept (Suc n) (message_header announced @ part @ message d @ message d @ rest) =
    received accept (part @ take (announced - length part) (message d)) # replicate n LimitOverrun"
proof -
  let ?u = "drop (announced - length part) (message d)"
  have "\<not> contains ?u MESSAGE_HEADER_MAGIC"
    using leftover_has_no_magic [OF _ assms(4), of "announced - length part"] assms(1) by simp
  then have "worker_listener limit accept n (?u @ message d @ rest) = replicate n LimitOverrun"
    by (rule listener_overrun) (use assms(5) in simp)
  with listener_cons [OF step_truncated [OF assms(1-3), of limit accept "message d @ rest"], of n]
  show ?thesis by simp
qed

section \<open>Concrete streams\<close>

theorem listener_receives_messages_witness:
  "worker_listener 65536 (\<lambda>_. True) (length [[1, 2], MESSAGE_HEADER_MAGIC] + 1)
     (concat (map message [[1, 2], MESSAGE_HEADER_MAGIC])) =
   [Delivered [1, 2], Delivered MESSAGE_HEADER_MAGIC, PipeClosed]"
proof -
  have "length d < 2 ^ 64" if "d \<in> set [[1, 2], MESSAGE_HEADER_MAGIC]" for d
    using that by (auto simp: MESSAGE_HEADER_MAGIC_def)
  from listener_receives_messages [of "[[1, 2], MESSAGE_HEADER_MAGIC]" 65536 "\<lambda>_. True", OF this]
  show ?thesis by simp
qed

lemma no_magic_without_head: "(0x54 :: byte) \<notin> set s \<Longrightarrow> \<not> contains s MESSAGE_HEADER_MAGIC"
  using contains_skip [of "0x54 :: byte" s "[]"] contains_Nil_magic unfolding magic_split by simp

theorem large_resend_stalls_reader_witness:
  "\<exists>garbage. \<forall>n. worker_listener 65536 (\<lambda>_. True) (Suc n)
     (message_header 10 @ [7, 7, 7] @ message (replicate 70000 9) @ message (replicate 70000 9) @ []) =
   Delivered garbage # replicate n LimitOverrun"
proof -
  let ?d = "replicate 70000 (9 :: byte)"
  have len: "length ?d = 70000" by (rule length_replicate)
  have lmsg: "length (message ?d) = 70015" by (simp only: message_def length_append length_message_header len)
  have "(0x54 :: byte) \<notin> set (le_bytes 8 70000)" by (simp add: le_bytes_8)
  moreover have "(0x54 :: byte) \<notin> set ?d" by (simp only: set_replicate_conv_if) simp
  ultimately have free: "\<not> contains (le_bytes 8 (length ?d) @ ?d) MESSAGE_HEADER_MAGIC"
    unfolding len by (intro no_magic_without_head) (simp only: set_append Un_iff de_Morgan_disj simp_thms)
  have "worker_listener 65536 (\<lambda>_. True) (Suc n) (message_header 10 @ [7, 7, 7] @ message ?d @ message ?d @ []) =
      Delivered ([7, 7, 7] @ take (10 - length [7, 7, 7 :: byte]) (message ?d)) # replicate n LimitOverrun" for n
    using large_resend_stalls_reader [of "[7, 7, 7]" 10 ?d 65536 "\<lambda>_. True" n "[]", OF _ _ _ free]
    unfolding lmsg received_def by simp
  then show ?thesis by blast
qed

end
