(* ===== verification/Pipe_Writer.thy ===== *)
theory Pipe_Writer
  imports Pipe_Protocol
begin

text \<open>
  The master's end of a worker pipe: the buffered writer \<open>os.fdopen(write_fd, 'wb')\<close> over a
  non-blocking descriptor and \<open>__send_update\<close> of \<open>frontik/process.py\<close>. The kernel's answers to the
  successive raw writes are an argument (a list, after whose end the pipe stays full). The bytes a
  reader will see are those on the wire followed by those still in the buffer.
\<close>

section \<open>The buffered writer\<close>

datatype raw_reply = Wrote nat | WouldBlock | Broken

datatype io_result = Done | Blocked | Failed

record pipe =
  wire :: "byte list"
  pending :: "byte list"
  write_pos :: nat

definition new_pipe :: pipe where
  "new_pipe = \<lparr>wire = [], pending = [], write_pos = 0\<rparr>"

text \<open>
  One raw write of \<open>n\<close> bytes: a non-blocking \<open>write\<close> takes at least one byte and at most \<open>n\<close>, or
  fails with \<open>EAGAIN\<close> (blocked) or with another error.
\<close>

definition accepted :: "nat \<Rightarrow> nat \<Rightarrow> nat" where
  "accepted k n = min (max 1 k) n"

text \<open>\<open>flush\<close>: write the buffer until it is empty, keeping what the kernel did not take.\<close>

fun flush_pipe :: "raw_reply list \<Rightarrow> pipe \<Rightarrow> io_result \<times> raw_reply list \<times> pipe" where
  "flush_pipe rs p =
     (if pending p = [] then (Done, rs, p\<lparr>write_pos := 0\<rparr>)
      else case rs of
        [] \<Rightarrow> (Blocked, [], p)
      | WouldBlock # rs \<Rightarrow> (Blocked, rs, p)
      | Broken # rs \<Rightarrow> (Failed, rs, p)
      | Wrote k # rs \<Rightarrow>
          (let n = accepted k (length (pending p))
           in flush_pipe rs (p\<lparr>wire := wire p @ take n (pending p), pending := drop n (pending p),
                               write_pos := write_pos p + n\<rparr>)))"

declare flush_pipe.simps [simp del]

text \<open>
  The part of \<open>BufferedWriter.write\<close> after a successful flush: what is longer than the buffer goes to
  the descriptor directly; when that blocks, the buffer is filled with as much as fits and the rest is
  dropped.
\<close>

fun write_through :: "nat \<Rightarrow> raw_reply list \<Rightarrow> pipe \<Rightarrow> byte list \<Rightarrow> io_result \<times> raw_reply list \<times> pipe" where
  "write_through bufsize rs p b =
     (if length b \<le> bufsize then (Done, rs, p\<lparr>pending := b, write_pos := 0\<rparr>)
      else case rs of
        [] \<Rightarrow> (Blocked, [], p\<lparr>pending := take bufsize b, write_pos := 0\<rparr>)
      | WouldBlock # rs \<Rightarrow> (Blocked, rs, p\<lparr>pending := take bufsize b, write_pos := 0\<rparr>)
      | Broken # rs \<Rightarrow> (Failed, rs, p)
      | Wrote k # rs \<Rightarrow>
          (let n = accepted k (length b)
           in write_through bufsize rs (p\<lparr>wire := wire p @ take n b\<rparr>) (drop n b)))"

declare write_through.simps [simp del]

definition write_pipe :: "nat \<Rightarrow> raw_reply list \<Rightarrow> pipe \<Rightarrow> byte list \<Rightarrow> io_result \<times> raw_reply list \<times> pipe" where
  "write_pipe bufsize rs p b =
     (let used = (if pending p = [] then 0 else write_pos p + length (pending p))
      in if used + length b \<le> bufsize \<and> length b < bufsize
         then (Done, rs, p\<lparr>pending := pending p @ b, write_pos := (if pending p = [] then 0 else write_pos p)\<rparr>)
         else case flush_pipe rs p of
             (Done, rs, p) \<Rightarrow> write_through bufsize rs p b
           | (Failed, rs, p) \<Rightarrow> (Failed, rs, p)
           | (Blocked, rs, p) \<Rightarrow>
               (let avail = bufsize - length (pending p)
                in if length b \<le> avail
                   then (Done, rs, p\<lparr>pending := pending p @ b, write_pos := 0\<rparr>)
                   else (Blocked, rs, p\<lparr>pending := pending p @ take avail b, write_pos := 0\<rparr>)))"

definition stream :: "pipe \<Rightarrow> byte list" where
  "stream p = wire p @ pending p"

subsection \<open>Its contract\<close>

lemma flush_keeps_stream: "flush_pipe rs p = (r, rs', p') \<Longrightarrow> stream p' = stream p"
proof (induction rs p arbitrary: r rs' p' rule: flush_pipe.induct)
  case (1 rs p)
  from 1(2) [unfolded flush_pipe.simps [of rs p]] show ?case
    by (auto simp: stream_def Let_def dest!: 1(1) split: if_splits list.splits raw_reply.splits)
qed

lemma flush_done_empty: "flush_pipe rs p = (Done, rs', p') \<Longrightarrow> pending p' = []"
proof (induction rs p arbitrary: rs' p' rule: flush_pipe.induct)
  case (1 rs p)
  from 1(2) [unfolded flush_pipe.simps [of rs p]] show ?case
    by (auto simp: Let_def dest!: 1(1) split: if_splits list.splits raw_reply.splits)
qed

definition wrote_prefix :: "io_result \<Rightarrow> nat \<Rightarrow> byte list \<Rightarrow> bool" where
  "wrote_prefix r k b \<longleftrightarrow> (r = Done \<longrightarrow> k = length b) \<and> (r = Blocked \<longrightarrow> k < length b)"

lemma write_through_stream:
  assumes "write_through bufsize rs p b = (r, rs', p')" and "pending p = []"
  shows "\<exists>k. stream p' = stream p @ take k b \<and> wrote_prefix r k b"
  using assms
proof (induction bufsize rs p b arbitrary: r rs' p' rule: write_through.induct)
  case (1 bufsize rs p b)
  have base: ?case if "stream p' = stream p @ take k b" "wrote_prefix r k b" for k
    using that by blast
  show ?case
  proof (cases "length b \<le> bufsize")
    case True
    with 1(2,3) show ?thesis
      by (intro base [of "length b"]) (auto simp: write_through.simps [of bufsize rs p b] stream_def wrote_prefix_def)
  next
    case False
    show ?thesis
    proof (cases "\<exists>k rs1. rs = Wrote k # rs1")
      case True
      then obtain k rs1 where rs: "rs = Wrote k # rs1" by blast
      let ?n = "accepted k (length b)"
      let ?p1 = "p\<lparr>wire := wire p @ take ?n b\<rparr>"
      from 1(2) [unfolded write_through.simps [of bufsize rs p b]] False rs
      have "write_through bufsize rs1 ?p1 (drop ?n b) = (r, rs', p')" by (simp add: Let_def)
      from 1(1) [OF False rs refl refl this] 1(3) obtain j where
        j: "stream p' = stream ?p1 @ take j (drop ?n b)" "wrote_prefix r j (drop ?n b)" by auto
      have "take ?n b @ take j (drop ?n b) = take (?n + j) b" by (simp add: take_add)
      with j 1(3) have "stream p' = stream p @ take (?n + j) b" by (simp add: stream_def)
      moreover have "?n \<le> length b" by (simp add: accepted_def)
      ultimately show ?thesis using j(2) by (intro base [of "?n + j"]) (auto simp: wrote_prefix_def)
    next
      case no_write: False
      show ?thesis
      proof (cases "\<exists>rs1. rs = Broken # rs1")
        case True
        with 1(2,3) False show ?thesis
          by (intro base [of 0]) (auto simp: write_through.simps [of bufsize rs p b] stream_def wrote_prefix_def)
      next
        case no_break: False
        with no_write have "rs = [] \<or> (\<exists>rs1. rs = WouldBlock # rs1)"
          by (metis list.exhaust raw_reply.exhaust)
        with 1(2,3) False show ?thesis
          by (intro base [of bufsize]) (auto simp: write_through.simps [of bufsize rs p b] stream_def wrote_prefix_def)
      qed
    qed
  qed
qed

lemma write_pipe_stream:
  assumes "write_pipe bufsize rs p b = (r, rs', p')"
  shows "\<exists>k. stream p' = stream p @ take k b \<and> wrote_prefix r k b"
proof (cases "(if pending p = [] then 0 else write_pos p + length (pending p)) + length b \<le> bufsize \<and> length b < bufsize")
  case True
  with assms show ?thesis by (intro exI [of _ "length b"]) (auto simp: write_pipe_def stream_def Let_def wrote_prefix_def)
next
  case False
  obtain f rs1 p1 where fl: "flush_pipe rs p = (f, rs1, p1)" by (metis prod_cases3)
  from flush_keeps_stream [OF fl] have s: "stream p1 = stream p" .
  note unf = assms [unfolded write_pipe_def Let_def if_not_P [OF False] fl]
  show ?thesis
  proof (cases f)
    case Done
    with unf have "write_through bufsize rs1 p1 b = (r, rs', p')" by simp
    from write_through_stream [OF this] flush_done_empty fl Done s show ?thesis by auto
  next
    case Blocked
    then show ?thesis using unf s
      by (intro exI [of _ "if length b \<le> bufsize - length (pending p1) then length b else bufsize - length (pending p1)"])
        (auto simp: stream_def wrote_prefix_def split: if_splits)
  next
    case Failed
    with unf s show ?thesis by (intro exI [of _ 0]) (auto simp: stream_def wrote_prefix_def)
  qed
qed

lemma flush_unbroken:
  "flush_pipe rs p = (r, rs', p') \<Longrightarrow> Broken \<notin> set rs \<Longrightarrow> r \<noteq> Failed \<and> Broken \<notin> set rs'"
proof (induction rs p arbitrary: r rs' p' rule: flush_pipe.induct)
  case (1 rs p)
  from 1(2) [unfolded flush_pipe.simps [of rs p]] 1(3) show ?case
    by (auto simp: Let_def dest!: 1(1) split: if_splits list.splits raw_reply.splits)
qed

lemma write_through_unbroken:
  "write_through bufsize rs p b = (r, rs', p') \<Longrightarrow> Broken \<notin> set rs \<Longrightarrow> r \<noteq> Failed \<and> Broken \<notin> set rs'"
proof (induction bufsize rs p b arbitrary: r rs' p' rule: write_through.induct)
  case (1 bufsize rs p b)
  from 1(2) [unfolded write_through.simps [of bufsize rs p b]] 1(3) show ?case
    by (auto simp: Let_def dest!: 1(1) split: if_splits list.splits raw_reply.splits)
qed

lemma write_pipe_unbroken:
  "write_pipe bufsize rs p b = (r, rs', p') \<Longrightarrow> Broken \<notin> set rs \<Longrightarrow> r \<noteq> Failed \<and> Broken \<notin> set rs'"
  by (auto simp: write_pipe_def Let_def dest: flush_unbroken write_through_unbroken
      split: if_splits prod.splits io_result.splits)

lemma flush_blocked: "flush_pipe rs p = (Blocked, rs', p') \<Longrightarrow> pending p' \<noteq> []"
proof (induction rs p arbitrary: rs' p' rule: flush_pipe.induct)
  case (1 rs p)
  from 1(2) [unfolded flush_pipe.simps [of rs p]] show ?case
    by (auto simp: Let_def dest!: 1(1) split: if_splits list.splits raw_reply.splits)
qed

lemma write_through_blocked:
  "write_through (Suc n) rs p b = (Blocked, rs', p') \<Longrightarrow> pending p' \<noteq> []"
proof (induction "Suc n" rs p b arbitrary: rs' p' rule: write_through.induct)
  case (1 rs p b)
  from 1(2) [unfolded write_through.simps [of "Suc n" rs p b]] show ?case
    by (auto simp: Let_def dest: 1(1) split: if_splits list.splits raw_reply.splits)
qed

lemma write_pipe_blocked: "write_pipe (Suc n) rs p b = (Blocked, rs', p') \<Longrightarrow> pending p' \<noteq> []"
  by (auto simp: write_pipe_def Let_def dest: flush_blocked write_through_blocked
      split: if_splits prod.splits io_result.splits)

text \<open>
  What \<open>__send_update\<close> relies on: a write appends a prefix of its argument to the stream the reader
  sees, all of it when it returns normally and not all of it when it blocks; a flush does not change
  that stream; a flush that returns normally leaves nothing pending, while a call that blocks leaves
  something; a pipe whose reader is alive does not fail.
\<close>

locale byte_sink =
  fixes emit :: "'r \<Rightarrow> 'p \<Rightarrow> byte list \<Rightarrow> io_result \<times> 'r \<times> 'p"
    and sync :: "'r \<Rightarrow> 'p \<Rightarrow> io_result \<times> 'r \<times> 'p"
    and out :: "'p \<Rightarrow> byte list"
    and drained :: "'p \<Rightarrow> bool"
    and alive :: "'r \<Rightarrow> bool"
  assumes emit_out: "emit e p b = (r, e', p') \<Longrightarrow> \<exists>k. out p' = out p @ take k b \<and> wrote_prefix r k b"
    and sync_out: "sync e p = (r, e', p') \<Longrightarrow> out p' = out p"
    and sync_drained: "sync e p = (Done, e', p') \<Longrightarrow> drained p'"
    and emit_blocked: "emit e p b = (Blocked, e', p') \<Longrightarrow> \<not> drained p'"
    and sync_blocked: "sync e p = (Blocked, e', p') \<Longrightarrow> \<not> drained p'"
    and emit_alive: "emit e p b = (r, e', p') \<Longrightarrow> alive e \<Longrightarrow> r \<noteq> Failed \<and> alive e'"
    and sync_alive: "sync e p = (r, e', p') \<Longrightarrow> alive e \<Longrightarrow> r \<noteq> Failed \<and> alive e'"
begin

text \<open>Two writes and a flush, stopped by the first that does not return normally.\<close>

definition emit2 :: "'r \<Rightarrow> 'p \<Rightarrow> byte list \<Rightarrow> byte list \<Rightarrow> bool \<times> io_result \<times> 'r \<times> 'p" where
  "emit2 e p h b =
     (case emit e p h of
        (Done, e, p) \<Rightarrow>
          (case emit e p b of
             (Done, e, p) \<Rightarrow> (True, sync e p)
           | (r, e, p) \<Rightarrow> (True, r, e, p))
      | (r, e, p) \<Rightarrow> (False, r, e, p))"

lemma emit2_out:
  assumes "emit2 e p h b = (first, r, e', p')" and "alive e"
  shows "alive e' \<and>
    (first \<and> r = Done \<and> out p' = out p @ h @ b \<and> drained p' \<or>
     first \<and> r = Blocked \<and> \<not> drained p' \<and> (\<exists>k \<le> length b. out p' = out p @ h @ take k b) \<or>
     \<not> first \<and> r = Blocked \<and> \<not> drained p' \<and> (\<exists>k < length h. out p' = out p @ take k h))"
proof -
  obtain r1 e1 p1 where w1: "emit e p h = (r1, e1, p1)" by (metis prod_cases3)
  from emit_out [OF w1] obtain k1 where k1: "out p1 = out p @ take k1 h" "wrote_prefix r1 k1 h" by auto
  from emit_alive [OF w1 assms(2)] have a1: "r1 \<noteq> Failed" "alive e1" by auto
  show ?thesis
  proof (cases "r1 = Done")
    case False
    with a1 have "r1 = Blocked" by (cases r1) auto
    with assms(1) w1 a1 k1 show ?thesis by (auto simp: emit2_def wrote_prefix_def dest: emit_blocked)
  next
    case True
    obtain r2 e2 p2 where w2: "emit e1 p1 b = (r2, e2, p2)" by (metis prod_cases3)
    from emit_out [OF w2] obtain k2 where k2: "out p2 = out p1 @ take k2 b" "wrote_prefix r2 k2 b" by auto
    from emit_alive [OF w2 a1(2)] have a2: "r2 \<noteq> Failed" "alive e2" by auto
    obtain r3 e3 p3 where w3: "sync e2 p2 = (r3, e3, p3)" by (metis prod_cases3)
    from sync_alive [OF w3 a2(2)] sync_out [OF w3] have a3: "r3 \<noteq> Failed" "alive e3" "out p3 = out p2" by auto
    show ?thesis
    proof (cases "r2 = Done")
      case False
      with a2 have "r2 = Blocked" by (cases r2) auto
      with assms(1) w1 w2 a2 k1 k2 True show ?thesis
        by (auto simp: emit2_def wrote_prefix_def dest: emit_blocked intro!: exI [of _ k2])
    next
      case r2: True
      with a3 sync_drained w3 have "r3 = Blocked \<and> \<not> drained p3 \<or> r3 = Done \<and> drained p3"
        by (cases r3) (auto dest: sync_blocked)
      with assms(1) w1 w2 w3 a3 k1 k2 True r2 show ?thesis
        by (auto simp: emit2_def wrote_prefix_def intro!: exI [of _ "length b"])
    qed
  qed
qed

end

interpretation pipe_sink: byte_sink "write_pipe (Suc n)" flush_pipe stream
  "\<lambda>p. pending p = []" "\<lambda>rs. Broken \<notin> set rs" for n
  by unfold_locales (fact write_pipe_stream flush_keeps_stream flush_done_empty write_pipe_blocked
      flush_blocked write_pipe_unbroken flush_unbroken)+

section \<open>Sending an update\<close>

text \<open>\<open>Queue.put_nowait\<close> under \<open>suppress(Full)\<close>: a full queue is left as it is.\<close>

definition put_nowait :: "nat \<Rightarrow> 'a list \<Rightarrow> 'a \<Rightarrow> 'a list" where
  "put_nowait maxsize q x = (if length q < maxsize then q @ [x] else q)"

record mailbox =
  resend_notification :: "bool list"
  resend_dict :: "(int, bool) dict"

text \<open>\<open>on_worker_restart\<close>, also the branch of \<open>__send_update\<close> for a blocked pipe.\<close>

definition request_resend :: "int \<Rightarrow> mailbox \<Rightarrow> mailbox" where
  "request_resend worker_pid mb =
     mb\<lparr>resend_dict := dict_set (resend_dict mb) worker_pid True,
        resend_notification := put_nowait 1 (resend_notification mb) True\<rparr>"

lemma request_resend_marks [simp]:
  "dict_get (resend_dict (request_resend pid mb)) q = (if q = pid then Some True else dict_get (resend_dict mb) q)"
  "resend_notification (request_resend pid mb) \<noteq> []"
  by (simp_all add: request_resend_def put_nowait_def)

definition send_update ::
    "nat \<Rightarrow> raw_reply list \<Rightarrow> mailbox \<Rightarrow> int \<Rightarrow> pipe \<Rightarrow> byte list \<Rightarrow> raw_reply list \<times> mailbox \<times> pipe" where
  "send_update bufsize rs mb worker_pid p data =
     (case pack_size (length data) of
        None \<Rightarrow> (rs, mb, p)
      | Some packed \<Rightarrow>
         (case write_pipe bufsize rs p (MESSAGE_HEADER_MAGIC @ packed) of
            (Blocked, rs, p) \<Rightarrow> (rs, mb, p)
          | (Failed, rs, p) \<Rightarrow> (rs, mb, p)
          | (Done, rs, p) \<Rightarrow>
             (case write_pipe bufsize rs p data of
                (Blocked, rs, p) \<Rightarrow> (rs, request_resend worker_pid mb, p)
              | (Failed, rs, p) \<Rightarrow> (rs, mb, p)
              | (Done, rs, p) \<Rightarrow>
                 (case flush_pipe rs p of
                    (Blocked, rs, p) \<Rightarrow> (rs, request_resend worker_pid mb, p)
                  | (_, rs, p) \<Rightarrow> (rs, mb, p)))))"

lemma send_update_emit2:
  "length data < 2 ^ 64 \<Longrightarrow>
   send_update (Suc n) rs mb pid p data =
     (case pipe_sink.emit2 n rs p (message_header (length data)) data of
        (first, r, rs, p) \<Rightarrow> (rs, if first \<and> r = Blocked then request_resend pid mb else mb, p))"
  by (simp add: send_update_def pack_size_def message_header_def pipe_sink.emit2_def
      split: prod.split io_result.split)

lemma send_update_cases:
  assumes "send_update bufsize rs mb pid p data = (rs', mb', p')" and "0 < bufsize"
    and "Broken \<notin> set rs" and "length data < 2 ^ 64"
  shows "Broken \<notin> set rs' \<and>
    (mb' = mb \<and> stream p' = stream p @ message data \<and> pending p' = [] \<or>
     mb' = request_resend pid mb \<and> pending p' \<noteq> [] \<and>
       (\<exists>k \<le> length data. stream p' = stream p @ message_header (length data) @ take k data) \<or>
     mb' = mb \<and> pending p' \<noteq> [] \<and> (\<exists>k < 15. stream p' = stream p @ take k (message_header (length data))))"
proof -
  from assms(2) obtain n where n: "bufsize = Suc n" by (cases bufsize) auto
  obtain first r rs1 p1 where e: "pipe_sink.emit2 n rs p (message_header (length data)) data = (first, r, rs1, p1)"
    by (metis prod_cases4)
  from pipe_sink.emit2_out [OF e assms(3)] send_update_emit2 [OF assms(4), of n rs mb pid p] e assms(1)
  show ?thesis unfolding n by (auto simp: message_def)
qed

lemma stream_drained: "pending p = [] \<Longrightarrow> stream p = wire p"
  by (simp add: stream_def)

section \<open>Properties\<close>

text \<open>C18. Outcomes of an update: on a pipe whose reader is alive, \<open>__send_update\<close> either writes the
  whole message to the pipe and changes nothing else; or it blocks after the header, the reader's
  stream then holds the header and a prefix of the payload, and the worker is put on the resend list
  with a notification pending; or it blocks within the header, and then the stream holds a proper
  prefix of the header and no resend is requested.\<close>

theorem send_update_outcome:
  assumes "send_update bufsize rs mb pid p data = (rs', mb', p')" and "0 < bufsize"
    and "Broken \<notin> set rs" and "length data < 2 ^ 64"
  shows "mb' = mb \<and> wire p' = stream p @ message data \<and> pending p' = [] \<or>
    dict_get (resend_dict mb') pid = Some True \<and> resend_notification mb' \<noteq> [] \<and> pending p' \<noteq> [] \<and>
      (\<exists>k \<le> length data. stream p' = stream p @ message_header (length data) @ take k data) \<or>
    mb' = mb \<and> pending p' \<noteq> [] \<and> (\<exists>k < 15. stream p' = stream p @ take k (message_header (length data)))"
  using send_update_cases [OF assms] stream_drained [of p'] by auto


text \<open>
  The size field the listener reads after a header of which only \<open>k\<close> bytes were written is completed
  from the magic of the next message, so it announces at least \<open>2 ^ 48\<close> bytes.
\<close>

lemma le_value_nth: "i < length bs \<Longrightarrow> unat (bs ! i) * 256 ^ i \<le> le_value bs"
proof (induction bs arbitrary: i)
  case (Cons b bs)
  show ?case
  proof (cases i)
    case (Suc j)
    with Cons have "256 * (unat (bs ! j) * 256 ^ j) \<le> 256 * le_value bs" by (intro mult_le_mono2) simp
    with Suc show ?thesis by (simp add: mult.left_commute)
  qed simp
qed simp

lemma length_magic [simp]: "length MESSAGE_HEADER_MAGIC = 7"
  by (simp add: MESSAGE_HEADER_MAGIC_def)

lemma spliced_size:
  assumes "7 \<le> k" and "k < 15"
  shows "2 ^ 48 \<le> le_value (take 8 (drop 7 (take k (message_header m)) @ message d))"
proof -
  let ?bs = "take 8 (drop 7 (take k (message_header m)) @ message d)"
  define i :: nat where "i = (if k = 7 then 6 else 7)"
  have "?bs ! i = message d ! (i + 7 - k)" "i < length ?bs"
    using assms by (auto simp: nth_append i_def message_def)
  moreover have "message d ! j = MESSAGE_HEADER_MAGIC ! j" if "j < 7" for j
    using that by (simp add: message_def message_header_def nth_append)
  moreover have "i + 7 - k < 7" using assms by (auto simp: i_def)
  moreover have "1 \<le> unat (MESSAGE_HEADER_MAGIC ! j)" if "j < 7" for j
  proof -
    from that have "j \<in> {0, 1, 2, 3, 4, 5, 6}" by auto
    then show ?thesis by (auto simp: MESSAGE_HEADER_MAGIC_def)
  qed
  ultimately have i: "i < length ?bs" and top: "1 \<le> unat (?bs ! i)" by simp_all
  from mult_le_mono1 [OF top, of "256 ^ i"] le_value_nth [OF i] have "1 * 256 ^ i \<le> le_value ?bs"
    by (rule order_trans)
  moreover have "(2 :: nat) ^ 48 \<le> 256 ^ i" by (simp add: i_def)
  ultimately show ?thesis by simp
qed

lemma step_cut_header:
  assumes "7 \<le> k" and "k < 15" and "length (message d @ rest) < 2 ^ 48"
  shows "worker_listener_step limit accept (take k (message_header m) @ message d @ rest) = (PipeClosed, [])"
proof -
  let ?u = "drop 7 (take k (message_header m)) @ message d"
  have "take k (message_header m) = MESSAGE_HEADER_MAGIC @ drop 7 (take k (message_header m))"
    using assms(1) by (simp add: message_header_def)
  then have "readuntil limit (take k (message_header m) @ message d @ rest) = Found (?u @ rest)"
    using readuntil_after [OF contains_Nil_magic, of limit "?u @ rest"] by (metis append_assoc append_Nil le0 list.size(3))
  moreover have "readexactly 8 (?u @ rest) = Some (take 8 ?u, drop 8 ?u @ rest)"
    by (simp add: readexactly_def message_def)
  moreover have "length (drop 8 ?u @ rest) < 2 ^ 48" using assms(2,3) by simp
  ultimately show ?thesis
    using spliced_size [OF assms(1,2), of m d]
    by (auto simp: worker_listener_step_def unpack_size_def readexactly_def)
qed


section \<open>Concrete pipes\<close>

definition demo_pipe :: pipe where
  "demo_pipe = \<lparr>wire = take 5 (message [1, 2, 3]), pending = drop 5 (message [1, 2, 3]), write_pos = 0\<rparr>"

definition demo_mailbox :: mailbox where
  "demo_mailbox = \<lparr>resend_notification = [], resend_dict = []\<rparr>"

lemmas pipe_eval = send_update_def pack_size_def write_pipe_def write_through.simps flush_pipe.simps
  accepted_def Let_def length_magic new_pipe_def request_resend_def put_nowait_def dict_set_def demo_mailbox_def

theorem send_update_outcome_witness:
  "\<exists>mb' p'. snd (send_update 8 [Wrote 4, Wrote 2, Wrote 30] demo_mailbox 7 new_pipe [5, 6]) = (mb', p') \<and>
    (mb' = demo_mailbox \<and> wire p' = [] @ message [5, 6] \<and> pending p' = [] \<or>
     dict_get (resend_dict mb') 7 = Some True \<and> resend_notification mb' \<noteq> [] \<and> pending p' \<noteq> [] \<and>
       (\<exists>k \<le> length [5, 6 :: byte]. stream p' = [] @ message_header (length [5, 6 :: byte]) @ take k [5, 6]) \<or>
     mb' = demo_mailbox \<and> pending p' \<noteq> [] \<and> (\<exists>k < 15. stream p' = [] @ take k (message_header (length [5, 6 :: byte]))))"
proof -
  obtain rs' mb' p' where r: "send_update 8 [Wrote 4, Wrote 2, Wrote 30] demo_mailbox 7 new_pipe [5, 6] = (rs', mb', p')"
    by (metis prod_cases3)
  have "stream new_pipe = []" by (simp add: stream_def new_pipe_def)
  with send_update_outcome [OF r] show ?thesis by (simp add: r)
qed



end
