(* ===== verification/Workers.thy ===== *)
theory Workers
  imports Pipe_Writer
begin

text \<open>
  Worker supervision of \<open>frontik/process.py\<close>: the master's state (\<open>WorkerState\<close>), starting and
  restarting workers, the signal handler, the supervision loop, sending updates to every worker and the
  resend thread. What the operating system decides (the results of \<open>os.wait\<close>, the pids of new
  processes, whether a pid can be signalled, how much a pipe takes) is an argument of the definitions.
  \<open>pickle.dumps\<close> is the parameter \<open>dumps\<close>.
\<close>

section \<open>State\<close>

record 'v worker_state =
  children :: "(int, nat) dict"
  write_pipes :: "(int, pipe) dict"
  mbox :: mailbox
  terminating :: bool
  is_master :: bool
  init_workers_count_down :: int
  master_done :: bool
  initial_shared_data :: "(string, 'v) dict"

definition new_worker_state :: "int \<Rightarrow> 'v worker_state" where
  "new_worker_state count_down =
     \<lparr>children = [], write_pipes = [], mbox = \<lparr>resend_notification = [], resend_dict = []\<rparr>,
      terminating = False, is_master = True, init_workers_count_down = count_down, master_done = False,
      initial_shared_data = []\<rparr>"

section \<open>Starting workers\<close>

text \<open>
  \<open>_start_child\<close>: the copy of the shared data is taken under the lock when there is one, the new process
  inherits it, and the master registers the pid with its worker id and a new pipe.
\<close>

definition start_child :: "nat \<Rightarrow> (string, 'v) dict \<Rightarrow> bool \<Rightarrow> int \<Rightarrow> 'v worker_state \<Rightarrow> 'v worker_state" where
  "start_child worker_id shared_data locked pid ws =
     (let ws = (if locked then ws\<lparr>initial_shared_data := shared_data\<rparr> else ws)
      in ws\<lparr>children := dict_set (children ws) pid worker_id,
            write_pipes := dict_set (write_pipes ws) pid new_pipe\<rparr>)"

text \<open>What the new process sees: the master's state at the fork, no longer as master.\<close>

definition worker_function_wrapper :: "'v worker_state \<Rightarrow> 'v worker_state" where
  "worker_function_wrapper ws = ws\<lparr>is_master := False\<rparr>"

definition on_worker_restart :: "int \<Rightarrow> 'v worker_state \<Rightarrow> 'v worker_state" where
  "on_worker_restart worker_pid ws = ws\<lparr>mbox := request_resend worker_pid (mbox ws)\<rparr>"

section \<open>Signals\<close>

text \<open>
  The handler of \<open>SIGTERM\<close> and \<open>SIGINT\<close>; \<open>before_shutdown\<close> tells whether \<open>master_before_shutdown_action\<close>
  returns, without which no process is signalled; \<open>alive\<close> tells whether \<open>os.kill\<close> finds the process, and the
  first pid it does not find raises out of the loop. The result lists the signalled pids.
\<close>

fun kill_children :: "(int \<Rightarrow> bool) \<Rightarrow> int list \<Rightarrow> bool \<times> int list" where
  "kill_children alive [] = (True, [])"
| "kill_children alive (pid # pids) =
     (if alive pid then (case kill_children alive pids of (ok, ks) \<Rightarrow> (ok, pid # ks)) else (False, []))"

definition master_sigterm_handler :: "bool \<Rightarrow> (int \<Rightarrow> bool) \<Rightarrow> 'v worker_state \<Rightarrow> bool \<times> int list \<times> 'v worker_state" where
  "master_sigterm_handler before_shutdown alive ws =
     (if \<not> is_master ws then (True, [], ws)
      else if \<not> before_shutdown then (False, [], ws\<lparr>terminating := True\<rparr>)
      else (case kill_children alive (dict_keys (children ws)) of
              (ok, killed) \<Rightarrow> (ok, killed, ws\<lparr>terminating := True\<rparr>)))"

section \<open>Supervision\<close>

datatype exit_status = Signaled nat | Exited nat

datatype os_error = OSError "int option option" "int list"

definition EINTR :: int where
  "EINTR = 4"

definition errno_from_exception :: "os_error \<Rightarrow> int option" where
  "errno_from_exception e =
     (case e of
        OSError (Some err) _ \<Rightarrow> err
      | OSError None (a # _) \<Rightarrow> Some a
      | OSError None [] \<Rightarrow> None)"

datatype wait_result = Waited int exit_status | WaitError os_error

datatype 'v outcome = Continue "'v worker_state" | Exit int "'v worker_state" | Raise os_error "'v worker_state"

text \<open>One round of \<open>_supervise_workers\<close>; \<open>new_pid\<close> is the pid a process started in it would get.\<close>

definition supervise_round ::
    "(string, 'v) dict \<Rightarrow> bool \<Rightarrow> wait_result \<Rightarrow> int \<Rightarrow> 'v worker_state \<Rightarrow> 'v outcome" where
  "supervise_round shared_data locked w new_pid ws =
     (case w of
        WaitError e \<Rightarrow> if errno_from_exception e = Some EINTR then Continue ws else Raise e ws
      | Waited pid status \<Rightarrow>
         (case dict_get (children ws) pid of
            None \<Rightarrow> Continue ws
          | Some worker_id \<Rightarrow>
             (let ws = ws\<lparr>children := dict_del (children ws) pid, write_pipes := dict_del (write_pipes ws) pid\<rparr>
              in if status = Exited 0 then Continue ws
                 else if terminating ws then Continue ws
                 else Continue (on_worker_restart new_pid (start_child worker_id shared_data locked new_pid ws)))))"

fun supervise_workers ::
    "(string, 'v) dict \<Rightarrow> bool \<Rightarrow> (wait_result \<times> int) list \<Rightarrow> 'v worker_state \<Rightarrow> 'v outcome" where
  "supervise_workers shared_data locked events ws =
     (if children ws = [] then Exit 0 ws
      else case events of
        [] \<Rightarrow> Continue ws
      | (w, new_pid) # events \<Rightarrow>
         (case supervise_round shared_data locked w new_pid ws of
            Continue ws \<Rightarrow> supervise_workers shared_data locked events ws
          | out \<Rightarrow> out))"

declare supervise_workers.simps [simp del]

section \<open>Forking\<close>

datatype startup = Started | TimedOut | StillWaiting

text \<open>
  The wait of \<open>fork_workers\<close> for the workers to count down, on successive readings of the counter
  and of the clock.
\<close>

fun await_workers :: "rat \<Rightarrow> (int \<times> rat) list \<Rightarrow> startup" where
  "await_workers timeout [] = StillWaiting"
| "await_workers timeout ((left, now) # readings) =
     (if left \<le> 0 then Started else if timeout < now then TimedOut else await_workers timeout readings)"

fun start_children :: "(string, 'v) dict \<Rightarrow> bool \<Rightarrow> nat \<Rightarrow> int list \<Rightarrow> 'v worker_state \<Rightarrow> 'v worker_state" where
  "start_children shared_data locked worker_id [] ws = ws"
| "start_children shared_data locked worker_id (pid # pids) ws =
     start_children shared_data locked (Suc worker_id) pids (start_child worker_id shared_data locked pid ws)"

text \<open>
  \<open>fork_workers\<close>, with the pids of the \<open>num_workers\<close> processes it forks: on a timeout the children are
  killed and an exception raised, otherwise the supervision loop runs.
\<close>

datatype 'v fork_outcome = StartupWaiting | StartupFailed "int list" | Supervised "'v outcome"

definition fork_workers ::
    "(string, 'v) dict \<Rightarrow> bool \<Rightarrow> int list \<Rightarrow> rat \<Rightarrow> (int \<times> rat) list \<Rightarrow> (wait_result \<times> int) list \<Rightarrow>
     'v worker_state \<Rightarrow> 'v fork_outcome" where
  "fork_workers shared_data locked pids timeout readings events ws =
     (let ws = start_children shared_data locked 0 pids ws
      in case await_workers timeout readings of
           StillWaiting \<Rightarrow> StartupWaiting
         | TimedOut \<Rightarrow> StartupFailed (dict_keys (children ws))
         | Started \<Rightarrow> Supervised (supervise_workers shared_data locked events (ws\<lparr>master_done := True\<rparr>)))"

section \<open>Sending to workers\<close>

text \<open>\<open>replies pid j\<close>: the answers of the pipe of \<open>pid\<close> to the \<open>j\<close>-th update of a round.\<close>

definition send_to_pid ::
    "nat \<Rightarrow> (int \<Rightarrow> nat \<Rightarrow> raw_reply list) \<Rightarrow> byte list \<Rightarrow> nat \<Rightarrow> int \<Rightarrow> 'v worker_state \<Rightarrow> 'v worker_state" where
  "send_to_pid bufsize replies data j pid ws =
     (case dict_get (write_pipes ws) pid of
        None \<Rightarrow> ws
      | Some p \<Rightarrow>
         (case send_update bufsize (replies pid j) (mbox ws) pid p data of
            (_, mb, p) \<Rightarrow> ws\<lparr>mbox := mb, write_pipes := dict_set (write_pipes ws) pid p\<rparr>))"

definition send_to_all ::
    "nat \<Rightarrow> (int \<Rightarrow> nat \<Rightarrow> raw_reply list) \<Rightarrow> byte list \<Rightarrow> 'v worker_state \<Rightarrow> 'v worker_state" where
  "send_to_all bufsize replies data ws = fold (send_to_pid bufsize replies data 0) (dict_keys (write_pipes ws)) ws"

text \<open>The body of the loop of \<open>__resend\<close> after the notification was taken, under the lock.\<close>

definition resend_client ::
    "nat \<Rightarrow> (int \<Rightarrow> nat \<Rightarrow> raw_reply list) \<Rightarrow> byte list \<Rightarrow> int \<Rightarrow> 'v worker_state \<Rightarrow> 'v worker_state" where
  "resend_client bufsize replies data pid ws =
     send_to_pid bufsize replies data 1 pid (send_to_pid bufsize replies data 0 pid ws)"

definition clear_requests :: "'v worker_state \<Rightarrow> 'v worker_state" where
  "clear_requests ws = ws\<lparr>mbox := (mbox ws)\<lparr>resend_dict := []\<rparr>\<rparr>"

definition resend ::
    "nat \<Rightarrow> (int \<Rightarrow> nat \<Rightarrow> raw_reply list) \<Rightarrow> ('v list \<Rightarrow> byte list) \<Rightarrow> (string, 'v) dict \<Rightarrow> 'v worker_state \<Rightarrow> 'v worker_state" where
  "resend bufsize replies dumps shared_data ws =
     (let data = dumps (dict_values shared_data);
          clients = dict_keys (resend_dict (mbox ws))
      in fold (resend_client bufsize replies data) clients (clear_requests ws))"

section \<open>The pool of workers\<close>

definition worker_ids :: "'v worker_state \<Rightarrow> nat set" where
  "worker_ids ws = ran (dict_get (children ws))"

lemma dict_get_upd: "dict_get (dict_set d k v) = (dict_get d)(k \<mapsto> v)" "dict_get (dict_del d k) = (dict_get d)(k := None)"
  by (simp_all add: fun_eq_iff)

definition pool_ok :: "'v worker_state \<Rightarrow> bool" where
  "pool_ok ws \<longleftrightarrow> dict_ok (children ws) \<and> dict_ok (write_pipes ws) \<and>
     (\<forall>pid. dict_get (children ws) pid = None \<longleftrightarrow> dict_get (write_pipes ws) pid = None) \<and>
     (\<forall>p q w. dict_get (children ws) p = Some w \<longrightarrow> dict_get (children ws) q = Some w \<longrightarrow> p = q)"

lemma pool_ok_start_child:
  assumes "pool_ok ws" and "dict_get (children ws) pid = None" and "w \<notin> worker_ids ws"
  shows "pool_ok (start_child w sd locked pid ws)"
  using assms by (auto simp: pool_ok_def start_child_def worker_ids_def Let_def pydict.ok_put ran_def)

lemma worker_ids_start_child:
  assumes "dict_get (children ws) pid = None"
  shows "worker_ids (start_child w sd locked pid ws) = insert w (worker_ids ws)"
  using assms by (simp add: worker_ids_def start_child_def Let_def dict_get_upd del: dict_get_set)

lemma supervise_round_cases:
  assumes "supervise_round sd locked w new_pid ws = Continue ws'"
  shows "ws' = ws \<or>
    (\<exists>pid wid status. w = Waited pid status \<and> dict_get (children ws) pid = Some wid \<and>
       (let ws1 = ws\<lparr>children := dict_del (children ws) pid, write_pipes := dict_del (write_pipes ws) pid\<rparr>
        in (status = Exited 0 \<or> terminating ws) \<and> ws' = ws1 \<or>
           status \<noteq> Exited 0 \<and> \<not> terminating ws \<and>
             ws' = on_worker_restart new_pid (start_child wid sd locked new_pid ws1)))"
  using assms by (auto simp: supervise_round_def Let_def split: wait_result.splits option.splits if_splits)

lemma pool_ok_reap:
  "pool_ok ws \<Longrightarrow> pool_ok (ws\<lparr>children := dict_del (children ws) pid, write_pipes := dict_del (write_pipes ws) pid\<rparr>)"
  unfolding pool_ok_def
  by (elim conjE, intro conjI) (simp_all add: pydict.ok_remove)

lemma ran_delete:
  assumes "f k = Some w" and "\<And>p. f p = Some w \<Longrightarrow> p = k"
  shows "ran (f(k := None)) = ran f - {w}"
proof (intro equalityI subsetI)
  fix x assume "x \<in> ran (f(k := None))"
  then obtain p where "p \<noteq> k" "f p = Some x" by (auto simp: ran_def split: if_splits)
  with assms(2) [of p] show "x \<in> ran f - {w}" by (auto simp: ran_def)
next
  fix x assume "x \<in> ran f - {w}"
  then obtain p where "f p = Some x" "x \<noteq> w" by (auto simp: ran_def)
  with assms(1) show "x \<in> ran (f(k := None))" by (auto simp: ran_def intro!: exI [of _ p])
qed

lemma worker_ids_reap:
  assumes "pool_ok ws" and "dict_get (children ws) pid = Some wid"
  shows "worker_ids (ws\<lparr>children := dict_del (children ws) pid, write_pipes := pipes\<rparr>) = worker_ids ws - {wid}"
proof -
  have inj: "p = pid" if "dict_get (children ws) p = Some wid" for p
    using assms that unfolding pool_ok_def by blast
  have "ran ((dict_get (children ws))(pid := None)) = ran (dict_get (children ws)) - {wid}"
    by (rule ran_delete) (fact assms(2), fact inj)
  then show ?thesis by (simp add: worker_ids_def dict_get_upd del: dict_get_del)
qed

lemma on_worker_restart_fields [simp]:
  "children (on_worker_restart pid ws) = children ws"
  "write_pipes (on_worker_restart pid ws) = write_pipes ws"
  "terminating (on_worker_restart pid ws) = terminating ws"
  "initial_shared_data (on_worker_restart pid ws) = initial_shared_data ws"
  "mbox (on_worker_restart pid ws) = request_resend pid (mbox ws)"
  by (simp_all add: on_worker_restart_def)

lemma start_child_fields [simp]:
  "children (start_child w sd locked pid ws) = dict_set (children ws) pid w"
  "write_pipes (start_child w sd locked pid ws) = dict_set (write_pipes ws) pid new_pipe"
  "terminating (start_child w sd locked pid ws) = terminating ws"
  "mbox (start_child w sd locked pid ws) = mbox ws"
  "initial_shared_data (start_child w sd locked pid ws) = (if locked then sd else initial_shared_data ws)"
  by (simp_all add: start_child_def Let_def)

lemma pool_ok_cong:
  "children ws' = children ws \<Longrightarrow> write_pipes ws' = write_pipes ws \<Longrightarrow> pool_ok ws' = pool_ok ws"
  by (simp add: pool_ok_def)

lemma worker_ids_cong: "children ws' = children ws \<Longrightarrow> worker_ids ws' = worker_ids ws"
  by (simp add: worker_ids_def)

text \<open>A crashed worker is replaced: same worker id, new pid, new pipe, a resend requested.\<close>

lemma supervise_round_pool:
  assumes "pool_ok ws" and "dict_get (children ws) new_pid = None" and "supervise_round sd locked w new_pid ws = Continue ws'"
  shows "pool_ok ws' \<and> worker_ids ws' \<subseteq> worker_ids ws \<and> terminating ws' = terminating ws \<and>
    (terminating ws \<longrightarrow> (\<forall>pid. dict_get (children ws) pid = None \<longrightarrow> dict_get (children ws') pid = None))"
  using supervise_round_cases [OF assms(3)]
proof (elim disjE exE conjE)
  assume "ws' = ws"
  with assms(1) show ?thesis by simp
next
  fix pid wid status
  let ?ws1 = "ws\<lparr>children := dict_del (children ws) pid, write_pipes := dict_del (write_pipes ws) pid\<rparr>"
  let ?ws2 = "start_child wid sd locked new_pid ?ws1"
  assume wid: "dict_get (children ws) pid = Some wid"
    and "let ws1 = ?ws1 in (status = Exited 0 \<or> terminating ws) \<and> ws' = ws1 \<or>
      status \<noteq> Exited 0 \<and> \<not> terminating ws \<and> ws' = on_worker_restart new_pid (start_child wid sd locked new_pid ws1)"
  then have "ws' = ?ws1 \<or> \<not> terminating ws \<and> ws' = on_worker_restart new_pid ?ws2" by (auto simp: Let_def)
  moreover have ids: "worker_ids ?ws1 = worker_ids ws - {wid}" by (rule worker_ids_reap [OF assms(1) wid])
  moreover have ok: "pool_ok ?ws1" by (rule pool_ok_reap [OF assms(1)])
  moreover have fresh: "dict_get (children ?ws1) new_pid = None" using assms(2) by simp
  moreover have "pool_ok ?ws2" by (rule pool_ok_start_child [OF ok fresh]) (simp add: ids)
  moreover have "worker_ids ?ws2 = insert wid (worker_ids ws)"
    using worker_ids_start_child [OF fresh, of wid sd locked] ids by auto
  moreover have "wid \<in> worker_ids ws" using wid by (auto simp: worker_ids_def ran_def)
  ultimately show ?thesis
    using pool_ok_cong [of "on_worker_restart new_pid ?ws2" ?ws2] worker_ids_cong [of "on_worker_restart new_pid ?ws2" ?ws2]
    by auto
qed

lemma send_to_pid_frame [simp]:
  "children (send_to_pid bufsize replies data j pid ws) = children ws"
  "terminating (send_to_pid bufsize replies data j pid ws) = terminating ws"
  "dict_get (write_pipes (send_to_pid bufsize replies data j pid ws)) q = None \<longleftrightarrow> dict_get (write_pipes ws) q = None"
  "dict_ok (write_pipes ws) \<Longrightarrow> dict_ok (write_pipes (send_to_pid bufsize replies data j pid ws))"
  by (auto simp: send_to_pid_def pydict.ok_put split: option.splits prod.splits)

lemma pool_ok_send_to_pid: "pool_ok ws \<Longrightarrow> pool_ok (send_to_pid bufsize replies data j pid ws)"
  by (simp add: pool_ok_def)

lemma pool_ok_fold:
  "(\<And>x ws. pool_ok ws \<Longrightarrow> pool_ok (f x ws) \<and> children (f x ws) = children ws \<and> terminating (f x ws) = terminating ws) \<Longrightarrow>
   pool_ok ws \<Longrightarrow> pool_ok (fold f xs ws) \<and> children (fold f xs ws) = children ws \<and> terminating (fold f xs ws) = terminating ws"
  by (induction xs arbitrary: ws) simp_all

lemma send_to_all_pool:
  "pool_ok ws \<Longrightarrow> pool_ok (send_to_all bufsize replies data ws) \<and>
     children (send_to_all bufsize replies data ws) = children ws \<and>
     terminating (send_to_all bufsize replies data ws) = terminating ws"
  unfolding send_to_all_def by (rule pool_ok_fold) (simp_all add: pool_ok_send_to_pid)

lemma resend_pool:
  assumes "pool_ok ws"
  shows "pool_ok (resend bufsize replies dumps sd ws) \<and> children (resend bufsize replies dumps sd ws) = children ws \<and>
     terminating (resend bufsize replies dumps sd ws) = terminating ws"
proof -
  have "pool_ok (clear_requests ws)" using assms by (simp add: pool_ok_def clear_requests_def)
  then have "pool_ok (resend bufsize replies dumps sd ws) \<and>
      children (resend bufsize replies dumps sd ws) = children (clear_requests ws) \<and>
      terminating (resend bufsize replies dumps sd ws) = terminating (clear_requests ws)"
    unfolding resend_def Let_def
    by (intro pool_ok_fold) (simp_all add: pool_ok_send_to_pid resend_client_def)
  then show ?thesis by (simp add: clear_requests_def)
qed

lemma sigterm_pool:
  "children (snd (snd (master_sigterm_handler bs alive ws))) = children ws"
  "write_pipes (snd (snd (master_sigterm_handler bs alive ws))) = write_pipes ws"
  "terminating ws \<Longrightarrow> terminating (snd (snd (master_sigterm_handler bs alive ws)))"
  by (auto simp: master_sigterm_handler_def split: prod.splits)

text \<open>
  The master's transitions in any order: a round of the supervision loop (a new process has a pid no
  child has), a signal, an update to all workers, a round of the resend thread.
\<close>

inductive master_step :: "'v worker_state \<Rightarrow> 'v worker_state \<Rightarrow> bool" where
  reap: "supervise_round sd locked w new_pid ws = Continue ws' \<Longrightarrow> dict_get (children ws) new_pid = None \<Longrightarrow>
    master_step ws ws'"
| sigterm: "master_sigterm_handler bs alive ws = (ok, killed, ws') \<Longrightarrow> master_step ws ws'"
| update: "master_step ws (send_to_all bufsize replies data ws)"
| resend: "master_step ws (resend bufsize replies dumps sd ws)"

lemma master_step_pool:
  assumes "master_step ws ws'" and "pool_ok ws"
  shows "pool_ok ws' \<and> worker_ids ws' \<subseteq> worker_ids ws \<and> (terminating ws \<longrightarrow> terminating ws') \<and>
    (terminating ws \<longrightarrow> (\<forall>pid. dict_get (children ws) pid = None \<longrightarrow> dict_get (children ws') pid = None))"
  using assms
proof (induction rule: master_step.induct)
  case (reap sd locked w new_pid ws ws')
  from supervise_round_pool [OF reap(3,2,1)] show ?case by simp
next
  case (sigterm bs alive ws ok killed ws')
  then have "ws' = snd (snd (master_sigterm_handler bs alive ws))" by simp
  with sigterm(2) sigterm_pool [where bs = bs and alive = alive and ws = ws] show ?case
    using pool_ok_cong [of ws' ws] worker_ids_cong [of ws' ws] by auto
next
  case (update ws bufsize replies data)
  with send_to_all_pool [of ws bufsize replies data] worker_ids_cong [of "send_to_all bufsize replies data ws" ws]
  show ?case by simp
next
  case (resend ws bufsize replies dumps sd)
  with resend_pool [of ws bufsize replies dumps sd] worker_ids_cong [of "resend bufsize replies dumps sd ws" ws]
  show ?case by simp
qed

section \<open>Properties of supervision\<close>


text \<open>C20. A worker that crashes while the server runs is replaced: the set of worker ids stays the
  same, the new pid serves the worker id of the old one with a fresh pipe, starts from the current
  shared data, and is on the resend list with a notification pending.\<close>

theorem crashed_worker_is_replaced:
  assumes "pool_ok ws" and "dict_get (children ws) pid = Some wid" and "dict_get (children ws) new_pid = None"
    and "status \<noteq> Exited 0" and "\<not> terminating ws"
  shows "\<exists>ws'. supervise_round sd True (Waited pid status) new_pid ws = Continue ws' \<and> pool_ok ws' \<and>
    worker_ids ws' = worker_ids ws \<and> dict_get (children ws') pid = None \<and> dict_get (children ws') new_pid = Some wid \<and>
    dict_get (write_pipes ws') new_pid = Some new_pipe \<and> initial_shared_data ws' = sd \<and>
    dict_get (resend_dict (mbox ws')) new_pid = Some True \<and> resend_notification (mbox ws') \<noteq> []"
proof -
  let ?ws1 = "ws\<lparr>children := dict_del (children ws) pid, write_pipes := dict_del (write_pipes ws) pid\<rparr>"
  let ?ws' = "on_worker_restart new_pid (start_child wid sd True new_pid ?ws1)"
  have run: "supervise_round sd True (Waited pid status) new_pid ws = Continue ?ws'"
    using assms by (simp add: supervise_round_def Let_def)
  have fresh: "dict_get (children ?ws1) new_pid = None" using assms(3) by simp
  have "worker_ids ?ws' = insert wid (worker_ids ws - {wid})"
    using worker_ids_start_child [OF fresh, of wid sd True] worker_ids_reap [OF assms(1,2)]
      worker_ids_cong [of ?ws' "start_child wid sd True new_pid ?ws1"] by simp
  moreover have "wid \<in> worker_ids ws" using assms(2) by (auto simp: worker_ids_def ran_def)
  moreover have "pool_ok ?ws'" using supervise_round_pool [OF assms(1,3) run] by simp
  ultimately show ?thesis using run assms(2,3) by (intro exI [of _ ?ws']) auto
qed

lemma children_empty_iff: "children ws = [] \<longleftrightarrow> (\<forall>pid. dict_get (children ws) pid = None)"
  by (cases "children ws") (auto simp: dict_defs)

definition orderly :: "wait_result \<Rightarrow> bool" where
  "orderly w = (case w of Waited _ _ \<Rightarrow> True | WaitError e \<Rightarrow> errno_from_exception e = Some EINTR)"

lemma supervise_drains:
  assumes "terminating ws"
    and "\<And>w np. (w, np) \<in> set events \<Longrightarrow> orderly w"
    and "\<And>pid. dict_get (children ws) pid \<noteq> None \<Longrightarrow> \<exists>st np. (Waited pid st, np) \<in> set events"
  shows "\<exists>ws'. supervise_workers sd locked events ws = Exit 0 ws' \<and> children ws' = []"
  using assms
proof (induction events arbitrary: ws)
  case Nil
  then have "children ws = []" unfolding children_empty_iff by force
  then show ?case by (simp add: supervise_workers.simps)
next
  case (Cons e events)
  obtain w np where e: "e = (w, np)" by force
  show ?case
  proof (cases "children ws = []")
    case True
    then show ?thesis by (simp add: supervise_workers.simps)
  next
    case False
    have "\<exists>ws1. supervise_round sd locked w np ws = Continue ws1 \<and> terminating ws1 \<and>
        (\<forall>pid. dict_get (children ws1) pid \<noteq> None \<longrightarrow> dict_get (children ws) pid \<noteq> None \<and> (\<forall>st. w \<noteq> Waited pid st))"
      using Cons.prems(1) Cons.prems(2) [of w np] e
      by (auto simp: orderly_def supervise_round_def Let_def split: wait_result.splits option.splits)
    then obtain ws1 where ws1: "supervise_round sd locked w np ws = Continue ws1" "terminating ws1"
      "\<And>pid. dict_get (children ws1) pid \<noteq> None \<Longrightarrow> dict_get (children ws) pid \<noteq> None \<and> (\<forall>st. w \<noteq> Waited pid st)"
      by blast
    have cover: "\<exists>st np. (Waited pid st, np) \<in> set events" if "dict_get (children ws1) pid \<noteq> None" for pid
      using Cons.prems(3) [of pid] ws1(3) [OF that] e by auto
    have rest: "orderly v" if "(v, n) \<in> set events" for v n
      using Cons.prems(2) [of v n] that by simp
    from Cons.IH [OF ws1(2) rest cover]
    have "\<exists>ws'. supervise_workers sd locked events ws1 = Exit 0 ws' \<and> children ws' = []" .
    with False ws1(1) e show ?thesis by (subst supervise_workers.simps) simp
  qed
qed

lemma kill_children_all: "kill_children alive pids = (True, killed) \<Longrightarrow> killed = pids"
  by (induction pids arbitrary: killed) (auto split: if_splits prod.splits)

text \<open>C19. Shutdown terminates: a signal handler that returns has signalled every child, and then the
  supervision loop leaves with \<open>sys.exit(0)\<close> as soon as every child has been waited for, in whatever order and with whatever
  statuses they end, interrupted waits included.\<close>

theorem shutdown_exits:
  assumes "master_sigterm_handler before_shutdown alive ws = (True, killed, ws')" and "is_master ws"
    and "\<And>w np. (w, np) \<in> set events \<Longrightarrow> orderly w"
    and "\<And>pid. dict_get (children ws) pid \<noteq> None \<Longrightarrow> \<exists>st np. (Waited pid st, np) \<in> set events"
  shows "killed = dict_keys (children ws) \<and> (\<exists>ws''. supervise_workers sd locked events ws' = Exit 0 ws'' \<and> children ws'' = [])"
proof (intro conjI supervise_drains)
  show "killed = dict_keys (children ws)" using assms(1,2) kill_children_all
    by (fastforce simp: master_sigterm_handler_def split: if_splits prod.splits)
  show "terminating ws'" using assms(1,2) by (auto simp: master_sigterm_handler_def split: prod.splits if_splits)
  have "children ws' = children ws" using sigterm_pool(1) [of before_shutdown alive ws] assms(1) by simp
  then show "\<exists>st np. (Waited pid st, np) \<in> set events" if "dict_get (children ws') pid \<noteq> None" for pid
    using assms(4) that by simp
qed (fact assms(3))

section \<open>Delivery of updates\<close>

definition requested :: "int \<Rightarrow> 'v worker_state \<Rightarrow> bool" where
  "requested pid ws \<longleftrightarrow> dict_get (resend_dict (mbox ws)) pid = Some True \<and> resend_notification (mbox ws) \<noteq> []"

lemma send_update_mailbox:
  "send_update bufsize rs mb pid p data = (rs', mb', p') \<Longrightarrow> mb' = mb \<or> mb' = request_resend pid mb"
  by (auto simp: send_update_def split: option.splits prod.splits io_result.splits)

lemma requested_persists: "requested q ws \<Longrightarrow> requested q (send_to_pid bufsize replies data j pid ws)"
  by (auto simp: send_to_pid_def requested_def dest!: send_update_mailbox split: option.splits prod.splits)

lemma send_to_pid_other:
  "pid \<noteq> q \<Longrightarrow> dict_get (write_pipes (send_to_pid bufsize replies data j pid ws)) q = dict_get (write_pipes ws) q"
  by (auto simp: send_to_pid_def split: option.splits prod.splits)

lemma fold_send_other:
  "q \<notin> set pids \<Longrightarrow> dict_get (write_pipes (fold (send_to_pid bufsize replies data j) pids ws)) q = dict_get (write_pipes ws) q"
  by (induction pids arbitrary: ws) (simp_all add: send_to_pid_other)

lemma fold_send_requested:
  "requested q ws \<Longrightarrow> requested q (fold (send_to_pid bufsize replies data j) pids ws)"
  by (induction pids arbitrary: ws) (simp_all add: requested_persists)

lemma send_to_pid_outcome:
  assumes "dict_get (write_pipes ws) pid = Some p" and "Broken \<notin> set (replies pid j)" and "0 < bufsize"
    and "length data < 2 ^ 64"
  shows "\<exists>p'. dict_get (write_pipes (send_to_pid bufsize replies data j pid ws)) pid = Some p' \<and>
    (wire p' = stream p @ message data \<or> requested pid (send_to_pid bufsize replies data j pid ws) \<or>
     (\<exists>k < 15. stream p' = stream p @ take k (message_header (length data))))"
proof -
  obtain rs' mb' p' where r: "send_update bufsize (replies pid j) (mbox ws) pid p data = (rs', mb', p')"
    by (metis prod_cases3)
  from send_update_cases [OF r assms(3,2,4)] stream_drained [of p'] show ?thesis
    by (auto simp: send_to_pid_def assms(1) r requested_def)
qed


section \<open>A concrete pool\<close>

definition demo_pool :: "string worker_state" where
  "demo_pool = start_children [] True 0 [10, 20] (new_worker_state 2)"

lemma demo_pool_fields:
  "children demo_pool = [(10, 0), (20, 1)]" "write_pipes demo_pool = [(10, new_pipe), (20, new_pipe)]"
  "terminating demo_pool = False" "is_master demo_pool = True"
  "mbox demo_pool = \<lparr>resend_notification = [], resend_dict = []\<rparr>"
  by (simp_all add: demo_pool_def new_worker_state_def start_child_def dict_set_def Let_def)

lemma demo_pool_ok: "pool_ok demo_pool"
  by (auto simp: pool_ok_def demo_pool_fields dict_defs split: if_splits)


theorem crashed_worker_is_replaced_witness:
  "\<exists>ws'. supervise_round [] True (Waited 10 (Signaled 9)) 30 demo_pool = Continue ws' \<and> pool_ok ws' \<and>
    worker_ids ws' = worker_ids demo_pool \<and> dict_get (children ws') 10 = None \<and> dict_get (children ws') 30 = Some 0 \<and>
    dict_get (write_pipes ws') 30 = Some new_pipe \<and> initial_shared_data ws' = [] \<and>
    dict_get (resend_dict (mbox ws')) 30 = Some True \<and> resend_notification (mbox ws') \<noteq> []"
  by (rule crashed_worker_is_replaced [OF demo_pool_ok]) (simp_all add: demo_pool_fields dict_defs)

theorem shutdown_exits_witness:
  "[10, 20] = dict_keys (children demo_pool) \<and> (\<exists>ws''. supervise_workers [] True
     [(Waited 20 (Exited 0), 0), (WaitError (OSError (Some (Some 4)) []), 0), (Waited 10 (Signaled 15), 0)]
     (snd (snd (master_sigterm_handler True (\<lambda>_. True) demo_pool))) = Exit 0 ws'' \<and> children ws'' = [])"
proof -
  have r: "master_sigterm_handler True (\<lambda>_. True) demo_pool =
      (True, [10, 20], snd (snd (master_sigterm_handler True (\<lambda>_. True) demo_pool)))"
    by (simp add: master_sigterm_handler_def demo_pool_fields dict_defs)
  show ?thesis
    by (rule shutdown_exits [OF r])
      (auto simp: demo_pool_fields orderly_def errno_from_exception_def EINTR_def dict_defs split: if_splits)
qed


end
