(* ===== verification/Resend_Thread.thy ===== *)
theory Resend_Thread
  imports Workers
begin

text \<open>
  The interleaving of the two threads of the master that touch the resend list
  (\<open>frontik/process.py\<close>): the main thread, which restarts workers and asks for a resend without taking
  the lock, and the thread of \<open>__resend\<close>, which lists the requests and clears them in two steps under
  it. Updates to all workers are sent under the lock as well. \<open>owed\<close> is a ghost variable: the pids a
  resend was requested for and that were not served since.
\<close>

datatype resender_pc = Asleep | Woken | Listed "int list" | Sending "int list"

datatype main_pc = Supervising | Marked int

record 'v threads =
  st :: "'v worker_state"
  resender :: resender_pc
  main_thread :: main_pc
  owed :: "int set"

abbreviation requests :: "'v threads \<Rightarrow> int list" where
  "requests t \<equiv> dict_keys (resend_dict (mbox (st t)))"

abbreviation notifications :: "'v threads \<Rightarrow> bool list" where
  "notifications t \<equiv> resend_notification (mbox (st t))"

definition set_mbox :: "(mailbox \<Rightarrow> mailbox) \<Rightarrow> 'v worker_state \<Rightarrow> 'v worker_state" where
  "set_mbox f ws = ws\<lparr>mbox := f (mbox ws)\<rparr>"

text \<open>
  \<open>on_worker_restart\<close> in its two steps: the entry in \<open>resend_dict\<close>, then the notification.
\<close>

definition mark_request :: "int \<Rightarrow> mailbox \<Rightarrow> mailbox" where
  "mark_request pid mb = mb\<lparr>resend_dict := dict_set (resend_dict mb) pid True\<rparr>"

definition notify_resender :: "mailbox \<Rightarrow> mailbox" where
  "notify_resender mb = mb\<lparr>resend_notification := put_nowait 1 (resend_notification mb) True\<rparr>"

lemma request_resend_steps: "request_resend pid mb = notify_resender (mark_request pid mb)"
  by (simp add: request_resend_def notify_resender_def mark_request_def)

text \<open>
  With \<open>guarded\<close> the main thread does not restart a worker between the two steps of the resend thread;
  the code corresponds to \<open>guarded = False\<close>.
\<close>

inductive thread_step :: "bool \<Rightarrow> nat \<Rightarrow> ('v list \<Rightarrow> byte list) \<Rightarrow> 'v threads \<Rightarrow> 'v threads \<Rightarrow> bool"
  for guarded :: bool and bufsize :: nat and dumps :: "'v list \<Rightarrow> byte list" where
  restart: "main_thread t = Supervising \<Longrightarrow> (\<And>cs. resender t = Listed cs \<Longrightarrow> \<not> guarded) \<Longrightarrow>
    dict_get (children (st t)) pid = Some wid \<Longrightarrow>
    ws = start_child wid sd locked new_pid
      (st t\<lparr>children := dict_del (children (st t)) pid, write_pipes := dict_del (write_pipes (st t)) pid\<rparr>) \<Longrightarrow>
    thread_step guarded bufsize dumps t
      (t\<lparr>st := set_mbox (mark_request new_pid) ws, main_thread := Marked new_pid, owed := insert new_pid (owed t)\<rparr>)"
| notify: "main_thread t = Marked pid \<Longrightarrow>
    thread_step guarded bufsize dumps t (t\<lparr>st := set_mbox notify_resender (st t), main_thread := Supervising\<rparr>)"
| update: "resender t \<in> {Asleep, Woken} \<Longrightarrow> ws = send_to_all bufsize replies data (st t) \<Longrightarrow>
    thread_step guarded bufsize dumps t
      (t\<lparr>st := ws, owed := owed t \<union> set (dict_keys (resend_dict (mbox ws)))\<rparr>)"
| wake: "resender t = Asleep \<Longrightarrow> notifications t = x # q \<Longrightarrow>
    thread_step guarded bufsize dumps t
      (t\<lparr>st := set_mbox (\<lambda>mb. mb\<lparr>resend_notification := q\<rparr>) (st t), resender := Woken\<rparr>)"
| list_requests: "resender t = Woken \<Longrightarrow> thread_step guarded bufsize dumps t (t\<lparr>resender := Listed (requests t)\<rparr>)"
| clear: "resender t = Listed cs \<Longrightarrow>
    thread_step guarded bufsize dumps t (t\<lparr>st := clear_requests (st t), resender := Sending cs\<rparr>)"
| send: "resender t = Sending (pid # cs) \<Longrightarrow>
    ws = resend_client bufsize replies (dumps (dict_values (sd :: (string, 'v) dict))) pid (st t) \<Longrightarrow>
    thread_step guarded bufsize dumps t
      (t\<lparr>st := ws, resender := Sending cs, owed := owed t - {pid} \<union> set (dict_keys (resend_dict (mbox ws)))\<rparr>)"
| finish: "resender t = Sending [] \<Longrightarrow> thread_step guarded bufsize dumps t (t\<lparr>resender := Asleep\<rparr>)"



definition start_threads :: "'v worker_state \<Rightarrow> 'v threads" where
  "start_threads ws = \<lparr>st = ws, resender = Asleep, main_thread = Supervising,
     owed = set (dict_keys (resend_dict (mbox ws)))\<rparr>"

section \<open>Invariants\<close>

definition wakeup_pending :: "'v threads \<Rightarrow> bool" where
  "wakeup_pending t \<longleftrightarrow> notifications t \<noteq> [] \<or> resender t = Woken \<or> (\<exists>cs. resender t = Listed cs) \<or>
     (\<exists>pid. main_thread t = Marked pid)"

definition no_lost_wakeup :: "'v threads \<Rightarrow> bool" where
  "no_lost_wakeup t \<longleftrightarrow> (requests t \<noteq> [] \<longrightarrow> wakeup_pending t)"

fun claimed :: "resender_pc \<Rightarrow> int list" where
  "claimed (Listed cs) = cs"
| "claimed (Sending cs) = cs"
| "claimed _ = []"

definition owed_ok :: "'v threads \<Rightarrow> bool" where
  "owed_ok t \<longleftrightarrow> owed t \<subseteq> (case resender t of Listed cs \<Rightarrow> set cs | pc \<Rightarrow> set (claimed pc) \<union> set (requests t))"

lemma mailbox_evolves:
  "mbox (send_to_pid bufsize replies data j pid ws) \<in> {mbox ws, request_resend pid (mbox ws)}"
  by (auto simp: send_to_pid_def dest: send_update_mailbox split: option.splits prod.splits)

lemma dict_keys_set [simp]: "set (dict_keys (dict_set d k v)) = insert k (set (dict_keys d))"
  by (auto simp: dict_keys_iff split: if_splits)

lemma dict_keys_Nil [simp]: "dict_keys [] = []"
  by (simp add: dict_keys_def)

text \<open>Sending only adds requests, and it adds a request only together with a notification.\<close>

definition grows :: "mailbox \<Rightarrow> mailbox \<Rightarrow> bool" where
  "grows mb mb' \<longleftrightarrow> set (dict_keys (resend_dict mb)) \<subseteq> set (dict_keys (resend_dict mb')) \<and>
     (mb' = mb \<or> resend_notification mb' \<noteq> [])"

lemma grows_trans: "grows a b \<Longrightarrow> grows b c \<Longrightarrow> grows a c"
  by (auto simp: grows_def)

lemma grows_request: "grows mb (request_resend pid mb)"
  by (auto simp: grows_def request_resend_def put_nowait_def)

lemma grows_send: "grows (mbox ws) (mbox (send_to_pid bufsize replies data j pid ws))"
  using mailbox_evolves [of bufsize replies data j pid ws] grows_request [of "mbox ws" pid]
  by (auto simp: grows_def)

lemma grows_fold: "grows (mbox ws) (mbox (fold (send_to_pid bufsize replies data j) pids ws))"
proof (induction pids arbitrary: ws)
  case (Cons pid pids)
  from grows_trans [OF grows_send Cons.IH] show ?case by simp
qed (simp add: grows_def)

lemma grows_resend_client: "grows (mbox ws) (mbox (resend_client bufsize replies data pid ws))"
  unfolding resend_client_def by (rule grows_trans [OF grows_send grows_send])

lemma grows_send_to_all: "grows (mbox ws) (mbox (send_to_all bufsize replies data ws))"
  unfolding send_to_all_def by (rule grows_fold)

lemmas mbox_simps = set_mbox_def mark_request_def notify_resender_def put_nowait_def clear_requests_def

lemma wakeup_step:
  assumes "thread_step guarded bufsize dumps t t'" and "no_lost_wakeup t"
  shows "no_lost_wakeup t'"
  using assms
proof (cases rule: thread_step.cases)
  case (update ws replies data)
  with assms(2) grows_send_to_all [of "st t" bufsize replies data] show ?thesis
    by (auto simp: no_lost_wakeup_def wakeup_pending_def grows_def)
next
  case (send pid cs ws replies sd)
  with assms(2) grows_resend_client [of "st t" bufsize replies "dumps (dict_values sd)" pid] show ?thesis
    by (auto simp: no_lost_wakeup_def wakeup_pending_def grows_def)
qed (auto simp: no_lost_wakeup_def wakeup_pending_def mbox_simps)

lemma owed_step:
  assumes "thread_step True bufsize dumps t t'" and "owed_ok t"
  shows "owed_ok t'"
  using assms
proof (cases rule: thread_step.cases)
  case (restart pid wid ws sd locked new_pid)
  then have "resender t \<noteq> Listed cs" for cs by auto
  with assms(2) restart(1,5) show ?thesis
    by (auto simp: owed_ok_def mbox_simps split: resender_pc.splits)
next
  case (update ws replies data)
  from assms(2) update(2) have "owed t \<subseteq> set (requests t)" by (auto simp: owed_ok_def)
  also have "\<dots> \<subseteq> set (dict_keys (resend_dict (mbox ws)))"
    using grows_send_to_all [of "st t" bufsize replies data] by (simp add: grows_def update(3))
  finally show ?thesis using update(1,2) by (auto simp: owed_ok_def)
next
  case (send pid cs ws replies sd)
  with assms(2) grows_resend_client [of "st t" bufsize replies "dumps (dict_values sd)" pid] show ?thesis
    by (auto simp: owed_ok_def grows_def dest: subsetD)
qed (auto simp: owed_ok_def mbox_simps split: resender_pc.splits)

section \<open>Properties\<close>

text \<open>C10. No lost wake-up: however the threads interleave, as long as a resend is requested, a
  notification is pending, or the resend thread is awake and has yet to clear the requests, or the main
  thread is about to notify.\<close>

theorem resend_wakeup_never_lost:
  assumes "(thread_step guarded bufsize dumps)\<^sup>*\<^sup>* (start_threads ws) t"
    and "resend_dict (mbox ws) \<noteq> [] \<Longrightarrow> resend_notification (mbox ws) \<noteq> []"
    and "requests t \<noteq> []"
  shows "notifications t \<noteq> [] \<or> resender t = Woken \<or> (\<exists>cs. resender t = Listed cs) \<or> (\<exists>pid. main_thread t = Marked pid)"
proof -
  have "no_lost_wakeup (start_threads ws)"
    using assms(2) by (auto simp: no_lost_wakeup_def wakeup_pending_def start_threads_def dict_keys_def)
  with assms(1) have "no_lost_wakeup t"
    by (induction rule: rtranclp_induct) (auto intro: wakeup_step)
  with assms(3) show ?thesis by (simp add: no_lost_wakeup_def wakeup_pending_def)
qed

text \<open>If no worker is restarted between the two steps in which the resend thread lists and clears
  the requests, every requested resend has been carried out by the time the threads are at rest.\<close>

theorem guarded_resend_serves_all:
  assumes "(thread_step True bufsize dumps)\<^sup>*\<^sup>* (start_threads ws) t"
    and "resend_dict (mbox ws) \<noteq> [] \<Longrightarrow> resend_notification (mbox ws) \<noteq> []"
    and "resender t = Asleep" and "main_thread t = Supervising" and "notifications t = []"
  shows "owed t = {}"
proof -
  have "no_lost_wakeup (start_threads ws) \<and> owed_ok (start_threads ws)"
    using assms(2) by (auto simp: no_lost_wakeup_def wakeup_pending_def owed_ok_def start_threads_def dict_keys_def)
  with assms(1) have "no_lost_wakeup t \<and> owed_ok t"
    by (induction rule: rtranclp_induct) (auto intro: wakeup_step owed_step)
  then show ?thesis using assms(3-5) by (auto simp: no_lost_wakeup_def wakeup_pending_def owed_ok_def)
qed

section \<open>A lost request\<close>

text \<open>States of a run, by the fields the steps change.\<close>

definition run_state ::
    "(int, nat) dict \<Rightarrow> (int, pipe) dict \<Rightarrow> bool list \<Rightarrow> (int, bool) dict \<Rightarrow> resender_pc \<Rightarrow> main_pc \<Rightarrow> int set \<Rightarrow> string threads" where
  "run_state ch pipes q rd pc mpc ow =
     \<lparr>st = (new_worker_state 0)\<lparr>children := ch, write_pipes := pipes,
        mbox := \<lparr>resend_notification = q, resend_dict = rd\<rparr>\<rparr>,
      resender = pc, main_thread = mpc, owed = ow\<rparr>"

lemma run_restart:
  assumes "dict_get ch pid = Some wid"
  shows "thread_step False b dumps (run_state ch pipes q rd pc Supervising ow)
    (run_state (dict_set (dict_del ch pid) np wid) (dict_set (dict_del pipes pid) np new_pipe) q (dict_set rd np True)
       pc (Marked np) (insert np ow))"
  using thread_step.restart [of "run_state ch pipes q rd pc Supervising ow" False pid wid _ "[]" True np b dumps, OF _ _ _ refl] assms
  by (simp add: run_state_def new_worker_state_def start_child_def mbox_simps Let_def)

lemma run_notify:
  "thread_step False b dumps (run_state ch pipes [] rd pc (Marked np) ow) (run_state ch pipes [True] rd pc Supervising ow)"
  using thread_step.notify [of "run_state ch pipes [] rd pc (Marked np) ow" np False b dumps]
  by (simp add: run_state_def new_worker_state_def mbox_simps)

lemma run_wake:
  "thread_step False b dumps (run_state ch pipes [True] rd Asleep mpc ow) (run_state ch pipes [] rd Woken mpc ow)"
  using thread_step.wake [of "run_state ch pipes [True] rd Asleep mpc ow" True "[]" False b dumps]
  by (simp add: run_state_def new_worker_state_def mbox_simps)

lemma run_list:
  "thread_step False b dumps (run_state ch pipes q rd Woken mpc ow) (run_state ch pipes q rd (Listed (dict_keys rd)) mpc ow)"
  using thread_step.list_requests [of "run_state ch pipes q rd Woken mpc ow" False b dumps]
  by (simp add: run_state_def new_worker_state_def)

lemma run_clear:
  "thread_step False b dumps (run_state ch pipes q rd (Listed cs) mpc ow) (run_state ch pipes q [] (Sending cs) mpc ow)"
  using thread_step.clear [of "run_state ch pipes q rd (Listed cs) mpc ow" cs False b dumps]
  by (simp add: run_state_def new_worker_state_def mbox_simps)

lemma run_finish:
  "thread_step False b dumps (run_state ch pipes q rd (Sending []) mpc ow) (run_state ch pipes q rd Asleep mpc ow)"
  using thread_step.finish [of "run_state ch pipes q rd (Sending []) mpc ow" False b dumps]
  by (simp add: run_state_def new_worker_state_def)

lemma run_send:
  fixes replies :: "int \<Rightarrow> nat \<Rightarrow> raw_reply list" and sd :: "(string, string) dict"
  assumes "send_update b (replies pid 0) \<lparr>resend_notification = q, resend_dict = []\<rparr> pid p (dumps (dict_values sd)) =
      (rs, \<lparr>resend_notification = q, resend_dict = []\<rparr>, p1)"
    and "send_update b (replies pid 1) \<lparr>resend_notification = q, resend_dict = []\<rparr> pid p1 (dumps (dict_values sd)) =
      (rs', \<lparr>resend_notification = q, resend_dict = []\<rparr>, p2)"
    and "dict_get pipes pid = Some p"
  shows "thread_step False b dumps (run_state ch pipes q [] (Sending (pid # cs)) mpc ow)
    (run_state ch (dict_set (dict_set pipes pid p1) pid p2) q [] (Sending cs) mpc (ow - {pid}))"
  using thread_step.send [of "run_state ch pipes q [] (Sending (pid # cs)) mpc ow" pid cs _ b replies dumps sd False, OF _ refl] assms
  by (simp add: run_state_def new_worker_state_def resend_client_def send_to_pid_def)

text \<open>The request of a restarted worker can be lost: with two workers, the first restarts and its
  request is listed by the resend thread; the second restarts before the list is cleared, so its request
  is cleared with it. The run ends with both threads at rest, nothing requested and no notification
  pending, while the second worker is registered, is owed a resend and has an empty pipe.\<close>

theorem restart_request_can_be_lost:
  "\<exists>t. (thread_step False 8192 (\<lambda>_. []))\<^sup>*\<^sup>*
      (start_threads ((new_worker_state 0 :: string worker_state)\<lparr>children := [(10, 0), (20, 1)], write_pipes := [(10, new_pipe), (20, new_pipe)]\<rparr>)) t \<and>
    resender t = Asleep \<and> main_thread t = Supervising \<and> notifications t = [] \<and> requests t = [] \<and>
    21 \<in> owed t \<and> dict_get (children (st t)) 21 = Some 1 \<and> dict_get (write_pipes (st t)) 21 = Some new_pipe"
proof -
  let ?S = "thread_step False 8192 (\<lambda>_. [] :: byte list) :: string threads \<Rightarrow> string threads \<Rightarrow> bool"
  let ?ch = "[(20, 1), (11, 0)]" and ?pi = "[(20, new_pipe), (11, new_pipe)]"
  let ?ch2 = "[(11, 0), (21, 1)] :: (int, nat) dict" and ?pi2 = "[(11, new_pipe), (21, new_pipe)]"
  let ?p = "new_pipe\<lparr>wire := message []\<rparr>" and ?p2 = "new_pipe\<lparr>wire := message [] @ message []\<rparr>"
  let ?mb = "\<lparr>resend_notification = [True], resend_dict = []\<rparr>"
  have s1: "?S (run_state [(10, 0), (20, 1)] [(10, new_pipe), (20, new_pipe)] [] [] Asleep Supervising {})
      (run_state ?ch ?pi [] [(11, True)] Asleep (Marked 11) {11})"
    using run_restart [of "[(10, 0), (20, 1)]" 10 0 8192 "\<lambda>_. []" "[(10, new_pipe), (20, new_pipe)]" "[]" "[]" Asleep "{}" 11]
    by (simp add: dict_defs)
  have s5: "?S (run_state ?ch ?pi [] [(11, True)] (Listed [11]) Supervising {11})
      (run_state ?ch2 ?pi2 [] [(11, True), (21, True)] (Listed [11]) (Marked 21) {21, 11})"
    using run_restart [of ?ch 20 1 8192 "\<lambda>_. []" ?pi "[]" "[(11, True)]" "Listed [11]" "{11}" 21]
    by (simp add: dict_defs)
  have u1: "send_update 8192 [Wrote 8192] ?mb 11 new_pipe [] = ([], ?mb, ?p)"
    by (simp add: pipe_eval message_def message_header_def le_bytes_8)
  have u2: "send_update 8192 [Wrote 8192] ?mb 11 ?p [] = ([], ?mb, ?p2)"
    by (simp add: pipe_eval message_def message_header_def le_bytes_8)
  have s8: "?S (run_state ?ch2 ?pi2 [True] [] (Sending [11]) Supervising {21, 11})
      (run_state ?ch2 [(11, ?p2), (21, new_pipe)] [True] [] (Sending []) Supervising {21})"
    using run_send [of 8192 "\<lambda>_ _. [Wrote 8192]" 11 "[True]" new_pipe "\<lambda>_. []" "[]", OF u1 u2, of ?pi2 ?ch2 "[]" Supervising "{21, 11}"]
    by (simp add: dict_defs insert_Diff_if)
  note run = s1 run_notify run_wake run_list [where rd = "[(11, True)]"] s5 run_clear run_notify s8 run_finish run_wake
    run_list [where rd = "[]"] run_clear run_finish
  let ?final = "run_state ?ch2 [(11, ?p2), (21, new_pipe)] [] [] Asleep Supervising {21}"
  have r: "?S\<^sup>*\<^sup>* (run_state [(10, 0), (20, 1)] [(10, new_pipe), (20, new_pipe)] [] [] Asleep Supervising {}) ?final"
    using run by (simp add: dict_keys_def) (meson converse_rtranclp_into_rtranclp rtranclp.rtrancl_refl)
  moreover have "start_threads ((new_worker_state 0)\<lparr>children := [(10, 0), (20, 1)], write_pipes := [(10, new_pipe), (20, new_pipe)]\<rparr>) =
      run_state [(10, 0), (20, 1)] [(10, new_pipe), (20, new_pipe)] [] [] Asleep Supervising {}"
    by (simp add: start_threads_def run_state_def new_worker_state_def)
  ultimately show ?thesis
    by (intro exI [of _ ?final]) (simp add: run_state_def new_worker_state_def dict_defs)
qed

section \<open>Concrete runs\<close>

definition demo_threads :: "string threads" where
  "demo_threads = run_state [] [] [True] [(11, True)] Asleep Supervising {11}"

lemma demo_threads_start:
  "demo_threads = start_threads ((new_worker_state 0)\<lparr>mbox := \<lparr>resend_notification = [True], resend_dict = [(11, True)]\<rparr>\<rparr>)"
  by (simp add: demo_threads_def run_state_def start_threads_def new_worker_state_def dict_keys_def)

theorem resend_wakeup_never_lost_witness:
  "requests demo_threads = [11] \<and>
   ((\<exists>x q. notifications demo_threads = x # q) \<or> resender demo_threads = Woken \<or>
    (\<exists>cs. resender demo_threads = Listed cs) \<or> (\<exists>pid. main_thread demo_threads = Marked pid))"
proof -
  let ?ws = "(new_worker_state 0 :: string worker_state)\<lparr>mbox := \<lparr>resend_notification = [True], resend_dict = [(11, True)]\<rparr>\<rparr>"
  have r: "requests demo_threads = [11]" by (simp add: demo_threads_start start_threads_def dict_keys_def)
  have "(thread_step False 8192 (\<lambda>_. []))\<^sup>*\<^sup>* (start_threads ?ws) demo_threads" by (simp add: demo_threads_start)
  from resend_wakeup_never_lost [OF this] r show ?thesis by (auto simp: neq_Nil_conv)
qed

theorem guarded_resend_serves_all_witness:
  "owed (start_threads (new_worker_state 0 :: string worker_state)) = {}"
  by (rule guarded_resend_serves_all [of 8192 "\<lambda>_. []", OF rtranclp.rtrancl_refl])
    (simp_all add: start_threads_def new_worker_state_def)

end
