(* ===== verification/Discovery.thy ===== *)
theory Discovery
  imports Frontik_Prelude
begin

text \<open>
  Service discovery (\<open>frontik/service_discovery.py\<close>): the master's tables of servers and upstreams,
  the updates it sends, and the workers' replicas. \<open>Upstream\<close> and \<open>UpstreamConfigs\<close> belong to the
  package \<open>http_client\<close> and \<open>random.shuffle\<close> depends on the generator's state, so they are a record
  of functions the definitions take as argument; what they promise is the predicate \<open>lawful\<close>.
\<close>

section \<open>Parameters and options\<close>

record ('u, 's, 'c) balancing =
  Upstream :: "string \<Rightarrow> 'c \<Rightarrow> 's list \<Rightarrow> 'u"
  name_of :: "'u \<Rightarrow> string"
  config_of :: "'u \<Rightarrow> 'c"
  servers_of :: "'u \<Rightarrow> 's list"
  set_servers :: "'u \<Rightarrow> 's list \<Rightarrow> 'u"
  update_upstream_object :: "'u \<Rightarrow> 'u \<Rightarrow> 'u"
  no_config :: 'c
  shuffle :: "'s list \<Rightarrow> 's list"

text \<open>
  What an upstream offers to requests: its name, its configuration and its servers up to order. The
  laws: a constructed upstream has the given content, \<open>update\<close> gives the old object the content of the
  new one, shuffling permutes.
\<close>

definition content :: "('u, 's, 'c) balancing \<Rightarrow> 'u \<Rightarrow> string \<times> 'c \<times> 's multiset" where
  "content lib u = (name_of lib u, config_of lib u, mset (servers_of lib u))"

definition lawful :: "('u, 's, 'c) balancing \<Rightarrow> bool" where
  "lawful lib \<longleftrightarrow>
     (\<forall>n c ss. content lib (Upstream lib n c ss) = (n, c, mset ss)) \<and>
     (\<forall>u v. content lib (update_upstream_object lib u v) = content lib v) \<and>
     (\<forall>u ss. content lib (set_servers lib u ss) = (name_of lib u, config_of lib u, mset ss)) \<and>
     (\<forall>ss. mset (shuffle lib ss) = mset ss)"

record sd_options =
  node_name :: string
  port :: int
  service_name :: "string option"
  datacenter :: "string option"
  datacenters :: "string list"
  upstreams_opt :: "string list"
  cross_datacenter_upstreams :: string
  kafka_clusters :: "string list"
  scylla_clusters :: "string list"
  fail_start_on_empty_upstream :: bool
  skip_empty_upstream_check_for_upstreams :: "string list"
  consul_service_address :: "string option"
  consul_check_host :: "string option"
  consul_http_check_interval_sec :: int
  consul_http_check_timeout_sec :: string
  consul_deregister_critical_timeout :: string
  consul_self_register :: bool
  consul_weight_consistency_mode :: string
  consul_tags :: "string list"

section \<open>Registration parameters\<close>

definition DEFAULT_WEIGHT :: int where
  "DEFAULT_WEIGHT = 100"

text \<open>\<open>resolved\<close> is what \<open>socket.gethostbyname(socket.gethostname())\<close> returns.\<close>

definition get_service_address :: "string \<Rightarrow> sd_options \<Rightarrow> string option" where
  "get_service_address resolved opts =
     (case consul_service_address opts of
        Some a \<Rightarrow> if a = '''' then None else if lower a = ''resolve'' then Some resolved else Some a
      | None \<Rightarrow> None)"

definition make_service_id :: "sd_options \<Rightarrow> string option \<Rightarrow> string \<Rightarrow> string" where
  "make_service_id opts service hostname =
     str_of_opt service @ ''-'' @ hostname @ ''-'' @ str_of_int (port opts)"

record http_check =
  check_url :: string
  check_interval :: string
  check_deregister :: string
  check_timeout :: string

definition create_http_check :: "sd_options \<Rightarrow> string option \<Rightarrow> http_check" where
  "create_http_check opts address =
     (let check_host =
        (case consul_check_host opts of
           Some h \<Rightarrow> if h \<noteq> '''' then h
             else (case address of Some a \<Rightarrow> if a \<noteq> '''' then a else ''127.0.0.1'' | None \<Rightarrow> ''127.0.0.1'')
         | None \<Rightarrow> (case address of Some a \<Rightarrow> if a \<noteq> '''' then a else ''127.0.0.1'' | None \<Rightarrow> ''127.0.0.1''))
      in \<lparr>check_url = ''http://'' @ check_host @ '':'' @ str_of_int (port opts) @ ''/status'',
          check_interval = str_of_int (consul_http_check_interval_sec opts) @ ''s'',
          check_deregister = consul_deregister_critical_timeout opts,
          check_timeout = consul_http_check_timeout_sec opts @ ''s''\<rparr>)"

text \<open>
  \<open>int(value['Value'])\<close> on the key-value entry; \<open>to_int\<close> is Python's \<open>int\<close> on that string, an entry
  is its \<open>Value\<close> field.
\<close>

definition get_weight_or_default :: "(string \<Rightarrow> int option) \<Rightarrow> string option \<Rightarrow> int py" where
  "get_weight_or_default to_int entry =
     (case entry of
        None \<Rightarrow> Inr DEFAULT_WEIGHT
      | Some v \<Rightarrow> (case to_int v of Some w \<Rightarrow> Inr w | None \<Rightarrow> Inl ValueError))"

definition get_hostname_or_raise :: "string \<Rightarrow> string py" where
  "get_hostname_or_raise n = (if n = '''' then Inl (RuntimeError ''options node_name must be defined'') else Inr n)"

section \<open>The master\<close>

record registration =
  service_id :: string
  address :: "string option"
  reg_port :: int
  check :: http_check
  tags :: "string list"
  weight :: int

record ('u, 's, 'c) master_sd =
  upstreams_config :: "(string, 'c) dict"
  upstreams_servers :: "(string, 's list) dict"
  upstreams :: "(string, 'u) dict"
  hook_set :: bool
  sent :: "'u list list"
  subscriptions :: "(string \<times> string) list"
  registered :: "registration list"
  kv_running :: bool

definition empty_master :: "('u, 's, 'c) master_sd" where
  "empty_master = \<lparr>upstreams_config = [], upstreams_servers = [], upstreams = [], hook_set = False, sent = [],
     subscriptions = [], registered = [], kv_running = False\<rparr>"

definition subscribe_to_service :: "string \<Rightarrow> string \<Rightarrow> ('u, 's, 'c) master_sd \<Rightarrow> ('u, 's, 'c) master_sd" where
  "subscribe_to_service service dc m = m\<lparr>subscriptions := subscriptions m @ [(service, dc)]\<rparr>"

text \<open>\<open>str\<close> of a list of plain strings.\<close>

definition list_repr :: "string list \<Rightarrow> string" where
  "list_repr xs = ''['' @ join_with '', '' (map (\<lambda>s. [CHR 0x27] @ s @ [CHR 0x27]) xs) @ '']''"

definition check_empty_upstreams_on_startup ::
    "('u, 's, 'c) balancing \<Rightarrow> sd_options \<Rightarrow> ('u, 's, 'c) master_sd \<Rightarrow> unit py" where
  "check_empty_upstreams_on_startup lib opts m =
     (let empty_upstreams = map fst (filter (\<lambda>(k, v). servers_of lib v = [] \<and>
          k \<notin> set (skip_empty_upstream_check_for_upstreams opts)) (upstreams m))
      in if empty_upstreams \<noteq> []
         then Inl (RuntimeError (''failed startup application, because for next upstreams got empty servers: '' @ list_repr empty_upstreams))
         else Inr ())"

definition wanted_subscriptions :: "sd_options \<Rightarrow> (string \<times> string) list" where
  "wanted_subscriptions opts =
     (let cross = (if cross_datacenter_upstreams opts \<noteq> '''' then split_on CHR '','' (cross_datacenter_upstreams opts) else [])
      in filter (\<lambda>(upstream, dc). Some dc = datacenter opts \<or> ''*'' \<in> set cross \<or> upstream \<in> set cross)
           (List.product (upstreams_opt opts) (datacenters opts))
         @ List.product (map (\<lambda>k. ''kafka-'' @ k) (kafka_clusters opts) @ map (\<lambda>s. ''scylla-'' @ s) (scylla_clusters opts))
           (datacenters opts))"

text \<open>
  The constructor, after which the caches that were started call the listeners with what they hold:
  \<open>warmup\<close> is the effect of those calls on the tables; \<open>consistency_modes\<close> are the values of the client's
  \<open>ConsistencyMode\<close>.
\<close>

definition master_init ::
    "string list \<Rightarrow> ('u, 's, 'c) balancing \<Rightarrow> sd_options \<Rightarrow> (('u, 's, 'c) master_sd \<Rightarrow> ('u, 's, 'c) master_sd) \<Rightarrow> ('u, 's, 'c) master_sd py" where
  "master_init consistency_modes lib opts warmup =
     (case service_name opts of
        None \<Rightarrow> Inl AssertionError
      | Some _ \<Rightarrow>
         if lower (consul_weight_consistency_mode opts) \<notin> set consistency_modes then Inl ValueError
         else py_bind (if consul_self_register opts then get_hostname_or_raise (node_name opts) else Inr '''') (\<lambda>_.
         let m = warmup (fold (\<lambda>(service, dc). subscribe_to_service service dc) (wanted_subscriptions opts) empty_master)
         in if fail_start_on_empty_upstream opts
            then py_bind (check_empty_upstreams_on_startup lib opts m) (\<lambda>_. Inr m)
            else Inr m))"

definition set_update_shared_data_hook :: "('u, 's, 'c) master_sd \<Rightarrow> ('u, 's, 'c) master_sd" where
  "set_update_shared_data_hook m = m\<lparr>hook_set := True\<rparr>"

definition get_upstreams_copy :: "('u, 's, 'c) master_sd \<Rightarrow> (string, 'u) dict" where
  "get_upstreams_copy m = upstreams m"

definition get_upstream :: "('u, 's, 'c) master_sd \<Rightarrow> string \<Rightarrow> 'u option" where
  "get_upstream m upstream_name = dict_get (upstreams m) upstream_name"

text \<open>
  Registration; \<open>agent_ok\<close> is the agent's answer. The cache of the weight is an attribute only with
  \<open>consul_self_register\<close>; without it both operations raise.
\<close>

definition sync_register ::
    "string \<Rightarrow> sd_options \<Rightarrow> bool \<Rightarrow> int \<Rightarrow> ('u, 's, 'c) master_sd \<Rightarrow> ('u, 's, 'c) master_sd py" where
  "sync_register resolved opts agent_ok w m =
     (let addr = get_service_address resolved opts;
          params = \<lparr>service_id = make_service_id opts (service_name opts) (node_name opts), address = addr,
            reg_port = port opts, check = create_http_check opts addr, tags = consul_tags opts, weight = w\<rparr>
      in if agent_ok then Inr (m\<lparr>registered := registered m @ [params]\<rparr>)
         else Inl (PyException ''Failed to register''))"

definition update_register ::
    "(string \<Rightarrow> int option) \<Rightarrow> string \<Rightarrow> sd_options \<Rightarrow> bool \<Rightarrow> string option \<Rightarrow> ('u, 's, 'c) master_sd \<Rightarrow> ('u, 's, 'c) master_sd py" where
  "update_register to_int resolved opts agent_ok new_value m =
     py_bind (get_weight_or_default to_int new_value) (\<lambda>w. sync_register resolved opts agent_ok w m)"

definition register_service ::
    "(string \<Rightarrow> int option) \<Rightarrow> string \<Rightarrow> sd_options \<Rightarrow> bool \<Rightarrow> string option \<Rightarrow> ('u, 's, 'c) master_sd \<Rightarrow> ('u, 's, 'c) master_sd py" where
  "register_service to_int resolved opts agent_ok kv_value m =
     (if \<not> consul_self_register opts then Inl (PyException ''AttributeError'') else
      py_bind (get_weight_or_default to_int kv_value) (\<lambda>w.
     py_bind (sync_register resolved opts agent_ok w m) (\<lambda>m. Inr (m\<lparr>kv_running := True\<rparr>))))"

definition deregister_service_and_close :: "sd_options \<Rightarrow> bool \<Rightarrow> ('u, 's, 'c) master_sd \<Rightarrow> ('u, 's, 'c) master_sd py" where
  "deregister_service_and_close opts agent_ok m =
     (if \<not> consul_self_register opts then Inl (PyException ''AttributeError'') else
      let m = m\<lparr>kv_running := False\<rparr>;
          sid = make_service_id opts (service_name opts) (node_name opts)
      in Inr (if agent_ok then m\<lparr>registered := filter (\<lambda>r. service_id r \<noteq> sid) (registered m)\<rparr> else m))"

subsection \<open>Updates\<close>

definition combine_servers :: "sd_options \<Rightarrow> ('u, 's, 'c) master_sd \<Rightarrow> string \<Rightarrow> 's list" where
  "combine_servers opts m key =
     concat (map (\<lambda>dc. case dict_get (upstreams_servers m) (key @ ''-'' @ dc) of Some ss \<Rightarrow> ss | None \<Rightarrow> []) (datacenters opts))"

definition create_upstream :: "('u, 's, 'c) balancing \<Rightarrow> sd_options \<Rightarrow> ('u, 's, 'c) master_sd \<Rightarrow> string \<Rightarrow> 'u" where
  "create_upstream lib opts m key =
     Upstream lib key (case dict_get (upstreams_config m) key of Some c \<Rightarrow> c | None \<Rightarrow> no_config lib)
       (shuffle lib (combine_servers opts m key))"

definition send_updates :: "'u option \<Rightarrow> ('u, 's, 'c) master_sd \<Rightarrow> ('u, 's, 'c) master_sd" where
  "send_updates upstream m =
     (if \<not> hook_set m then m
      else m\<lparr>sent := sent m @ [case upstream of None \<Rightarrow> dict_values (upstreams m) | Some u \<Rightarrow> [u]]\<rparr>)"

text \<open>The part of \<open>_update_upstreams\<close> under the lock.\<close>

definition store_upstream ::
    "('u, 's, 'c) balancing \<Rightarrow> (string, 'u) dict \<Rightarrow> string \<Rightarrow> 'u \<Rightarrow> (string, 'u) dict" where
  "store_upstream lib d key u =
     (case dict_get d key of
        None \<Rightarrow> dict_set d key u
      | Some current \<Rightarrow> dict_set d key (update_upstream_object lib current u))"

definition update_upstreams_at :: "('u, 's, 'c) balancing \<Rightarrow> sd_options \<Rightarrow> string \<Rightarrow> ('u, 's, 'c) master_sd \<Rightarrow> ('u, 's, 'c) master_sd" where
  "update_upstreams_at lib opts key m =
     (let u = create_upstream lib opts m key
      in send_updates (Some u) (m\<lparr>upstreams := store_upstream lib (upstreams m) key u\<rparr>))"

text \<open>
  The listeners of the consul caches. The parsed health data of one datacenter, and the parsed
  configurations by key, are arguments: the parser is \<open>http_client\<close>'s. A value without content is \<open>None\<close>.
\<close>

definition update_upstreams_service ::
    "('u, 's, 'c) balancing \<Rightarrow> sd_options \<Rightarrow> string \<Rightarrow> (string \<times> 's list) option \<Rightarrow> ('u, 's, 'c) master_sd \<Rightarrow> ('u, 's, 'c) master_sd" where
  "update_upstreams_service lib opts key values m =
     (case values of
        None \<Rightarrow> m
      | Some (dc, servers) \<Rightarrow>
          update_upstreams_at lib opts key
            (m\<lparr>upstreams_servers := dict_set (upstreams_servers m) (key @ ''-'' @ dc) servers\<rparr>))"

definition update_upstreams_config_value ::
    "('u, 's, 'c) balancing \<Rightarrow> sd_options \<Rightarrow> string \<times> 'c option \<Rightarrow> ('u, 's, 'c) master_sd \<Rightarrow> ('u, 's, 'c) master_sd py" where
  "update_upstreams_config_value lib opts kv m =
     (case snd kv of
        None \<Rightarrow> Inr m
      | Some config \<Rightarrow>
         (case split_on CHR ''/'' (fst kv) of
            _ # key # _ \<Rightarrow>
              if key \<in> set (upstreams_opt opts)
              then Inr (update_upstreams_at lib opts key (m\<lparr>upstreams_config := dict_set (upstreams_config m) key config\<rparr>))
              else Inr m
          | _ \<Rightarrow> Inl IndexError))"

text \<open>The loop over the values of one call; an exception leaves the values handled before it applied.\<close>

fun update_upstreams_config ::
    "('u, 's, 'c) balancing \<Rightarrow> sd_options \<Rightarrow> (string \<times> 'c option) list \<Rightarrow> ('u, 's, 'c) master_sd \<Rightarrow>
     py_exc option \<times> ('u, 's, 'c) master_sd" where
  "update_upstreams_config lib opts [] m = (None, m)"
| "update_upstreams_config lib opts (kv # kvs) m =
     (case update_upstreams_config_value lib opts kv m of
        Inl e \<Rightarrow> (Some e, m)
      | Inr m \<Rightarrow> update_upstreams_config lib opts kvs m)"

definition master_update_upstreams :: "'u list \<Rightarrow> unit py" where
  "master_update_upstreams us = Inl (RuntimeError ''master should not serve upstream updates'')"

section \<open>The workers\<close>

type_synonym 'u worker_sd = "(string, 'u) dict"

definition update_upstream :: "('u, 's, 'c) balancing \<Rightarrow> 'u \<Rightarrow> 'u worker_sd \<Rightarrow> 'u worker_sd" where
  "update_upstream lib u w =
     (case dict_get w (name_of lib u) of
        None \<Rightarrow> dict_set w (name_of lib u) (set_servers lib u (shuffle lib (servers_of lib u)))
      | Some current \<Rightarrow> dict_set w (name_of lib u) (update_upstream_object lib current u))"

definition worker_update_upstreams :: "('u, 's, 'c) balancing \<Rightarrow> 'u list \<Rightarrow> 'u worker_sd \<Rightarrow> 'u worker_sd" where
  "worker_update_upstreams lib us w = fold (update_upstream lib) us w"

definition worker_get_upstream :: "'u worker_sd \<Rightarrow> string \<Rightarrow> 'u option" where
  "worker_get_upstream w upstream_name = dict_get w upstream_name"

definition worker_send_updates :: "unit py" where
  "worker_send_updates = Inl (RuntimeError ''worker should not use send updates'')"

definition worker_set_hook :: "unit py" where
  "worker_set_hook = Inl (RuntimeError ''worker should not use update hook'')"

section \<open>Metrics of the consul client\<close>

record statsd_count =
  metric :: string
  result :: string
  kind :: string

definition on_http_request_success :: "int \<Rightarrow> statsd_count" where
  "on_http_request_success response_code =
     \<lparr>metric = ''consul-client.request'', result = ''success'', kind = str_of_int response_code\<rparr>"

definition on_http_request_failure :: "string \<Rightarrow> statsd_count" where
  "on_http_request_failure exception_type =
     \<lparr>metric = ''consul-client.request'', result = ''failure'', kind = exception_type\<rparr>"

definition on_http_request_invalid :: "int \<Rightarrow> statsd_count" where
  "on_http_request_invalid response_code =
     \<lparr>metric = ''consul-client.request'', result = ''failure'', kind = str_of_int response_code\<rparr>"

section \<open>Replicas\<close>

text \<open>
  A table of upstreams that absorbs updates by name: the contract of the master's table and of a
  worker's table. The entry of a name is the last update absorbed under it.
\<close>

locale upstream_table =
  fixes lookup :: "'d \<Rightarrow> string \<Rightarrow> 'u option"
    and absorb :: "'u \<Rightarrow> 'd \<Rightarrow> 'd"
    and key :: "'u \<Rightarrow> string"
    and view :: "'u \<Rightarrow> 'v"
    and trusted :: bool
  assumes absorb_same: "trusted \<Longrightarrow> map_option view (lookup (absorb u d) (key u)) = Some (view u)"
    and absorb_other: "k \<noteq> key u \<Longrightarrow> lookup (absorb u d) k = lookup d k"
begin

lemma lookup_absorb:
  "trusted \<Longrightarrow> map_option view (lookup (absorb u d) k) = (if k = key u then Some (view u) else map_option view (lookup d k))"
  using absorb_same absorb_other by simp

lemma lookup_fold:
  "trusted \<Longrightarrow> map_option view (lookup (fold absorb us d) k) =
     (case find (\<lambda>u. key u = k) (rev us) of Some u \<Rightarrow> Some (view u) | None \<Rightarrow> map_option view (lookup d k))"
  by (induction us arbitrary: d) (auto simp: find_append lookup_absorb split: option.split)

end

lemma content_simps:
  assumes "lawful lib"
  shows "content lib (Upstream lib n c ss) = (n, c, mset ss)"
    and "content lib (update_upstream_object lib u v) = content lib v"
    and "content lib (set_servers lib u ss) = (name_of lib u, config_of lib u, mset ss)"
    and "mset (shuffle lib ss) = mset ss"
  using assms unfolding lawful_def by blast+

interpretation master_table: upstream_table dict_get "\<lambda>u d. store_upstream lib d (name_of lib u) u"
  "name_of lib" "content lib" "lawful lib" for lib
  by unfold_locales (auto simp: store_upstream_def content_simps split: option.splits)

interpretation worker_table: upstream_table dict_get "update_upstream lib" "name_of lib" "content lib" "lawful lib" for lib
proof unfold_locales
  fix u d
  assume "lawful lib"
  then show "map_option (content lib) (dict_get (update_upstream lib u d) (name_of lib u)) = Some (content lib u)"
    by (cases "dict_get d (name_of lib u)") (simp_all add: update_upstream_def content_simps, simp add: content_def)
qed (auto simp: update_upstream_def split: option.splits)

definition in_sync :: "('u, 's, 'c) balancing \<Rightarrow> (string, 'u) dict \<Rightarrow> 'u worker_sd \<Rightarrow> bool" where
  "in_sync lib d w \<longleftrightarrow> (\<forall>k. map_option (content lib) (dict_get d k) = map_option (content lib) (dict_get w k))"

text \<open>Every entry of the master's table is stored under its own name.\<close>

definition named :: "('u, 's, 'c) balancing \<Rightarrow> (string, 'u) dict \<Rightarrow> bool" where
  "named lib d \<longleftrightarrow> dict_ok d \<and> (\<forall>k u. dict_get d k = Some u \<longrightarrow> name_of lib u = k)"

lemma name_created: "lawful lib \<Longrightarrow> name_of lib (create_upstream lib opts m key) = key"
  using content_simps(1) [of lib key] by (simp add: create_upstream_def content_def)

lemma content_name: "content lib u = content lib v \<Longrightarrow> name_of lib u = name_of lib v"
  by (simp add: content_def)

lemma named_store:
  assumes "lawful lib" and "named lib d" and "name_of lib u = key"
  shows "named lib (store_upstream lib d key u)"
  using assms content_name [OF content_simps(2) [OF assms(1)]]
  by (auto simp: named_def store_upstream_def pydict.ok_put split: option.splits if_splits)

lemma sync_step:
  assumes "lawful lib" and "in_sync lib d w" and "name_of lib u = key"
  shows "in_sync lib (store_upstream lib d key u) (worker_update_upstreams lib [u] w)"
  using master_table.lookup_absorb [OF assms(1), where u = u and d = d] worker_table.lookup_absorb [OF assms(1), where u = u and d = w] assms(2,3)
  by (auto simp: in_sync_def worker_update_upstreams_def)

text \<open>Sending the whole table changes nothing in a replica that is in sync.\<close>

lemma sync_all:
  assumes "lawful lib" and "in_sync lib d w" and "named lib d"
  shows "in_sync lib d (worker_update_upstreams lib (dict_values d) w)"
  unfolding in_sync_def worker_update_upstreams_def
proof
  fix k
  show "map_option (content lib) (dict_get d k) = map_option (content lib) (dict_get (fold (update_upstream lib) (dict_values d) w) k)"
  proof (cases "find (\<lambda>u. name_of lib u = k) (rev (dict_values d))")
    case None
    with worker_table.lookup_fold [OF assms(1)] assms(2) show ?thesis by (simp add: in_sync_def)
  next
    case (Some u)
    from find_SomeD [OF this] obtain k' where "(k', u) \<in> set d" and k: "name_of lib u = k"
      by (auto simp: dict_values_def)
    then have "dict_get d k' = Some u" using assms(3) by (simp add: named_def dict_defs)
    with k assms(3) have "dict_get d k = Some u" by (auto simp: named_def)
    with Some worker_table.lookup_fold [OF assms(1)] show ?thesis by simp
  qed
qed

datatype ('s, 'c) master_event =
    Health string "(string \<times> 's list) option"
  | Configs "(string \<times> 'c option) list"
  | SendAll

definition master_event :: "('u, 's, 'c) balancing \<Rightarrow> sd_options \<Rightarrow> ('s, 'c) master_event \<Rightarrow> ('u, 's, 'c) master_sd \<Rightarrow> ('u, 's, 'c) master_sd" where
  "master_event lib opts e m =
     (case e of
        Health key values \<Rightarrow> update_upstreams_service lib opts key values m
      | Configs kvs \<Rightarrow> snd (update_upstreams_config lib opts kvs m)
      | SendAll \<Rightarrow> send_updates None m)"

text \<open>What a worker that started from \<open>w0\<close> holds after the messages sent so far.\<close>

definition replica :: "('u, 's, 'c) balancing \<Rightarrow> 'u worker_sd \<Rightarrow> ('u, 's, 'c) master_sd \<Rightarrow> 'u worker_sd" where
  "replica lib w0 m = fold (worker_update_upstreams lib) (sent m) w0"

definition replica_ok :: "('u, 's, 'c) balancing \<Rightarrow> 'u worker_sd \<Rightarrow> ('u, 's, 'c) master_sd \<Rightarrow> bool" where
  "replica_ok lib w0 m \<longleftrightarrow> hook_set m \<and> named lib (upstreams m) \<and> in_sync lib (upstreams m) (replica lib w0 m)"

lemma replica_ok_cong:
  "hook_set m' = hook_set m \<Longrightarrow> upstreams m' = upstreams m \<Longrightarrow> sent m' = sent m \<Longrightarrow> replica_ok lib w0 m' = replica_ok lib w0 m"
  by (simp add: replica_ok_def replica_def)

lemma replica_update_at:
  assumes "lawful lib" and "replica_ok lib w0 m"
  shows "replica_ok lib w0 (update_upstreams_at lib opts key m)"
  using assms name_created [OF assms(1), of opts m key] named_store [OF assms(1)] sync_step [OF assms(1)]
  by (auto simp: replica_ok_def replica_def update_upstreams_at_def send_updates_def Let_def)

lemma replica_config_value:
  assumes "lawful lib" and "replica_ok lib w0 m" and "update_upstreams_config_value lib opts kv m = Inr m'"
  shows "replica_ok lib w0 m'"
proof -
  have "m' = m \<or> (\<exists>key config. m' = update_upstreams_at lib opts key (m\<lparr>upstreams_config := dict_set (upstreams_config m) key config\<rparr>))"
    using assms(3) by (auto simp: update_upstreams_config_value_def split: option.splits list.splits if_splits)
  moreover have "replica_ok lib w0 (m\<lparr>upstreams_config := cs\<rparr>)" for cs
    using assms(2) replica_ok_cong [of "m\<lparr>upstreams_config := cs\<rparr>" m] by simp
  ultimately show ?thesis using assms(1,2) replica_update_at by metis
qed

lemma replica_configs:
  assumes "lawful lib" and "replica_ok lib w0 m"
  shows "replica_ok lib w0 (snd (update_upstreams_config lib opts kvs m))"
  using assms(2)
proof (induction kvs arbitrary: m)
  case (Cons kv kvs)
  then show ?case
    by (cases "update_upstreams_config_value lib opts kv m") (simp_all add: replica_config_value [OF assms(1)])
qed simp

lemma replica_event:
  assumes "lawful lib" and "replica_ok lib w0 m"
  shows "replica_ok lib w0 (master_event lib opts e m)"
proof (cases e)
  case (Health key vs)
  have "replica_ok lib w0 (m\<lparr>upstreams_servers := ss\<rparr>)" for ss
    using assms(2) replica_ok_cong [of "m\<lparr>upstreams_servers := ss\<rparr>" m] by simp
  with Health assms show ?thesis
    by (auto simp: master_event_def update_upstreams_service_def replica_update_at split: option.splits)
next
  case (Configs kvs)
  with replica_configs [OF assms] show ?thesis by (simp add: master_event_def)
next
  case SendAll
  with assms sync_all [OF assms(1)] show ?thesis
    by (auto simp: master_event_def send_updates_def replica_ok_def replica_def)
qed

lemma replica_events:
  "lawful lib \<Longrightarrow> replica_ok lib w0 m \<Longrightarrow> replica_ok lib w0 (fold (master_event lib opts) events m)"
  by (induction events arbitrary: m) (simp_all add: replica_event)

section \<open>Properties\<close>


text \<open>After a health update of one datacenter, the master's upstream of that service offers exactly
  the servers known for it in the configured datacenters, the ones just received included, with the
  configuration last received, or the default one.\<close>

theorem health_update_effect:
  assumes "lawful lib"
  shows "map_option (content lib) (get_upstream (update_upstreams_service lib opts key (Some (dc, servers)) m) key) =
    Some (key, (case dict_get (upstreams_config m) key of Some c \<Rightarrow> c | None \<Rightarrow> no_config lib),
      mset (concat (map (\<lambda>d. if d = dc then servers
        else (case dict_get (upstreams_servers m) (key @ ''-'' @ d) of Some ss \<Rightarrow> ss | None \<Rightarrow> [])) (datacenters opts))))"
proof -
  let ?m = "m\<lparr>upstreams_servers := dict_set (upstreams_servers m) (key @ ''-'' @ dc) servers\<rparr>"
  let ?u = "create_upstream lib opts ?m key"
  have name: "name_of lib ?u = key" by (rule name_created [OF assms])
  have "map_option (content lib) (dict_get (store_upstream lib (upstreams m) key ?u) key) = Some (content lib ?u)"
    using master_table.lookup_absorb [OF assms, where u = ?u and d = "upstreams m" and k = key] name by simp
  moreover have "content lib ?u = (key, (case dict_get (upstreams_config m) key of Some c \<Rightarrow> c | None \<Rightarrow> no_config lib),
      mset (combine_servers opts ?m key))"
    by (simp add: create_upstream_def content_simps [OF assms])
  moreover have "combine_servers opts ?m key = concat (map (\<lambda>d. if d = dc then servers
        else (case dict_get (upstreams_servers m) (key @ ''-'' @ d) of Some ss \<Rightarrow> ss | None \<Rightarrow> [])) (datacenters opts))"
    unfolding combine_servers_def by (intro arg_cong [of _ _ concat] map_cong) auto
  ultimately show ?thesis
    by (simp add: get_upstream_def update_upstreams_service_def update_upstreams_at_def send_updates_def Let_def)
qed

text \<open>
  A master that does not register itself cannot run: the constructor accepts \<open>consul_self_register = False\<close>,
  but the registration after the fork and the deregistration on shutdown use the cache of the weight, which
  exists only with that option.
\<close>

lemma self_registration_required:
  assumes "\<not> consul_self_register opts"
  shows "register_service to_int resolved opts agent_ok kv_value m = Inl (PyException ''AttributeError'')"
    and "deregister_service_and_close opts agent_ok m = Inl (PyException ''AttributeError'')"
  using assms by (simp_all add: register_service_def deregister_service_and_close_def)

text \<open>Start-up with \<open>fail_start_on_empty_upstream\<close> succeeds exactly when every upstream that is not
  exempt has a server (given a service name and, for self-registration, a node name); otherwise it
  raises \<open>RuntimeError\<close>.\<close>

theorem startup_checks_upstreams:
  assumes "service_name opts = Some service" and "lower (consul_weight_consistency_mode opts) \<in> set modes"
    and "consul_self_register opts \<longrightarrow> node_name opts \<noteq> ''''"
    and "fail_start_on_empty_upstream opts"
    and "m = warmup (fold (\<lambda>(service, dc). subscribe_to_service service dc) (wanted_subscriptions opts) empty_master)"
  shows "(if \<exists>(k, u) \<in> set (upstreams m). servers_of lib u = [] \<and> k \<notin> set (skip_empty_upstream_check_for_upstreams opts)
     then \<exists>msg. master_init modes lib opts warmup = Inl (RuntimeError msg)
     else master_init modes lib opts warmup = Inr m)"
  using assms
  by (auto simp: master_init_def get_hostname_or_raise_def check_empty_upstreams_on_startup_def Let_def filter_empty_conv
      split: if_splits)

text \<open>Subscriptions: the master subscribes to a service in a datacenter exactly when it is a
  configured upstream and the datacenter is its own or the upstream crosses datacenters, or when it
  is the upstream of a configured kafka or scylla cluster.\<close>

theorem subscription_policy:
  "(service, dc) \<in> set (subscriptions (fold (\<lambda>(s, d). subscribe_to_service s d) (wanted_subscriptions opts) empty_master)) \<longleftrightarrow>
   dc \<in> set (datacenters opts) \<and>
   (service \<in> set (upstreams_opt opts) \<and>
      (datacenter opts = Some dc \<or>
       cross_datacenter_upstreams opts \<noteq> '''' \<and>
         {''*'', service} \<inter> set (split_on CHR '','' (cross_datacenter_upstreams opts)) \<noteq> {}) \<or>
    service \<in> (\<lambda>k. ''kafka-'' @ k) ` set (kafka_clusters opts) \<or>
    service \<in> (\<lambda>s. ''scylla-'' @ s) ` set (scylla_clusters opts))"
proof -
  have "subscriptions (fold (\<lambda>(s, d). subscribe_to_service s d) xs m) = subscriptions m @ xs" for xs and m :: "('a, 'b, 'c) master_sd"
    by (induction xs arbitrary: m) (auto simp: subscribe_to_service_def)
  then show ?thesis
    by (auto simp: wanted_subscriptions_def Let_def empty_master_def)
qed

section \<open>Two listeners at once\<close>

text \<open>
  The listeners run in the threads of their caches. \<open>_update_upstreams\<close> releases the lock between storing
  the upstream and sending it, so these are two steps of a thread.
\<close>

definition receive_phase ::
    "('u, 's, 'c) balancing \<Rightarrow> sd_options \<Rightarrow> string \<Rightarrow> string \<Rightarrow> 's list \<Rightarrow> ('u, 's, 'c) master_sd \<Rightarrow> 'u \<times> ('u, 's, 'c) master_sd" where
  "receive_phase lib opts key dc servers m =
     (let m = m\<lparr>upstreams_servers := dict_set (upstreams_servers m) (key @ ''-'' @ dc) servers\<rparr>;
          u = create_upstream lib opts m key
      in (u, m\<lparr>upstreams := store_upstream lib (upstreams m) key u\<rparr>))"

definition send_phase :: "'u \<Rightarrow> ('u, 's, 'c) master_sd \<Rightarrow> ('u, 's, 'c) master_sd" where
  "send_phase u m = send_updates (Some u) m"

lemma update_upstreams_service_phases:
  "update_upstreams_service lib opts key (Some (dc, servers)) m =
     (case receive_phase lib opts key dc servers m of (u, m) \<Rightarrow> send_phase u m)"
  by (simp add: update_upstreams_service_def update_upstreams_at_def receive_phase_def send_phase_def Let_def)

text \<open>A stale update can win: with two datacenters, if the listener of the second stores and sends
  its update between the two steps of the listener of the first, every worker ends up without the
  servers of the second datacenter, although the master has them and nothing is left to be sent.\<close>

theorem stale_update_can_win:
  assumes "lawful lib" and "hook_set m" and "sent m = []" and "upstreams_servers m = []"
    and "datacenters opts = [dc1, dc2]" and "dc1 \<noteq> dc2" and "servers2 \<noteq> []"
    and "receive_phase lib opts key dc1 servers1 m = (u1, m1)"
    and "receive_phase lib opts key dc2 servers2 m1 = (u2, m2)"
    and "m' = send_phase u1 (send_phase u2 m2)"
  shows "\<exists>w u. get_upstream m' key = Some u \<and> worker_get_upstream (replica lib (get_upstreams_copy m) m') key = Some w \<and>
    mset (servers_of lib u) = mset servers1 + mset servers2 \<and> mset (servers_of lib w) = mset servers1 \<and>
    \<not> in_sync lib (upstreams m') (replica lib (get_upstreams_copy m) m')"
proof -
  let ?w = "replica lib (get_upstreams_copy m) m'"
  let ?c = "case dict_get (upstreams_config m) key of Some c \<Rightarrow> c | None \<Rightarrow> no_config lib"
  have dcs: "key @ ''-'' @ dc1 \<noteq> key @ ''-'' @ dc2" using assms(6) by simp
  have m1: "m1 = m\<lparr>upstreams_servers := dict_set [] (key @ ''-'' @ dc1) servers1,
      upstreams := store_upstream lib (upstreams m) key u1\<rparr>"
    and u1: "content lib u1 = (key, ?c, mset servers1)"
    using assms(4,5,6,8) by (auto simp: receive_phase_def Let_def create_upstream_def content_simps [OF assms(1)] combine_servers_def)
  have m2: "upstreams m2 = store_upstream lib (upstreams m1) key u2" "hook_set m2 = hook_set m" "sent m2 = []"
    and u2: "content lib u2 = (key, ?c, mset servers1 + mset servers2)"
    using assms(3,5,6,9) by (auto simp: m1 receive_phase_def Let_def create_upstream_def content_simps [OF assms(1)] combine_servers_def)
  have m': "upstreams m' = upstreams m2" "sent m' = [[u2], [u1]]"
    using assms(2,10) m2 by (simp_all add: send_phase_def send_updates_def)
  have names: "name_of lib u1 = key" "name_of lib u2 = key" using u1 u2 by (simp_all add: content_def)
  have "map_option (content lib) (dict_get (upstreams m') key) = Some (content lib u2)"
    using master_table.lookup_absorb [OF assms(1), where u = u2 and d = "upstreams m1" and k = key] names m' m2 by simp
  moreover have "map_option (content lib) (dict_get ?w key) = Some (content lib u1)"
    using worker_table.lookup_absorb [OF assms(1), where u = u1 and k = key] names m'
    by (simp add: replica_def worker_update_upstreams_def)
  moreover have "content lib u1 \<noteq> content lib u2" using u1 u2 assms(7) by simp
  ultimately have "\<not> in_sync lib (upstreams m') ?w"
    and "\<exists>u w. dict_get (upstreams m') key = Some u \<and> dict_get ?w key = Some w \<and> content lib u = content lib u2 \<and> content lib w = content lib u1"
    unfolding in_sync_def by (metis option.inject, auto)
  then show ?thesis
    using u1 u2 by (auto simp: get_upstream_def worker_get_upstream_def content_def)
qed

section \<open>A concrete library and master\<close>

record plain_upstream =
  pu_name :: string
  pu_config :: nat
  pu_servers :: "string list"

definition plain_lib :: "(plain_upstream, string, nat) balancing" where
  "plain_lib = \<lparr>Upstream = (\<lambda>n c ss. \<lparr>pu_name = n, pu_config = c, pu_servers = ss\<rparr>), name_of = pu_name,
     config_of = pu_config, servers_of = pu_servers, set_servers = (\<lambda>u ss. u\<lparr>pu_servers := ss\<rparr>),
     update_upstream_object = (\<lambda>u v. v), no_config = 0, shuffle = rev\<rparr>"

lemma plain_lib_lawful: "lawful plain_lib"
  by (simp add: lawful_def plain_lib_def content_def)

definition demo_options :: sd_options where
  "demo_options = \<lparr>node_name = ''node'', port = 8080, service_name = Some ''app'', datacenter = Some ''dc1'',
     datacenters = [''dc1'', ''dc2''], upstreams_opt = [''u''], cross_datacenter_upstreams = ''u'', kafka_clusters = [],
     scylla_clusters = [], fail_start_on_empty_upstream = True, skip_empty_upstream_check_for_upstreams = [],
     consul_service_address = None, consul_check_host = None, consul_http_check_interval_sec = 10,
     consul_http_check_timeout_sec = ''1'', consul_deregister_critical_timeout = ''120h'', consul_self_register = True, consul_weight_consistency_mode = ''default'',
     consul_tags = []\<rparr>"

definition demo_master :: "(plain_upstream, string, nat) master_sd" where
  "demo_master = set_update_shared_data_hook empty_master"

lemmas demo_defs = demo_master_def demo_options_def set_update_shared_data_hook_def empty_master_def


theorem health_update_effect_witness:
  "map_option (content plain_lib)
     (get_upstream (update_upstreams_service plain_lib demo_options ''u'' (Some (''dc2'', [''a'', ''b''])) demo_master) ''u'') =
   Some (''u'', 0, mset [''a'', ''b''])"
  using health_update_effect [OF plain_lib_lawful, of demo_options "''u''" "''dc2''" "[''a'', ''b'']" demo_master]
  by (simp add: demo_defs plain_lib_def)

definition warm_master :: "(plain_upstream, string, nat) master_sd \<Rightarrow> (plain_upstream, string, nat) master_sd" where
  "warm_master m = m\<lparr>upstreams := [(''u'', \<lparr>pu_name = ''u'', pu_config = 0, pu_servers = []\<rparr>)]\<rparr>"

theorem startup_checks_upstreams_witness:
  "\<exists>msg. master_init [''default''] plain_lib demo_options warm_master = Inl (RuntimeError msg)"
proof -
  have "lower (consul_weight_consistency_mode demo_options) \<in> set [''default'']" by code_simp
  from startup_checks_upstreams [OF _ this, of "''app''" _ warm_master plain_lib] show ?thesis
    by (simp add: demo_options_def warm_master_def plain_lib_def)
qed

theorem stale_update_can_win_witness:
  "\<exists>m'. \<exists>w u. get_upstream m' ''u'' = Some u \<and>
     worker_get_upstream (replica plain_lib (get_upstreams_copy demo_master) m') ''u'' = Some w \<and>
     mset (servers_of plain_lib u) = mset [''a''] + mset [''b''] \<and> mset (servers_of plain_lib w) = mset [''a''] \<and>
     \<not> in_sync plain_lib (upstreams m') (replica plain_lib (get_upstreams_copy demo_master) m')"
proof -
  obtain u1 m1 where r1: "receive_phase plain_lib demo_options ''u'' ''dc1'' [''a''] demo_master = (u1, m1)" by force
  obtain u2 m2 where r2: "receive_phase plain_lib demo_options ''u'' ''dc2'' [''b''] m1 = (u2, m2)" by force
  show ?thesis
    by (rule exI, rule stale_update_can_win [OF plain_lib_lawful _ _ _ _ _ _ r1 r2 refl]) (simp_all add: demo_defs)
qed

end
