(* ===== verification/Integrations.thy ===== *)
theory Integrations
  imports Frontik_Prelude
begin

text \<open>
  The integrations a request is wrapped in (\<open>frontik/request_integrations\<close>): the limit on active
  handlers, the request context kept in a context variable, the value object they hand over, and the
  generation and validation of request ids (\<open>frontik/util\<close>).
\<close>

section \<open>The value object\<close>

record ('a, 'r) integration_dto =
  dto_value :: "'a option"
  dto_response :: "'r option"

definition new_dto :: "'a option \<Rightarrow> ('a, 'r) integration_dto" where
  "new_dto v = \<lparr>dto_value = v, dto_response = None\<rparr>"

definition set_response :: "'r \<Rightarrow> ('a, 'r) integration_dto \<Rightarrow> ('a, 'r) integration_dto" where
  "set_response r d = d\<lparr>dto_response := Some r\<rparr>"

definition get_value :: "('a, 'r) integration_dto \<Rightarrow> 'a option" where
  "get_value d = dto_value d"

section \<open>The limit on active handlers\<close>

record limiter =
  active_count :: int
  gauges :: "int list"

datatype limiter_log = Quiet | Watermark int | Dropping int

text \<open>\<open>int(max_active_handlers * 0.75)\<close>: truncation towards zero.\<close>

definition high_watermark :: "int \<Rightarrow> int" where
  "high_watermark limit = (if 0 \<le> limit then 3 * limit div 4 else - (3 * (- limit) div 4))"

definition acquire :: "bool \<times> limiter \<Rightarrow> bool \<times> limiter" where
  "acquire ol = (case ol of (acquired, l) \<Rightarrow>
     if \<not> acquired
     then (True, l\<lparr>active_count := active_count l + 1, gauges := gauges l @ [active_count l + 1]\<rparr>)
     else (acquired, l))"

definition release :: "bool \<times> limiter \<Rightarrow> bool \<times> limiter" where
  "release ol = (case ol of (acquired, l) \<Rightarrow>
     if acquired
     then (False, l\<lparr>active_count := active_count l - 1, gauges := gauges l @ [active_count l - 1]\<rparr>)
     else (acquired, l))"

definition ActiveHandlersLimit :: "int \<Rightarrow> limiter \<Rightarrow> limiter_log \<times> bool \<times> limiter" where
  "ActiveHandlersLimit max_active_handlers l =
     (if active_count l > max_active_handlers then (Dropping (active_count l), False, l)
      else ((if active_count l > high_watermark max_active_handlers then Watermark (active_count l) else Quiet),
            acquire (False, l)))"

text \<open>The context manager \<open>request_limiter\<close>: what it yields, and its exit.\<close>

definition request_limiter_enter :: "int \<Rightarrow> limiter \<Rightarrow> (bool, 'r) integration_dto \<times> bool \<times> limiter" where
  "request_limiter_enter max_active_handlers l =
     (case ActiveHandlersLimit max_active_handlers l of (_, acquired, l) \<Rightarrow> (new_dto (Some acquired), acquired, l))"

definition request_limiter_exit :: "bool \<Rightarrow> limiter \<Rightarrow> limiter" where
  "request_limiter_exit acquired l = snd (release (acquired, l))"

subsection \<open>Requests in flight\<close>

text \<open>
  The requests of a worker come and go in any order; \<open>in_flight\<close> maps those inside the limiter's context
  to whether they acquired a slot.
\<close>

record limiter_system =
  limiter :: limiter
  in_flight :: "nat \<Rightarrow> bool option"

inductive limiter_step :: "int \<Rightarrow> limiter_system \<Rightarrow> limiter_system \<Rightarrow> bool" for limit :: int where
  enter: "in_flight s rid = None \<Longrightarrow> request_limiter_enter limit (limiter s) = (dto :: (bool, unit) integration_dto, acquired, l) \<Longrightarrow>
    limiter_step limit s (s\<lparr>limiter := l, in_flight := (in_flight s)(rid \<mapsto> acquired)\<rparr>)"
| leave: "in_flight s rid = Some acquired \<Longrightarrow>
    limiter_step limit s (s\<lparr>limiter := request_limiter_exit acquired (limiter s), in_flight := (in_flight s)(rid := None)\<rparr>)"

definition idle_limiter :: limiter_system where
  "idle_limiter = \<lparr>limiter = \<lparr>active_count = 0, gauges = []\<rparr>, in_flight = Map.empty\<rparr>"

definition holders :: "limiter_system \<Rightarrow> nat set" where
  "holders s = {rid. in_flight s rid = Some True}"

definition limiter_ok :: "int \<Rightarrow> limiter_system \<Rightarrow> bool" where
  "limiter_ok limit s \<longleftrightarrow> finite (holders s) \<and> active_count (limiter s) = int (card (holders s)) \<and>
     active_count (limiter s) \<le> limit + 1"

lemmas limiter_defs = request_limiter_enter_def request_limiter_exit_def ActiveHandlersLimit_def acquire_def release_def

lemma limiter_ok_step:
  assumes "limiter_step limit s s'" and "limiter_ok limit s"
  shows "limiter_ok limit s'"
  using assms
proof (induction rule: limiter_step.induct)
  case (enter s rid dto acquired l)
  have "holders (s\<lparr>limiter := l, in_flight := (in_flight s)(rid \<mapsto> acquired)\<rparr>) =
      (if acquired then insert rid (holders s) else holders s)" and "rid \<notin> holders s"
    using enter(1) by (auto simp: holders_def)
  with enter(2,3) show ?case by (auto simp: limiter_ok_def limiter_defs split: if_splits)
next
  case (leave s rid acquired)
  have h: "holders (s\<lparr>limiter := l, in_flight := (in_flight s)(rid := None)\<rparr>) = holders s - {rid}" for l
    by (auto simp: holders_def)
  have "acquired \<longleftrightarrow> rid \<in> holders s" using leave(1) by (auto simp: holders_def)
  with leave(2) have "int (card (holders s - {rid})) = int (card (holders s)) - (if acquired then 1 else 0)"
    using card.remove [of "holders s" rid] by (cases acquired) (auto simp: limiter_ok_def)
  with leave(2) show ?case
    by (auto simp: limiter_ok_def h limiter_defs)
qed

section \<open>Request ids\<close>

definition hex_digit :: "nat \<Rightarrow> char" where
  "hex_digit d = (if d < 10 then char_of (48 + d) else char_of (87 + d))"

text \<open>\<open>f'{n:017x}'\<close> for a number below \<open>16 ^ 17\<close>.\<close>

fun hex_padded :: "nat \<Rightarrow> nat \<Rightarrow> string" where
  "hex_padded 0 n = []"
| "hex_padded (Suc w) n = hex_padded w (n div 16) @ [hex_digit (n mod 16)]"

text \<open>\<open>stamp\<close> is the time in hundred-thousandths of a second and \<open>r\<close> the random number below \<open>16 ** 17\<close>.\<close>

definition generate_uniq_timestamp_request_id :: "nat \<Rightarrow> nat \<Rightarrow> string" where
  "generate_uniq_timestamp_request_id stamp r = nat_digits stamp @ hex_padded 17 r"

definition check_request_id :: "string \<Rightarrow> bool" where
  "check_request_id request_id \<longleftrightarrow> py_int 16 request_id \<noteq> None"

section \<open>The request context\<close>

text \<open>
  The context variable holds a reference to a mutable \<open>RequestContext\<close>, so contexts live in a store. A
  task created inside a request starts with a copy of its creator's variables: it shares the object.
\<close>

record request_context =
  request_id :: "string option"
  handler_name :: "string option"
  debug_log_handler :: "nat option"

record context_state =
  store :: "nat \<Rightarrow> request_context"
  next_context :: nat
  ctxvar :: "nat \<Rightarrow> nat"

definition new_request_context :: "string option \<Rightarrow> request_context" where
  "new_request_context rid = \<lparr>request_id = rid, handler_name = None, debug_log_handler = None\<rparr>"

definition initial_contexts :: context_state where
  "initial_contexts = \<lparr>store = (\<lambda>_. new_request_context None), next_context = 1, ctxvar = (\<lambda>_. 0)\<rparr>"

definition get_request_context :: "nat \<Rightarrow> context_state \<Rightarrow> request_context" where
  "get_request_context task s = store s (ctxvar s task)"

definition get_request_id :: "nat \<Rightarrow> context_state \<Rightarrow> string option" where
  "get_request_id task s = request_id (get_request_context task s)"

definition get_handler_name :: "nat \<Rightarrow> context_state \<Rightarrow> string option" where
  "get_handler_name task s = handler_name (get_request_context task s)"

definition modify_context :: "nat \<Rightarrow> (request_context \<Rightarrow> request_context) \<Rightarrow> context_state \<Rightarrow> context_state" where
  "modify_context task f s = s\<lparr>store := (store s)(ctxvar s task := f (store s (ctxvar s task)))\<rparr>"

text \<open>\<open>set_handler_name\<close>: module and function of an API route, the name of any other route.\<close>

definition set_handler_name :: "nat \<Rightarrow> bool \<Rightarrow> string \<times> string \<Rightarrow> context_state \<Rightarrow> context_state" where
  "set_handler_name task api_route endpoint s =
     modify_context task (\<lambda>c. c\<lparr>handler_name := Some (if api_route then fst endpoint @ ''.'' @ snd endpoint else snd endpoint)\<rparr>) s"

definition set_debug_log_handler :: "nat \<Rightarrow> nat \<Rightarrow> context_state \<Rightarrow> context_state" where
  "set_debug_log_handler task h s = modify_context task (\<lambda>c. c\<lparr>debug_log_handler := Some h\<rparr>) s"

definition get_debug_log_handler :: "nat \<Rightarrow> context_state \<Rightarrow> nat option" where
  "get_debug_log_handler task s = debug_log_handler (get_request_context task s)"

text \<open>
  \<open>request_context\<close>: the id of the request is its header, or a generated one; the check of
  \<open>validate_request_id\<close> only logs. The token of \<open>ContextVar.set\<close> is the old value.
\<close>

definition choose_request_id :: "string option \<Rightarrow> string \<Rightarrow> string" where
  "choose_request_id header generated = (case header of Some h \<Rightarrow> if h \<noteq> [] then h else generated | None \<Rightarrow> generated)"

definition request_context_enter :: "nat \<Rightarrow> string \<Rightarrow> context_state \<Rightarrow> nat \<times> context_state" where
  "request_context_enter task rid s =
     (ctxvar s task, s\<lparr>store := (store s)(next_context s := new_request_context (Some rid)),
        next_context := Suc (next_context s), ctxvar := (ctxvar s)(task := next_context s)\<rparr>)"

definition request_context_exit :: "nat \<Rightarrow> nat \<Rightarrow> context_state \<Rightarrow> context_state" where
  "request_context_exit task token s = s\<lparr>ctxvar := (ctxvar s)(task := token)\<rparr>"

definition create_task :: "nat \<Rightarrow> nat \<Rightarrow> context_state \<Rightarrow> context_state" where
  "create_task parent child s = s\<lparr>ctxvar := (ctxvar s)(child := ctxvar s parent)\<rparr>"

section \<open>Properties\<close>

text \<open>C13. The limiter's count is exact and bounded: for any arrivals and departures, the count equals the
  number of requests in flight that hold a slot, and it never exceeds the configured limit plus one.\<close>

theorem active_handlers_bounded:
  assumes "(limiter_step limit)\<^sup>*\<^sup>* idle_limiter s" and "0 \<le> limit"
  shows "active_count (limiter s) = int (card (holders s)) \<and> active_count (limiter s) \<le> limit + 1"
proof -
  have "limiter_ok limit idle_limiter" using assms(2) by (simp add: limiter_ok_def idle_limiter_def holders_def)
  with assms(1) have "limiter_ok limit s"
    by (induction rule: rtranclp_induct) (auto intro: limiter_ok_step)
  then show ?thesis by (simp add: limiter_ok_def)
qed

lemma limiter_fill:
  "int n \<le> limit + 1 \<Longrightarrow> \<exists>s. (limiter_step limit)\<^sup>*\<^sup>* idle_limiter s \<and> in_flight s = (\<lambda>i. if i < n then Some True else None) \<and>
     active_count (limiter s) = int n"
proof (induction n)
  case 0
  then show ?case by (auto simp: idle_limiter_def)
next
  case (Suc n)
  then obtain s where s: "(limiter_step limit)\<^sup>*\<^sup>* idle_limiter s" "in_flight s = (\<lambda>i. if i < n then Some True else None)"
    "active_count (limiter s) = int n" by auto
  obtain dto acquired l where e: "request_limiter_enter limit (limiter s) = (dto :: (bool, unit) integration_dto, acquired, l)"
    by (metis prod_cases3)
  have "acquired \<and> active_count l = int (Suc n)" using e s(3) Suc.prems by (auto simp: limiter_defs)
  moreover have "limiter_step limit s (s\<lparr>limiter := l, in_flight := (in_flight s)(n \<mapsto> acquired)\<rparr>)"
    by (rule limiter_step.enter [OF _ e]) (simp add: s(2))
  then have "(limiter_step limit)\<^sup>*\<^sup>* idle_limiter (s\<lparr>limiter := l, in_flight := (in_flight s)(n \<mapsto> acquired)\<rparr>)"
    by (rule rtranclp.rtrancl_into_rtrancl [OF s(1)])
  moreover have "(\<lambda>i. if i < n then Some True else None)(n \<mapsto> True) = (\<lambda>i. if i < Suc n then Some True else None)"
    by (auto simp: fun_eq_iff)
  ultimately show ?case
    using s(2) by (intro exI [of _ "s\<lparr>limiter := l, in_flight := (in_flight s)(n \<mapsto> acquired)\<rparr>"]) simp
qed

text \<open>The bound is attained: \<open>max_active_handlers + 1\<close> requests can hold a slot at once, and only the
  request after them is refused.\<close>

theorem limit_plus_one_admitted:
  assumes "0 \<le> limit"
  shows "\<exists>s. (limiter_step limit)\<^sup>*\<^sup>* idle_limiter s \<and> int (card (holders s)) = limit + 1 \<and>
    ActiveHandlersLimit limit (limiter s) = (Dropping (limit + 1), False, limiter s)"
proof -
  obtain s where s: "(limiter_step limit)\<^sup>*\<^sup>* idle_limiter s" "in_flight s = (\<lambda>i. if i < nat (limit + 1) then Some True else None)"
    "active_count (limiter s) = int (nat (limit + 1))" using limiter_fill [of "nat (limit + 1)" limit] assms by auto
  then have "holders s = {..<nat (limit + 1)}" by (auto simp: holders_def)
  with s assms show ?thesis by (intro exI [of _ s]) (simp add: ActiveHandlersLimit_def)
qed

lemma limiter_exit_undoes_enter:
  "request_limiter_enter limit l = (dto, acquired, l1) \<Longrightarrow>
   active_count (request_limiter_exit acquired l2) = active_count l2 - (active_count l1 - active_count l)"
  by (auto simp: limiter_defs split: if_splits)

definition hex_char :: "char \<Rightarrow> bool" where
  "hex_char c \<longleftrightarrow> (of_char c :: nat) \<in> {48..57} \<union> {97..102}"

lemma hex_char_digit: "hex_char c \<Longrightarrow> \<exists>d < 16. digit_value c = Some d"
  by (auto simp: hex_char_def digit_value_def)

lemma hex_char_plain: "hex_char c \<Longrightarrow> \<not> is_space c \<and> c \<notin> {CHR ''_'', CHR ''-'', CHR ''+'', CHR ''x'', CHR ''X''}"
  by (auto simp: hex_char_def is_space_def)

lemma parse_hex_chars:
  "list_all hex_char s \<Longrightarrow> after_digit \<or> s \<noteq> [] \<Longrightarrow> parse_digits 16 after_digit acc s \<noteq> None"
proof (induction s arbitrary: after_digit acc)
  case (Cons c s)
  then have "hex_char c" by simp
  from hex_char_digit [OF this] obtain d where "d < 16" "digit_value c = Some d" by blast
  moreover have "c \<noteq> CHR ''_''" using Cons.prems hex_char_plain by auto
  ultimately show ?case using Cons by simp
qed simp

lemma dropWhile_none: "list_all (\<lambda>c. \<not> P c) s \<Longrightarrow> dropWhile P s = s"
  by (cases s) auto

lemma strip_hex: "list_all hex_char s \<Longrightarrow> strip s = s"
proof -
  assume "list_all hex_char s"
  then have "list_all (\<lambda>c. \<not> is_space c) s" "list_all (\<lambda>c. \<not> is_space c) (rev s)"
    using hex_char_plain by (auto simp: list_all_iff)
  then show ?thesis by (simp add: strip_def dropWhile_none)
qed

lemma skip_prefix_hex: "list_all hex_char s \<Longrightarrow> skip_prefix 16 s = s"
proof -
  assume "list_all hex_char s"
  then have "CHR ''x'' \<notin> set (take 2 s)" "CHR ''X'' \<notin> set (take 2 s)"
    using hex_char_plain by (auto simp: list_all_iff dest!: in_set_takeD)
  then show ?thesis by (auto simp: skip_prefix_def)
qed

lemma hex_string_accepted: "list_all hex_char s \<Longrightarrow> s \<noteq> [] \<Longrightarrow> check_request_id s"
  using strip_hex [of s] skip_prefix_hex [of s] parse_hex_chars [of s False 0] hex_char_plain [of "hd s"]
  by (cases s) (auto simp: check_request_id_def py_int_def)

lemma hex_char_hex_digit: "d < 16 \<Longrightarrow> hex_char (hex_digit d)"
  by (auto simp: hex_char_def hex_digit_def of_char_of)

lemma hex_padded_chars: "list_all hex_char (hex_padded w n)"
  by (induction w arbitrary: n) (simp_all add: hex_char_hex_digit)

lemma nat_digits_chars: "list_all hex_char (nat_digits n)"
proof (induction n rule: nat_digits.induct)
  case (1 n)
  have "hex_char (char_of (48 + d :: nat))" if "d < 10" for d using that by (auto simp: hex_char_def of_char_of)
  with 1 show ?case by (subst nat_digits.simps) auto
qed

text \<open>Every request id the server generates passes its own validation.\<close>

theorem generated_request_id_valid:
  "check_request_id (generate_uniq_timestamp_request_id stamp r)"
proof (rule hex_string_accepted)
  show "list_all hex_char (generate_uniq_timestamp_request_id stamp r)"
    by (simp add: generate_uniq_timestamp_request_id_def nat_digits_chars hex_padded_chars)
  show "generate_uniq_timestamp_request_id stamp r \<noteq> []"
    by (simp add: generate_uniq_timestamp_request_id_def) (metis hex_padded.simps(2) append_is_Nil_conv list.distinct(1) numeral_eq_Suc)
qed

section \<open>Context managers\<close>

text \<open>
  The contract of a context manager on the part of the state it is responsible for: leaving undoes, on
  that part, what entering did. A body that keeps the part balanced therefore leaves no trace.
\<close>

locale context_manager =
  fixes enter :: "'s \<Rightarrow> 't \<times> 's"
    and leave :: "'t \<Rightarrow> 's \<Rightarrow> 's"
    and view :: "'s \<Rightarrow> 'v"
    and undo :: "'t \<Rightarrow> 'v \<Rightarrow> 'v"
  assumes leave_view: "view (leave t s) = undo t (view s)"
    and undo_enter: "enter s = (t, s1) \<Longrightarrow> undo t (view s1) = view s"
begin

lemma balanced: "enter s = (t, s1) \<Longrightarrow> view s2 = view s1 \<Longrightarrow> view (leave t s2) = view s"
  by (simp add: leave_view undo_enter)

end

interpretation slot: context_manager "\<lambda>l. snd (request_limiter_enter limit l)" request_limiter_exit active_count
  "\<lambda>acquired n. if acquired then n - 1 else n" for limit
  by unfold_locales (auto simp: limiter_defs split: if_splits)

interpretation ctx: context_manager "request_context_enter task rid" "request_context_exit task" "\<lambda>s. ctxvar s task"
  "\<lambda>token _. token" for task rid
  by unfold_locales (auto simp: request_context_enter_def request_context_exit_def)

section \<open>Isolation of request contexts\<close>

datatype context_op =
    EnterRequest nat string
  | ExitRequest nat nat
  | Spawn nat nat
  | SetHandler nat bool "string \<times> string"
  | SetDebug nat nat

fun run_context_op :: "context_op \<Rightarrow> context_state \<Rightarrow> context_state" where
  "run_context_op (EnterRequest task rid) s = snd (request_context_enter task rid s)"
| "run_context_op (ExitRequest task token) s = request_context_exit task token s"
| "run_context_op (Spawn parent child) s = create_task parent child s"
| "run_context_op (SetHandler task api e) s = set_handler_name task api e s"
| "run_context_op (SetDebug task h) s = set_debug_log_handler task h s"

fun rebinds :: "nat \<Rightarrow> context_op \<Rightarrow> bool" where
  "rebinds task (EnterRequest t _) = (t = task)"
| "rebinds task (ExitRequest t _) = (t = task)"
| "rebinds task (Spawn _ t) = (t = task)"
| "rebinds task _ = False"

lemma context_op_keeps:
  assumes "\<not> rebinds task op" and "ctxvar s task < next_context s"
  shows "ctxvar (run_context_op op s) task = ctxvar s task \<and> next_context s \<le> next_context (run_context_op op s) \<and>
    get_request_id task (run_context_op op s) = get_request_id task s"
  using assms
  by (cases op) (auto simp: request_context_enter_def request_context_exit_def create_task_def set_handler_name_def
      set_debug_log_handler_def modify_context_def get_request_id_def get_request_context_def)

lemma context_ops_keep:
  assumes "\<And>op. op \<in> set ops \<Longrightarrow> \<not> rebinds task op" and "ctxvar s task < next_context s"
  shows "ctxvar (fold run_context_op ops s) task = ctxvar s task \<and> get_request_id task (fold run_context_op ops s) = get_request_id task s"
  using assms
proof (induction ops arbitrary: s)
  case (Cons op ops)
  have nb: "\<not> rebinds task op" using Cons.prems(1) by simp
  have "ctxvar (run_context_op op s) task < next_context (run_context_op op s)"
    using context_op_keeps [OF nb Cons.prems(2)] Cons.prems(2) by simp
  with Cons.IH [of "run_context_op op s"] Cons.prems(1) context_op_keeps [OF nb Cons.prems(2)] show ?case by auto
qed simp

text \<open>C24. Requests are isolated: once a task has entered the context of its request, it reads that
  request's id whatever other tasks do to their contexts; the context object is shared with no task that
  existed before; a task it spawns sees the same id; and leaving restores what the task had before.\<close>

theorem request_context_isolated:
  assumes "\<And>t. ctxvar s t < next_context s"
    and "request_context_enter task rid s = (token, s1)"
    and "\<And>op. op \<in> set ops \<Longrightarrow> \<not> rebinds task op"
    and "s2 = fold run_context_op ops s1"
  shows "get_request_id task s2 = Some rid \<and>
    (\<forall>t. t \<noteq> task \<longrightarrow> ctxvar s1 t \<noteq> ctxvar s1 task \<and> get_request_context t (set_handler_name task api e s1) = get_request_context t s) \<and>
    get_request_id child (create_task task child s2) = Some rid \<and>
    ctxvar (request_context_exit task token s2) task = ctxvar s task"
proof -
  have s1: "ctxvar s1 task = next_context s" "next_context s1 = Suc (next_context s)" "get_request_id task s1 = Some rid"
    using assms(2) by (auto simp: request_context_enter_def get_request_id_def get_request_context_def new_request_context_def)
  have "ctxvar s1 task < next_context s1" using s1 by simp
  from context_ops_keep [OF assms(3) this] s1 assms(4)
  have s2: "ctxvar s2 task = ctxvar s1 task" "get_request_id task s2 = Some rid" by auto
  have other: "ctxvar s1 t \<noteq> ctxvar s1 task \<and> get_request_context t (set_handler_name task api e s1) = get_request_context t s"
    if "t \<noteq> task" for t
    using assms(1) [of t] assms(2) that
    by (auto simp: request_context_enter_def get_request_context_def set_handler_name_def modify_context_def)
  have "get_request_id child (create_task task child s2) = Some rid"
    using s2(2) by (simp add: create_task_def get_request_id_def get_request_context_def)
  with s2 other ctx.balanced [OF assms(2) s2(1)] show ?thesis by blast
qed

section \<open>Concrete requests\<close>

theorem active_handlers_bounded_witness:
  "\<exists>s. (limiter_step 0)\<^sup>*\<^sup>* idle_limiter s \<and> holders s = {0} \<and>
     active_count (limiter s) = int (card (holders s)) \<and> active_count (limiter s) \<le> 0 + 1"
proof -
  obtain s where s: "(limiter_step 0)\<^sup>*\<^sup>* idle_limiter s" "in_flight s = (\<lambda>i. if i < 1 then Some True else None)"
    using limiter_fill [of 1 0] by auto
  moreover have "holders s = {0}" using s(2) by (auto simp: holders_def split: if_splits)
  ultimately show ?thesis using active_handlers_bounded [OF s(1)] by auto
qed

theorem limit_plus_one_admitted_witness:
  "\<exists>s. (limiter_step 100)\<^sup>*\<^sup>* idle_limiter s \<and> int (card (holders s)) = 100 + 1 \<and>
    ActiveHandlersLimit 100 (limiter s) = (Dropping (100 + 1), False, limiter s)"
  by (rule limit_plus_one_admitted) simp

theorem request_context_isolated_witness:
  "get_request_id 1 (fold run_context_op [EnterRequest 2 ''b'', SetHandler 2 True (''pages'', ''get'')]
     (snd (request_context_enter 1 ''a'' initial_contexts))) = Some ''a''"
proof -
  let ?ops = "[EnterRequest 2 ''b'', SetHandler 2 True (''pages'', ''get'')]"
  obtain token s1 where e: "request_context_enter 1 ''a'' initial_contexts = (token, s1)" by force
  have "ctxvar initial_contexts t < next_context initial_contexts" for t by (simp add: initial_contexts_def)
  moreover have "\<not> rebinds 1 op" if "op \<in> set ?ops" for op using that by auto
  ultimately have "get_request_id 1 (fold run_context_op ?ops s1) = Some ''a''"
    using request_context_isolated [OF _ e _ refl, of ?ops] by blast
  then show ?thesis unfolding e by (simp only: snd_conv)
qed

end
