(* ===== verification/Debug_Auth.thy ===== *)
theory Debug_Auth
  imports Integrations
begin

text \<open>
  Access to the debug mode: \<open>frontik/auth.py\<close>, the class \<open>DebugMode\<close> of \<open>frontik/debug.py\<close>,
  \<open>get_cookie_or_param_from_request\<close> of \<open>frontik/util\<close> and \<open>make_debug_mode\<close> of
  \<open>frontik/handler_asgi.py\<close>. Byte strings and text are both \<^typ>\<open>string\<close>; decoding bytes as UTF-8 is
  the parameter \<open>to_unicode\<close> (\<open>None\<close> where it raises). \<open>base64.b64decode\<close> is modelled as the
  interpreter's non-strict decoder works: characters outside the alphabet are skipped, and a complete
  padding ends the input.
\<close>

section \<open>Base 64\<close>

definition b64_char :: "nat \<Rightarrow> char" where
  "b64_char n =
     (if n < 26 then char_of (65 + n) else if n < 52 then char_of (71 + n)
      else if n < 62 then char_of (n - 4) else if n = 62 then CHR ''+'' else CHR ''/'')"

definition b64_value :: "char \<Rightarrow> nat option" where
  "b64_value c = (let n = (of_char c :: nat) in
     if 65 \<le> n \<and> n \<le> 90 then Some (n - 65)
     else if 97 \<le> n \<and> n \<le> 122 then Some (n - 71)
     else if 48 \<le> n \<and> n \<le> 57 then Some (n + 4)
     else if n = 43 then Some 62
     else if n = 47 then Some 63
     else None)"

fun b64encode :: "string \<Rightarrow> string" where
  "b64encode [] = []"
| "b64encode [a] = (let x = of_char a in [b64_char (x div 4), b64_char (x mod 4 * 16), CHR ''='', CHR ''=''])"
| "b64encode [a, b] = (let x = of_char a; y = of_char b in
     [b64_char (x div 4), b64_char (x mod 4 * 16 + y div 16), b64_char (y mod 16 * 4), CHR ''=''])"
| "b64encode (a # b # c # s) = (let x = of_char a; y = of_char b; z = of_char c in
     b64_char (x div 4) # b64_char (x mod 4 * 16 + y div 16) # b64_char (y mod 16 * 4 + z div 64) # b64_char (z mod 64) #
     b64encode s)"

text \<open>The decoder's loop: position in the group of four, the bits left over, the padding seen.\<close>

fun b64_loop :: "nat \<Rightarrow> nat \<Rightarrow> nat \<Rightarrow> string \<Rightarrow> string option" where
  "b64_loop quad left_bits pads [] = (if quad = 0 then Some [] else None)"
| "b64_loop quad left_bits pads (c # s) =
     (if c = CHR ''='' then
        (if 2 \<le> quad then (if 4 \<le> quad + Suc pads then Some [] else b64_loop quad left_bits (Suc pads) s)
         else b64_loop quad left_bits pads s)
      else case b64_value c of
        None \<Rightarrow> b64_loop quad left_bits pads s
      | Some v \<Rightarrow>
         (if quad = 0 then b64_loop 1 v 0 s
          else if quad = 1 then map_option ((#) (char_of (left_bits * 4 + v div 16))) (b64_loop 2 (v mod 16) 0 s)
          else if quad = 2 then map_option ((#) (char_of (left_bits * 16 + v div 4))) (b64_loop 3 (v mod 4) 0 s)
          else map_option ((#) (char_of (left_bits * 64 + v))) (b64_loop 0 0 0 s)))"

definition b64decode :: "string \<Rightarrow> string option" where
  "b64decode s = b64_loop 0 0 0 s"

lemma b64_value_char [simp]: "n < 64 \<Longrightarrow> b64_value (b64_char n) = Some n"
  by (auto simp: b64_char_def b64_value_def Let_def of_char_of)

lemma b64_char_not_pad: "n < 64 \<Longrightarrow> b64_char n \<noteq> CHR ''=''"
  by (auto simp: b64_char_def of_char_of dest: arg_cong [of _ _ "of_char :: char \<Rightarrow> nat"])

lemma byte_bound: "(of_char c :: nat) < 256"
  by (metis mod_less_divisor of_char_mod_256 zero_less_numeral)

lemma b64_step:
  assumes "n < 64"
  shows "b64_loop 0 l p (b64_char n # s) = b64_loop 1 n 0 s"
    and "b64_loop 1 l p (b64_char n # s) = map_option ((#) (char_of (l * 4 + n div 16))) (b64_loop 2 (n mod 16) 0 s)"
    and "b64_loop 2 l p (b64_char n # s) = map_option ((#) (char_of (l * 16 + n div 4))) (b64_loop 3 (n mod 4) 0 s)"
    and "b64_loop 3 l p (b64_char n # s) = map_option ((#) (char_of (l * 64 + n))) (b64_loop 0 0 0 s)"
  using assms by (simp_all add: b64_char_not_pad)

lemma b64_range:
  "x < 256 \<Longrightarrow> x div 4 < (64 :: nat)" "x mod 4 * 16 < (64 :: nat)"
  "y < 256 \<Longrightarrow> x mod 4 * 16 + y div 16 < (64 :: nat)" "y mod 16 * 4 < (64 :: nat)"
  "z < 256 \<Longrightarrow> y mod 16 * 4 + z div 64 < (64 :: nat)" "z mod 64 < (64 :: nat)"
proof -
  show "y < 256 \<Longrightarrow> x mod 4 * 16 + y div 16 < (64 :: nat)"
    using mod_less_divisor [of 4 x] div_less_iff_less_mult [of 16 y 16] by simp
  show "z < 256 \<Longrightarrow> y mod 16 * 4 + z div 64 < (64 :: nat)"
    using mod_less_divisor [of 16 y] div_less_iff_less_mult [of 64 z 4] by simp
qed auto

lemma b64_join:
  fixes x y z :: nat
  assumes "y < 256" and "z < 256"
  shows "x div 4 * 4 + x mod 4 * 16 div 16 = x"
    and "x div 4 * 4 + (x mod 4 * 16 + y div 16) div 16 = x"
    and "(x mod 4 * 16 + y div 16) mod 16 * 16 + y mod 16 * 4 div 4 = y"
    and "(x mod 4 * 16 + y div 16) mod 16 * 16 + (y mod 16 * 4 + z div 64) div 4 = y"
    and "(y mod 16 * 4 + z div 64) mod 4 * 64 + z mod 64 = z"
proof -
  have "y div 16 < 16" "z div 64 < 4" using assms by (simp_all add: div_less_iff_less_mult)
  then show "x div 4 * 4 + (x mod 4 * 16 + y div 16) div 16 = x"
    "(x mod 4 * 16 + y div 16) mod 16 * 16 + y mod 16 * 4 div 4 = y"
    "(x mod 4 * 16 + y div 16) mod 16 * 16 + (y mod 16 * 4 + z div 64) div 4 = y"
    "(y mod 16 * 4 + z div 64) mod 4 * 64 + z mod 64 = z" by simp_all
qed simp

lemma b64decode_encode: "b64decode (b64encode s) = Some s"
  unfolding b64decode_def
proof (induction s rule: b64encode.induct)
  case (2 a)
  show ?case
    by (simp only: b64encode.simps Let_def b64_step [OF b64_range(1) [OF byte_bound]] b64_step [OF b64_range(2)]
        b64_join(1) [of 0 0] char_of_char) simp
next
  case (3 a b)
  show ?case
    by (simp only: b64encode.simps Let_def b64_step [OF b64_range(1) [OF byte_bound]] b64_step [OF b64_range(3) [OF byte_bound]]
        b64_step [OF b64_range(4)] b64_join(2,3) [OF byte_bound byte_bound] char_of_char) simp
next
  case (4 a b c s)
  show ?case
    by (simp only: b64encode.simps Let_def b64_step [OF b64_range(1) [OF byte_bound]] b64_step [OF b64_range(3) [OF byte_bound]]
        b64_step [OF b64_range(5) [OF byte_bound]] b64_step [OF b64_range(6)] b64_join(2,4,5) [OF byte_bound byte_bound]
        char_of_char 4 option.map)
qed simp

lemma b64_no_space: "CHR '' '' \<notin> set (b64encode s)"
proof -
  have "b64_char n \<noteq> CHR '' ''" if "n < 64" for n
    using b64_value_char [OF that] by (auto simp: b64_value_def Let_def)
  then show ?thesis
    by (induction s rule: b64encode.induct) (simp_all add: Let_def byte_bound b64_range not_sym)
qed

section \<open>Credentials\<close>

definition DEBUG_AUTH_HEADER_NAME :: string where
  "DEBUG_AUTH_HEADER_NAME = ''Frontik-Debug-Auth''"

definition DEBUG_HEADER_NAME :: string where
  "DEBUG_HEADER_NAME = ''X-Hh-Debug''"

text \<open>
  \<open>passed_basic_auth\<close>. The header is text; \<open>b64decode\<close> and the decoding of the result raise
  \<open>ValueError\<close>, which is caught, while unpacking the split header raises it outside the \<open>try\<close>.
\<close>

definition passed_basic_auth ::
    "(string \<Rightarrow> string option) \<Rightarrow> string option \<Rightarrow> string option \<Rightarrow> string option \<Rightarrow> bool py" where
  "passed_basic_auth to_unicode auth_header login passwd =
     (case auth_header of
        None \<Rightarrow> Inr False
      | Some h \<Rightarrow>
         (if \<not> starts_with h ''Basic '' then Inr False
          else case split_on CHR '' '' h of
            [meth, auth_b64] \<Rightarrow>
              (case Option.bind (b64decode auth_b64) to_unicode of
                 None \<Rightarrow> Inr False
               | Some decoded_value \<Rightarrow>
                  (case partition_at CHR '':'' decoded_value of
                     (given_login, _, given_passwd) \<Rightarrow> Inr (login = Some given_login \<and> passwd = Some given_passwd)))
          | _ \<Rightarrow> Inl ValueError))"

text \<open>
  \<open>check_debug_auth_by_headers\<close>, with \<open>headers.get\<close> as a function; the result is the value of
  \<open>WWW-Authenticate\<close> for a refusal.
\<close>

definition check_debug_auth_by_headers ::
    "(string \<Rightarrow> string option) \<Rightarrow> (string \<Rightarrow> string option) \<Rightarrow> string option \<Rightarrow> string option \<Rightarrow> string option py" where
  "check_debug_auth_by_headers to_unicode headers login password =
     (case headers DEBUG_AUTH_HEADER_NAME of
        Some h \<Rightarrow>
          if h = str_of_opt login @ '':'' @ str_of_opt password then Inr None
          else Inr (Some (DEBUG_AUTH_HEADER_NAME @ ''-Header realm=\"Secure Area\"''))
      | None \<Rightarrow>
          py_bind (passed_basic_auth to_unicode (headers ''Authorization'') login password) (\<lambda>debug_access.
            if debug_access then Inr None else Inr (Some ''Basic realm=\"Secure Area\"'')))"

definition check_debug_auth ::
    "(string \<Rightarrow> string option) \<Rightarrow> (string \<Rightarrow> string option) \<Rightarrow> string option \<Rightarrow> string option \<Rightarrow> string option py" where
  "check_debug_auth to_unicode headers login password = check_debug_auth_by_headers to_unicode headers login password"

section \<open>The debug mode of a request\<close>

record web_request =
  query_arguments :: "(string, string list) dict"
  cookies :: "(string, string) dict"
  header_get :: "string \<Rightarrow> string option"

definition get_cookie_or_param_from_request ::
    "(string \<Rightarrow> string option) \<Rightarrow> web_request \<Rightarrow> string \<Rightarrow> string option py" where
  "get_cookie_or_param_from_request decode req param_name =
     (case dict_get (query_arguments req) param_name of
        Some (q # qs) \<Rightarrow> (case decode (last (q # qs)) of Some v \<Rightarrow> Inr (Some v) | None \<Rightarrow> Inl ValueError)
      | _ \<Rightarrow> Inr (dict_get (cookies req) param_name))"

record debug_mode =
  debug_value :: "string option"
  notpl :: "string option"
  notrl :: "string option"
  noxsl :: "string option"
  mode_values :: "string list"
  inherited :: "string option"
  pass_debug :: bool
  enabled :: bool
  debug_response :: bool
  profile_xslt :: bool
  failed_auth_headers :: "string option"
  need_auth :: bool
  auth_failed :: "bool option"
  log_handler_set :: bool

definition new_debug_mode :: "(string \<Rightarrow> string option) \<Rightarrow> web_request \<Rightarrow> debug_mode py" where
  "new_debug_mode decode req =
     py_bind (get_cookie_or_param_from_request decode req ''debug'') (\<lambda>dbg.
     py_bind (get_cookie_or_param_from_request decode req ''notpl'') (\<lambda>tpl.
     py_bind (get_cookie_or_param_from_request decode req ''notrl'') (\<lambda>trl.
     py_bind (get_cookie_or_param_from_request decode req ''noxsl'') (\<lambda>xsl.
     let inh = header_get req DEBUG_HEADER_NAME
     in Inr \<lparr>debug_value = dbg, notpl = tpl, notrl = trl, noxsl = xsl,
          mode_values = (case dbg of Some v \<Rightarrow> split_on CHR '','' v | None \<Rightarrow> []), inherited = inh,
          pass_debug = False, enabled = False, debug_response = False, profile_xslt = False, failed_auth_headers = None,
          need_auth = (dbg \<noteq> None \<or> truthy inh \<or> tpl \<noteq> None \<or> trl \<noteq> None \<or> xsl \<noteq> None),
          auth_failed = None, log_handler_set = False\<rparr>))))"

definition on_auth_ok :: "debug_mode \<Rightarrow> debug_mode" where
  "on_auth_ok dm = dm
     \<lparr>debug_response := debug_value dm \<noteq> None \<or> truthy (inherited dm), enabled := True,
      pass_debug := ''nopass'' \<notin> set (mode_values dm) \<or> truthy (inherited dm),
      profile_xslt := ''xslt'' \<in> set (mode_values dm), log_handler_set := True\<rparr>"

text \<open>\<open>option_debug\<close>, \<open>login\<close> and \<open>password\<close> are the options \<open>debug\<close>, \<open>debug_login\<close>, \<open>debug_password\<close>.\<close>

definition require_debug_access ::
    "(string \<Rightarrow> string option) \<Rightarrow> bool \<Rightarrow> string option \<Rightarrow> string option \<Rightarrow> (string \<Rightarrow> string option) \<Rightarrow> bool option \<Rightarrow>
     debug_mode \<Rightarrow> debug_mode py" where
  "require_debug_access to_unicode option_debug login password headers given dm =
     (if given = Some True then Inr (dm\<lparr>auth_failed := Some True\<rparr>)
      else if option_debug \<or> given = Some False then Inr (on_auth_ok (dm\<lparr>auth_failed := Some False\<rparr>))
      else py_bind (check_debug_auth to_unicode headers login password) (\<lambda>failed.
        case failed of
          None \<Rightarrow> Inr (on_auth_ok (dm\<lparr>failed_auth_headers := None, auth_failed := Some False\<rparr>))
        | Some h \<Rightarrow> Inr (dm\<lparr>failed_auth_headers := Some h, auth_failed := Some True\<rparr>)))"

text \<open>\<open>make_debug_mode\<close>; an application may bring its own \<open>require_debug_access\<close>.\<close>

definition make_debug_mode ::
    "(string \<Rightarrow> string option) \<Rightarrow> bool \<Rightarrow> string option \<Rightarrow> string option \<Rightarrow>
     (debug_mode \<Rightarrow> (string \<Rightarrow> string option) \<Rightarrow> (string, string) dict \<Rightarrow> debug_mode py) option \<Rightarrow>
     web_request \<Rightarrow> debug_mode py" where
  "make_debug_mode to_unicode option_debug login password app_access req =
     py_bind (new_debug_mode to_unicode req) (\<lambda>dm.
       if \<not> need_auth dm then Inr dm
       else case app_access of
         Some access \<Rightarrow> access dm (header_get req) (cookies req)
       | None \<Rightarrow> require_debug_access to_unicode option_debug login password (header_get req) None dm)"

lemma split_basic:
  "split_on CHR '' '' (''Basic '' @ b64encode s) = [''Basic'', b64encode s]"
  using split_on_no_sep [OF b64_no_space [of s]] by simp

lemma basic_auth_decoded:
  "passed_basic_auth to_unicode (Some (''Basic '' @ b64encode s)) login passwd =
     Inr (case to_unicode s of
        None \<Rightarrow> False
      | Some v \<Rightarrow> (case partition_at CHR '':'' v of (l, _, p) \<Rightarrow> login = Some l \<and> passwd = Some p))"
  using split_basic [of s]
  by (simp add: passed_basic_auth_def starts_with_def b64decode_encode split: option.split prod.split)

section \<open>Properties\<close>

text \<open>Basic authentication is exact: a client that encodes a login and password in the standard way
  gets access if and only if they are the configured ones (a login holds no colon). The text has to
  survive its own encoding, as UTF-8 text does.\<close>

theorem basic_auth_exact:
  assumes "to_unicode (l @ '':'' @ p) = Some (l @ '':'' @ p)" and "CHR '':'' \<notin> set l"
  shows "passed_basic_auth to_unicode (Some (''Basic '' @ b64encode (l @ '':'' @ p))) login passwd =
    Inr (login = Some l \<and> passwd = Some p)"
  unfolding basic_auth_decoded using assms partition_at_found [OF assms(2), of p] by simp


text \<open>With no debug login and password configured, access is not closed: a request with the header
  \<open>Frontik-Debug-Auth: None:None\<close> is granted the debug mode.\<close>

theorem unset_credentials_open_debug:
  assumes "header_get req DEBUG_AUTH_HEADER_NAME = Some ''None:None''"
    and "new_debug_mode to_unicode req = Inr dm" and "need_auth dm"
  shows "\<exists>dm'. make_debug_mode to_unicode False None None None req = Inr dm' \<and> auth_failed dm' = Some False \<and> enabled dm'"
  using assms
  by (simp add: make_debug_mode_def require_debug_access_def check_debug_auth_def check_debug_auth_by_headers_def
      str_of_opt_def on_auth_ok_def)

text \<open>A basic authentication header whose credentials hold a space is not refused but makes the check
  raise \<open>ValueError\<close>, so the request fails instead of getting a 401 response.\<close>

theorem spaced_basic_header_raises:
  assumes "headers DEBUG_AUTH_HEADER_NAME = None" and "headers ''Authorization'' = Some (''Basic '' @ a @ '' '' @ b)"
    and "CHR '' '' \<notin> set a"
  shows "require_debug_access to_unicode False login password headers None dm = Inl ValueError"
proof -
  obtain w ws where ws: "split_on CHR '' '' b = w # ws" by (meson list.exhaust split_on_not_Nil)
  have "split_on CHR '' '' (''Basic '' @ a @ '' '' @ b) = ''Basic'' # a # w # ws"
    using split_on_append_sep [OF assms(3), of b] ws by simp
  then show ?thesis
    using assms by (simp add: require_debug_access_def check_debug_auth_def check_debug_auth_by_headers_def
        passed_basic_auth_def starts_with_def)
qed

section \<open>Concrete requests\<close>

definition demo_request :: "(string \<times> string) list \<Rightarrow> web_request" where
  "demo_request hs = \<lparr>query_arguments = [(''debug'', [''full''])], cookies = [], header_get = map_of hs\<rparr>"

theorem basic_auth_exact_witness:
  "passed_basic_auth Some (Some (''Basic '' @ b64encode (''user'' @ '':'' @ ''g:d''))) (Some ''user'') (Some ''g:d'') =
   Inr (Some ''user'' = Some ''user'' \<and> Some ''g:d'' = Some ''g:d'')"
  by (rule basic_auth_exact) simp_all

definition demo_debug_mode :: debug_mode where
  "demo_debug_mode = \<lparr>debug_value = Some ''full'', notpl = None, notrl = None, noxsl = None, mode_values = [''full''],
     inherited = None, pass_debug = False, enabled = False, debug_response = False, profile_xslt = False,
     failed_auth_headers = None, need_auth = True, auth_failed = None, log_handler_set = False\<rparr>"

lemma demo_debug_mode_of_request: "new_debug_mode Some (demo_request hs) =
    Inr (demo_debug_mode\<lparr>inherited := map_of hs DEBUG_HEADER_NAME\<rparr>)"
  by (simp add: new_debug_mode_def get_cookie_or_param_from_request_def demo_request_def demo_debug_mode_def dict_get_def)


theorem unset_credentials_open_debug_witness:
  "\<exists>dm'. make_debug_mode Some False None None None (demo_request [(DEBUG_AUTH_HEADER_NAME, ''None:None'')]) = Inr dm' \<and>
     auth_failed dm' = Some False \<and> enabled dm'"
  by (rule unset_credentials_open_debug [OF _ demo_debug_mode_of_request]) (simp_all add: demo_request_def demo_debug_mode_def)

theorem spaced_basic_header_raises_witness:
  "require_debug_access Some False (Some ''user'') (Some ''god'') (map_of [(''Authorization'', ''Basic a b'')]) None demo_debug_mode =
   Inl ValueError"
  by (rule spaced_basic_header_raises [of _ "''a''" "''b''"]) (simp_all add: DEBUG_AUTH_HEADER_NAME_def)

end
