(* ===== verification/Handler.thy ===== *)
theory Handler
  imports Routing Debug_Auth
begin

text \<open>
  Serving one request (\<open>frontik/handler_asgi.py\<close>, \<open>frontik_response.py\<close>, \<open>tornado_request.py\<close>,
  \<open>tornado_connection_handler.py\<close>, and \<open>DebugTransform\<close> of \<open>debug.py\<close> without the document it renders).
  The page is a program that receives body chunks and sends messages; it is an argument, since pages and
  FastAPI are not part of the server. The result is what reaches the connection, as the list of calls on
  it. Response headers are kept as the list of calls on \<open>HTTPHeaders\<close>.
\<close>

section \<open>Requests and responses\<close>

datatype chunk = Data string | EOF

record tornado_request =
  tr_method :: string
  tr_path :: string
  tr_version :: string
  tr_query :: string
  tr_headers :: "(string \<times> string) list"
  tr_remote_ip :: string
  web :: web_request
  body_chunks :: "chunk list"
  finished :: bool
  canceled :: bool
  response_done :: bool
  tr_request_id :: "string option"
  tr_handler_name :: "string option"
  path_format :: "string option"

datatype header_call = AddHeader string string | SetHeader string string

record response =
  status_code :: int
  resp_headers :: "header_call list"
  resp_body :: string
  resp_reason :: "string option"
  headers_written :: bool

definition frontik_version :: string where
  "frontik_version = ''11.0.5''"

definition CLIENT_CLOSED_REQUEST :: int where
  "CLIENT_CLOSED_REQUEST = 499"

text \<open>
  \<open>FrontikResponse(...)\<close>: \<open>rid\<close> is the given request id or the one of the request context, empty
  without either. Headers from a mapping replace, headers from \<open>HTTPHeaders\<close> add.
\<close>

definition FrontikResponse :: "int \<Rightarrow> header_call list \<Rightarrow> string \<Rightarrow> string \<Rightarrow> response" where
  "FrontikResponse status headers body rid =
     \<lparr>status_code = status,
      resp_headers = [SetHeader ''Server'' (''Frontik/'' @ frontik_version), SetHeader ''X-Request-Id'' rid] @ headers,
      resp_body = body, resp_reason = None, headers_written = False\<rparr>"

text \<open>The reason phrase; the table of phrases is an argument (it holds codes of \<open>http_client\<close>).\<close>

definition reason :: "(int \<Rightarrow> string option) \<Rightarrow> response \<Rightarrow> string" where
  "reason phrases r =
     (case resp_reason r of
        Some s \<Rightarrow> if s \<noteq> [] then s else (case phrases (status_code r) of Some p \<Rightarrow> p | None \<Rightarrow> ''Unknown'')
      | None \<Rightarrow> (case phrases (status_code r) of Some p \<Rightarrow> p | None \<Rightarrow> ''Unknown''))"

section \<open>The connection\<close>

datatype conn_call = WriteHeaders int string "header_call list" string | Write string | Finish

text \<open>What the server depends on from outside: whether the next call on the connection succeeds (as a
  function of the calls made), the reason phrases, decoding of header bytes.\<close>

record env =
  conn_open :: "conn_call list \<Rightarrow> bool"
  phrases :: "int \<Rightarrow> string option"
  decode_header :: "string \<Rightarrow> string option"

datatype noted = NotNoted | NotedPage | NotedClosed

record exchange =
  req :: tornado_request
  resp :: response
  conn :: "conn_call list"
  noted :: noted

definition write_start_line :: "env \<Rightarrow> string \<Rightarrow> exchange \<Rightarrow> exchange" where
  "write_start_line env body_chunk x =
     (let body_chunk = (if tr_method (req x) = ''HEAD'' then [] else body_chunk)
      in if conn_open env (conn x)
         then x\<lparr>conn := conn x @ [WriteHeaders (status_code (resp x)) (reason (phrases env) (resp x)) (resp_headers (resp x)) body_chunk]\<rparr>
         else x\<lparr>resp := (resp x)\<lparr>status_code := CLIENT_CLOSED_REQUEST\<rparr>\<rparr>)"

section \<open>The page\<close>

datatype receive_message = Disconnect | RequestBody chunk bool

definition receive :: "tornado_request \<Rightarrow> (receive_message \<times> tornado_request) option" where
  "receive r =
     (case body_chunks r of
        [] \<Rightarrow> None
      | c # cs \<Rightarrow>
         (let r = r\<lparr>body_chunks := cs\<rparr>
          in Some (if canceled r then Disconnect
                   else if finished r \<and> c = EOF then RequestBody (Data []) False
                   else RequestBody c (\<not> finished r \<or> c \<noteq> EOF), r)))"

datatype asgi_message =
    ResponseStart int "string list list"
  | ResponseBody "string option" "bool option"
  | OtherMessage string

fun add_headers :: "env \<Rightarrow> string list list \<Rightarrow> response \<Rightarrow> py_exc option \<times> response" where
  "add_headers env [] r = (None, r)"
| "add_headers env (h # hs) r =
     (case h of
        [k, v] \<Rightarrow>
          (case (decode_header env k, decode_header env v) of
             (Some k, Some v) \<Rightarrow> add_headers env hs (r\<lparr>resp_headers := resp_headers r @ [AddHeader k v]\<rparr>)
           | _ \<Rightarrow> (Some ValueError, r))
      | _ \<Rightarrow> add_headers env hs r)"

definition send :: "env \<Rightarrow> bool \<Rightarrow> asgi_message \<Rightarrow> exchange \<Rightarrow> py_exc option \<times> exchange" where
  "send env debug msg x =
     (case msg of
        ResponseStart status headers \<Rightarrow>
          (case add_headers env headers ((resp x)\<lparr>status_code := status\<rparr>) of (e, r) \<Rightarrow> (e, x\<lparr>resp := r\<rparr>))
      | ResponseBody None _ \<Rightarrow> (Some KeyError, x)
      | ResponseBody (Some body_chunk) more_body \<Rightarrow>
          (if debug then (None, x\<lparr>resp := (resp x)\<lparr>resp_body := resp_body (resp x) @ body_chunk\<rparr>\<rparr>)
           else if \<not> headers_written (resp x) then
             (let x = write_start_line env body_chunk (x\<lparr>noted := NotedPage\<rparr>)
              in (None, x\<lparr>resp := (resp x)\<lparr>headers_written := True\<rparr>\<rparr>))
           else if body_chunk = [] \<and> more_body = None then (Some KeyError, x)
           else if body_chunk = [] \<and> more_body = Some False then (None, x\<lparr>req := (req x)\<lparr>response_done := True\<rparr>\<rparr>)
           else if conn_open env (conn x) then (None, x\<lparr>conn := conn x @ [Write body_chunk]\<rparr>)
           else (Some (PyException ''StreamClosedError''), x))
      | OtherMessage kind \<Rightarrow> (Some (RuntimeError (''Unsupported response type \"'' @ kind @ ''\" for asgi app'')), x))"

text \<open>A page: it receives, sends (and sees whether that raised), returns or raises.\<close>

datatype page =
    Return
  | Raise
  | Receive "receive_message \<Rightarrow> page"
  | Send asgi_message "py_exc option \<Rightarrow> page"

text \<open>The callback for a connection closed by the client: true when it cancels the task.\<close>

definition on_connection_close :: "exchange \<Rightarrow> bool \<times> exchange" where
  "on_connection_close x =
     (if response_done (req x) then (False, x)
      else (True, x\<lparr>req := (req x)\<lparr>canceled := True\<rparr>, noted := NotedClosed\<rparr>))"

datatype page_end = Completed | Waiting | Cancelled

text \<open>
  Running a page; the client may close the connection before one of its steps (\<open>close_in\<close>). Exceptions
  of the page are swallowed. \<open>Waiting\<close>: the page waits for a chunk that has not arrived.
\<close>

primrec run_page :: "env \<Rightarrow> bool \<Rightarrow> page \<Rightarrow> nat option \<Rightarrow> exchange \<Rightarrow> page_end \<times> exchange" where
  "run_page env debug Return close_in x = (Completed, x)"
| "run_page env debug Raise close_in x = (Completed, x)"
| "run_page env debug (Receive k) close_in x =
     (case (if close_in = Some 0 then on_connection_close x else (False, x)) of
        (True, x) \<Rightarrow> (Cancelled, x)
      | (False, x) \<Rightarrow>
          (case receive (req x) of
             None \<Rightarrow> (Waiting, x)
           | Some (msg, r) \<Rightarrow> run_page env debug (k msg) (map_option (\<lambda>n. n - 1) close_in) (x\<lparr>req := r\<rparr>)))"
| "run_page env debug (Send msg k) close_in x =
     (case (if close_in = Some 0 then on_connection_close x else (False, x)) of
        (True, x) \<Rightarrow> (Cancelled, x)
      | (False, x) \<Rightarrow>
          (case send env debug msg x of
             (e, x) \<Rightarrow> run_page env debug (k e) (map_option (\<lambda>n. n - 1) close_in) x))"

section \<open>Processing a request\<close>

text \<open>The ASGI scope a page gets: the scope of the route lookup and what \<open>execute_asgi_page\<close> adds.\<close>

record 'c page_scope =
  ps_route :: "'c scope"
  ps_http_version :: string
  ps_query_string :: string
  ps_headers :: "(string \<times> string) list"
  ps_client :: string
  ps_debug_mode :: debug_mode
  ps_request_id :: "string option"

text \<open>
  The application and its configuration: options, FastAPI's route matching, the pages, an optional
  \<open>require_debug_access\<close> of the application, lookup in \<open>HTTPHeaders\<close>, the \<open>import_route\<close> of the route manager
  where the application has one (it imports a page, which may raise), and the document the debug
  transform renders from a response, which fails where lxml refuses a text.
\<close>

record 'c application =
  max_active_handlers :: int
  to_unicode :: "string \<Rightarrow> string option"
  option_debug :: bool
  debug_login :: "string option"
  debug_password :: "string option"
  app_access :: "(debug_mode \<Rightarrow> (string \<Rightarrow> string option) \<Rightarrow> (string, string) dict \<Rightarrow> debug_mode py) option"
  route_matcher :: "'c matcher"
  import_route :: "(string \<Rightarrow> string \<Rightarrow> routing \<Rightarrow> py_exc option \<times> routing) option"
  pages :: "'c page_scope \<Rightarrow> page"
  header_lookup :: "header_call list \<Rightarrow> string \<Rightarrow> string option"
  debug_document :: "response \<Rightarrow> string py"

record server =
  limit_state :: limiter
  contexts :: context_state
  routes :: routing

definition current_rid :: "nat \<Rightarrow> context_state \<Rightarrow> string" where
  "current_rid task cs = (case get_request_id task cs of Some r \<Rightarrow> r | None \<Rightarrow> [])"

definition transform_chunk :: "'c application \<Rightarrow> debug_mode \<Rightarrow> string \<Rightarrow> response \<Rightarrow> response py" where
  "transform_chunk app dm rid r =
     (if \<not> enabled dm then Inr r
      else
        let cors = List.map_filter (\<lambda>h. map_option (SetHeader h) (header_lookup app (resp_headers r) h))
              [''access-control-allow-credentials'', ''access-control-allow-origin''];
            wrap_headers = (if \<not> truthy (inherited dm) then [SetHeader ''Content-Type'' ''text/html''] @ cors
              else [SetHeader ''Content-Type'' ''application/xml'', SetHeader DEBUG_HEADER_NAME ''true''] @ cors)
        in py_bind (debug_document app r) (\<lambda>log_document. Inr (FrontikResponse 200 wrap_headers log_document rid)))"

definition execute_asgi_page ::
    "env \<Rightarrow> 'c application \<Rightarrow> nat \<Rightarrow> 'c scope \<Rightarrow> debug_mode \<Rightarrow> nat option \<Rightarrow> server \<Rightarrow> exchange \<Rightarrow>
     page_end \<times> server \<times> exchange" where
  "execute_asgi_page env app task scope dm close_in sv x =
     (let rt = (case sc_route scope of Some r \<Rightarrow> heap (routes sv) r | None \<Rightarrow> heap (routes sv) 0);
          sv = sv\<lparr>contexts := set_handler_name task (r_api rt) (r_endpoint rt) (contexts sv)\<rparr>;
          x = x\<lparr>req := (req x)\<lparr>tr_handler_name := get_handler_name task (contexts sv)\<rparr>,
                resp := FrontikResponse 200 [] [] (current_rid task (contexts sv))\<rparr>;
          ps = \<lparr>ps_route = scope, ps_http_version = tr_version (req x), ps_query_string = tr_query (req x),
                ps_headers = map (\<lambda>(h, v). (lower h, v)) (tr_headers (req x)), ps_client = tr_remote_ip (req x),
                ps_debug_mode = dm, ps_request_id = tr_request_id (req x)\<rparr>
      in case run_page env (debug_response dm) (pages app ps) close_in x of (e, x) \<Rightarrow> (e, sv, x))"

datatype process_end = Processed | Raised py_exc | Suspended | Aborted

definition import_page :: "'c application \<Rightarrow> tornado_request \<Rightarrow> routing \<Rightarrow> py_exc option \<times> routing" where
  "import_page app r rts = (case import_route app of None \<Rightarrow> (None, rts) | Some imp \<Rightarrow> imp (tr_path r) (tr_method r) rts)"

text \<open>The part of \<open>process_request\<close> after the access checks: look up the route, run the page, transform.\<close>

definition dispatch_page ::
    "env \<Rightarrow> 'c application \<Rightarrow> nat \<Rightarrow> debug_mode \<Rightarrow> nat option \<Rightarrow> server \<Rightarrow> exchange \<Rightarrow> process_end \<times> server \<times> exchange" where
  "dispatch_page env app task dm close_in sv x =
     (case import_page app (req x) (routes sv) of
        (Some e, rts) \<Rightarrow> (Raised e, sv\<lparr>routes := rts\<rparr>, x)
      | (None, rts) \<Rightarrow> let sv = sv\<lparr>routes := rts\<rparr> in
         case find_route (route_matcher app) (routes sv) (tr_path (req x)) (tr_method (req x)) None [] of
           Inl e \<Rightarrow> (Raised e, sv, x)
         | Inr (scope, rts) \<Rightarrow>
            (let sv = sv\<lparr>routes := rts\<rparr>;
                 x = x\<lparr>req := (req x)\<lparr>path_format := map_option (\<lambda>r. r_path_format (heap rts r)) (sc_route scope)\<rparr>\<rparr>
             in case execute_asgi_page env app task scope dm close_in sv x of
                  (Waiting, sv, x) \<Rightarrow> (Suspended, sv, x)
                | (Cancelled, sv, x) \<Rightarrow> (Aborted, sv, x)
                | (Completed, sv, x) \<Rightarrow>
                    (if debug_response dm \<and> \<not> headers_written (resp x)
                     then (case transform_chunk app dm (current_rid task (contexts sv)) (resp x) of
                             Inl e \<Rightarrow> (Raised e, sv, x)
                           | Inr response \<Rightarrow> (Processed, sv, x\<lparr>resp := response\<rparr>))
                     else (Processed, sv, x))))"

text \<open>\<open>process_request\<close>; \<open>acquired\<close> is the value of the limiter's integration.\<close>

definition process_request ::
    "env \<Rightarrow> 'c application \<Rightarrow> nat \<Rightarrow> bool option \<Rightarrow> nat option \<Rightarrow> server \<Rightarrow> exchange \<Rightarrow> process_end \<times> server \<times> exchange" where
  "process_request env app task acquired close_in sv x =
     (if acquired = Some False then (Processed, sv, x\<lparr>resp := FrontikResponse 503 [] [] (current_rid task (contexts sv))\<rparr>)
      else case make_debug_mode (to_unicode app) (option_debug app) (debug_login app) (debug_password app) (app_access app) (web (req x)) of
        Inl e \<Rightarrow> (Raised e, sv, x)
      | Inr dm \<Rightarrow>
         (if auth_failed dm = Some True
          then (Processed, sv, x\<lparr>resp := FrontikResponse 401
             (case failed_auth_headers dm of Some h \<Rightarrow> [SetHeader ''WWW-Authenticate'' h] | None \<Rightarrow> []) []
             (current_rid task (contexts sv))\<rparr>)
          else dispatch_page env app task dm close_in sv x))"

section \<open>Serving a request\<close>

definition leave_integrations :: "nat \<Rightarrow> nat \<Rightarrow> bool \<Rightarrow> server \<Rightarrow> server" where
  "leave_integrations task token acquired sv =
     sv\<lparr>limit_state := request_limiter_exit acquired (limit_state sv), contexts := request_context_exit task token (contexts sv)\<rparr>"

definition finish_response :: "env \<Rightarrow> exchange \<Rightarrow> exchange" where
  "finish_response env x =
     (if canceled (req x) then x
      else
        let x = (if \<not> headers_written (resp x) then write_start_line env (resp_body (resp x)) x else x)
        in x\<lparr>noted := NotedPage, conn := conn x @ [Finish]\<rparr>)"

text \<open>
  \<open>serve_tornado_request\<close> in the task \<open>task\<close>, whose processing runs in \<open>child\<close>; \<open>generated\<close> is the id a
  request without one gets. The integrations are left unless the request is still suspended.
\<close>

definition serve_tornado_request ::
    "env \<Rightarrow> 'c application \<Rightarrow> nat \<Rightarrow> nat \<Rightarrow> string \<Rightarrow> nat option \<Rightarrow> server \<Rightarrow> tornado_request \<Rightarrow> process_end \<times> server \<times> exchange" where
  "serve_tornado_request env app task child generated close_in sv r =
     (let rid = choose_request_id (header_get (web r) ''X-Request-Id'') generated;
          x = \<lparr>req = r\<lparr>tr_request_id := Some rid\<rparr>, resp = FrontikResponse 200 [] [] [], conn = [], noted = NotNoted\<rparr>;
          (token, cs) = request_context_enter task rid (contexts sv);
          (dto, acquired, l) = (request_limiter_enter (max_active_handlers app) (limit_state sv) :: (bool, response) integration_dto \<times> bool \<times> limiter);
          sv = sv\<lparr>contexts := create_task task child cs, limit_state := l\<rparr>
      in case process_request env app child (get_value dto) close_in sv x of
           (Suspended, sv, x) \<Rightarrow> (Suspended, sv, x)
         | (Processed, sv, x) \<Rightarrow> (Processed, leave_integrations task token acquired sv, finish_response env x)
         | (e, sv, x) \<Rightarrow> (e, leave_integrations task token acquired sv, x))"

section \<open>The connection handler\<close>

text \<open>
  \<open>TornadoConnectionHandler\<close>: the callbacks of the HTTP connection. The queue of chunks has 100000
  places; putting a chunk waits for a place (\<open>None\<close>), the end marker is put without waiting.
\<close>

definition BODY_CHUNKS_MAX :: nat where
  "BODY_CHUNKS_MAX = 100000"

definition data_received :: "string \<Rightarrow> tornado_request \<Rightarrow> tornado_request option" where
  "data_received c r = (if length (body_chunks r) < BODY_CHUNKS_MAX then Some (r\<lparr>body_chunks := body_chunks r @ [Data c]\<rparr>) else None)"

definition put_eof :: "tornado_request \<Rightarrow> tornado_request py" where
  "put_eof r = (if length (body_chunks r) < BODY_CHUNKS_MAX then Inr (r\<lparr>body_chunks := body_chunks r @ [EOF]\<rparr>)
     else Inl (PyException ''QueueFull''))"

definition finish :: "tornado_request \<Rightarrow> tornado_request py" where
  "finish r = put_eof (r\<lparr>finished := True\<rparr>)"

definition on_close_before_body :: "tornado_request \<Rightarrow> tornado_request py" where
  "on_close_before_body r = put_eof (r\<lparr>finished := True, canceled := True\<rparr>)"

section \<open>What reaches the connection\<close>

text \<open>While the page runs: nothing written yet, or the headers followed by chunks.\<close>

definition conn_shape :: "env \<Rightarrow> exchange \<Rightarrow> bool" where
  "conn_shape env x \<longleftrightarrow>
     conn x = [] \<and> (headers_written (resp x) \<longrightarrow> \<not> conn_open env []) \<or>
     headers_written (resp x) \<and> (\<exists>s rs hs c ws. conn x = WriteHeaders s rs hs c # map Write ws)"

lemma add_headers_keeps [simp]: "headers_written (snd (add_headers env hs r)) = headers_written r"
  by (induction env hs r rule: add_headers.induct) (auto split: list.splits option.splits prod.splits)

lemma map_Write_snoc: "map Write ws @ [Write c] = map Write (ws @ [c])"
  by simp

lemma send_shape:
  assumes "conn_shape env x"
  shows "conn_shape env (snd (send env debug msg x))"
proof (cases msg)
  case (ResponseStart status headers)
  obtain e r where a: "add_headers env headers (resp x\<lparr>status_code := status\<rparr>) = (e, r)" by force
  with add_headers_keeps [of env headers "resp x\<lparr>status_code := status\<rparr>"] have "headers_written r = headers_written (resp x)" by simp
  with ResponseStart assms a show ?thesis by (simp add: send_def conn_shape_def)
next
  case (ResponseBody body more)
  show ?thesis
  proof (cases body)
    case None
    with ResponseBody assms show ?thesis by (simp add: send_def)
  next
    case (Some c)
    show ?thesis
    proof (cases "conn x = []")
      case True
      with ResponseBody Some assms show ?thesis
        by (auto simp: send_def conn_shape_def write_start_line_def Let_def intro: exI [of _ "[]"])
    next
      case False
      with assms obtain s rs hs c0 ws where "headers_written (resp x)" "conn x = WriteHeaders s rs hs c0 # map Write ws"
        by (auto simp: conn_shape_def)
      with ResponseBody Some show ?thesis
        by (auto simp: send_def conn_shape_def map_Write_snoc simp del: map_append)
    qed
  qed
next
  case (OtherMessage k)
  with assms show ?thesis by (simp add: send_def)
qed

lemma close_shape: "conn_shape env x \<Longrightarrow> conn_shape env (snd (on_connection_close x))"
  by (simp add: on_connection_close_def conn_shape_def)

lemma close_shape': "conn_shape env x \<Longrightarrow> on_connection_close x = (b, x') \<Longrightarrow> conn_shape env x'"
  using close_shape by fastforce

lemma receive_shape: "conn_shape env x \<Longrightarrow> conn_shape env (x\<lparr>req := r\<rparr>)"
  by (simp add: conn_shape_def)

lemma run_page_shape:
  "conn_shape env x \<Longrightarrow> conn_shape env (snd (run_page env debug page close_in x))"
proof (induction page arbitrary: close_in x)
  case (Receive k)
  obtain b x1 where c: "(if close_in = Some 0 then on_connection_close x else (False, x)) = (b, x1)" by force
  then have "conn_shape env x1" using Receive.prems close_shape' by (auto split: if_splits)
  with Receive.IH c show ?case
    by (auto simp: receive_shape split: bool.split option.split prod.split)
next
  case (Send msg k)
  obtain b x1 where c: "(if close_in = Some 0 then on_connection_close x else (False, x)) = (b, x1)" by force
  then have s: "conn_shape env x1" using Send.prems close_shape' by (auto split: if_splits)
  obtain e x2 where s2: "send env debug msg x1 = (e, x2)" by force
  with send_shape [OF s, of debug msg] have "conn_shape env x2" by simp
  with Send.IH s c s2 show ?case by (auto split: bool.split)
qed simp_all

text \<open>Processing touches neither the limiter nor the context variables.\<close>

lemma set_handler_name_ctxvar [simp]: "ctxvar (set_handler_name task api e cs) = ctxvar cs"
  by (simp add: set_handler_name_def modify_context_def)

lemma execute_asgi_page_frame:
  assumes "execute_asgi_page env app task scope dm close_in sv x = (pe, sv', x')" and "conn x = []"
  shows "limit_state sv' = limit_state sv \<and> ctxvar (contexts sv') = ctxvar (contexts sv) \<and> conn_shape env x'"
proof -
  have start: "conn_shape env (x\<lparr>req := r, resp := FrontikResponse 200 [] [] rid\<rparr>)" for r rid
    using assms(2) by (simp add: conn_shape_def FrontikResponse_def)
  have shape: "run_page env debug pg close_in (x\<lparr>req := r, resp := FrontikResponse 200 [] [] rid\<rparr>) = (e, x2) \<Longrightarrow> conn_shape env x2"
    for debug pg r rid e x2
    using run_page_shape [OF start [of rid r], of debug pg close_in] by simp
  from assms(1) show ?thesis
    by (auto simp: execute_asgi_page_def Let_def dest!: shape split: prod.splits)
qed

lemma not_written_new [simp]: "\<not> headers_written (FrontikResponse s h b i)"
  by (simp add: FrontikResponse_def)

lemma transform_not_written: "transform_chunk app dm rid r = Inr r' \<Longrightarrow> \<not> headers_written r \<Longrightarrow> \<not> headers_written r'"
  by (auto simp: transform_chunk_def Let_def py_bind_Inr_conv split: if_splits)

definition unstarted :: "process_end \<Rightarrow> exchange \<Rightarrow> bool" where
  "unstarted e x \<longleftrightarrow> conn x = [] \<and> (e = Processed \<longrightarrow> \<not> headers_written (resp x))"

lemma dispatch_page_frame:
  assumes "dispatch_page env app task dm close_in sv x = (e, sv', x')" and "conn x = []"
  shows "limit_state sv' = limit_state sv \<and> ctxvar (contexts sv') = ctxvar (contexts sv) \<and> (conn_shape env x' \<or> unstarted e x')"
proof -
  obtain ie irts where imp: "import_page app (req x) (routes sv) = (ie, irts)" by force
  let ?sv = "sv\<lparr>routes := irts\<rparr>"
  consider (failed) err where "ie = Some err" | (imported) "ie = None" by (cases ie) auto
  then show ?thesis
  proof cases
    case failed
    with assms imp show ?thesis by (auto simp: dispatch_page_def unstarted_def)
  next
    case imported
    note imp = imp [unfolded imported]
    show ?thesis
    proof (cases "find_route (route_matcher app) (routes ?sv) (tr_path (req x)) (tr_method (req x)) None []")
      case (Inl err)
      with assms imp show ?thesis by (auto simp: dispatch_page_def Let_def unstarted_def)
    next
      case (Inr res)
      obtain scope rts where res: "res = (scope, rts)" by force
      let ?x = "x\<lparr>req := (req x)\<lparr>path_format := map_option (\<lambda>r. r_path_format (heap rts r)) (sc_route scope)\<rparr>\<rparr>"
      obtain pe sv2 x2 where ex: "execute_asgi_page env app task scope dm close_in (?sv\<lparr>routes := rts\<rparr>) ?x = (pe, sv2, x2)"
        by (metis prod_cases3)
      have fr: "limit_state sv2 = limit_state sv \<and> ctxvar (contexts sv2) = ctxvar (contexts sv) \<and> conn_shape env x2"
        using execute_asgi_page_frame [OF ex] assms(2) by simp
      from assms(1) Inr res ex imp
      have "sv' = sv2 \<and> (x' = x2 \<or> \<not> headers_written (resp x2) \<and> (\<exists>rid r'. transform_chunk app dm rid (resp x2) = Inr r' \<and> x' = x2\<lparr>resp := r'\<rparr>))"
        by (cases pe) (auto simp: dispatch_page_def Let_def split: if_splits sum.splits)
      with fr show ?thesis by (auto simp: conn_shape_def unstarted_def dest: transform_not_written)
    qed
  qed
qed

lemma process_request_frame:
  assumes "process_request env app task acquired close_in sv x = (e, sv', x')" and "conn x = []"
  shows "limit_state sv' = limit_state sv \<and> ctxvar (contexts sv') = ctxvar (contexts sv) \<and> (conn_shape env x' \<or> unstarted e x')"
proof (cases "\<exists>dm. dispatch_page env app task dm close_in sv x = (e, sv', x')")
  case True
  with dispatch_page_frame [OF _ assms(2)] show ?thesis by blast
next
  case False
  with assms show ?thesis by (auto simp: process_request_def unstarted_def split: if_splits sum.splits)
qed

lemma serve_cases:
  assumes "serve_tornado_request env app task child generated close_in sv r = (e, sv', x')"
  obtains token cs dto acquired l sv1 x0 sv2 x2
  where "request_context_enter task (choose_request_id (header_get (web r) ''X-Request-Id'') generated) (contexts sv) = (token, cs)"
    and "request_limiter_enter (max_active_handlers app) (limit_state sv) = (dto :: (bool, response) integration_dto, acquired, l)"
    and "sv1 = sv\<lparr>contexts := create_task task child cs, limit_state := l\<rparr>"
    and "conn x0 = []" and "canceled (req x0) = canceled r" and "web (req x0) = web r"
    and "process_request env app child (get_value dto) close_in sv1 x0 = (e, sv2, x2)"
    and "sv' = (if e = Suspended then sv2 else leave_integrations task token acquired sv2)"
    and "x' = (if e = Processed then finish_response env x2 else x2)"
proof -
  let ?rid = "choose_request_id (header_get (web r) ''X-Request-Id'') generated"
  obtain token cs where c: "request_context_enter task ?rid (contexts sv) = (token, cs)" by force
  obtain dto acquired l where d: "request_limiter_enter (max_active_handlers app) (limit_state sv) =
      (dto :: (bool, response) integration_dto, acquired, l)" by (metis prod_cases3)
  let ?x = "\<lparr>req = r\<lparr>tr_request_id := Some ?rid\<rparr>, resp = FrontikResponse 200 [] [] [], conn = [], noted = NotNoted\<rparr>"
  let ?sv = "sv\<lparr>contexts := create_task task child cs, limit_state := l\<rparr>"
  obtain e2 sv2 x2 where p: "process_request env app child (get_value dto) close_in ?sv ?x = (e2, sv2, x2)" by (metis prod_cases3)
  from assms c d p have "e = e2 \<and> sv' = (if e = Suspended then sv2 else leave_integrations task token acquired sv2) \<and>
      x' = (if e = Processed then finish_response env x2 else x2)"
    by (cases e2) (auto simp: serve_tornado_request_def Let_def)
  with that [OF c d refl, of ?x sv2 x2] p show thesis by auto
qed

section \<open>Properties\<close>

text \<open>C2. Exactly one response: on an open connection, a request that is processed and not cancelled gets
  the headers once, before anything else, then the chunks, then the end of the response; in every other
  case the response is not finished, and whatever was written starts with the headers.\<close>

theorem exactly_one_response:
  assumes "serve_tornado_request env app task child generated close_in sv r = (e, sv', x)" and "\<And>cs. conn_open env cs"
  shows "if e = Processed \<and> \<not> canceled (req x)
    then \<exists>status phrase headers first chunks. conn x = WriteHeaders status phrase headers first # map Write chunks @ [Finish]
    else conn x = [] \<or> (\<exists>status phrase headers first chunks. conn x = WriteHeaders status phrase headers first # map Write chunks)"
  using assms(1)
proof (cases rule: serve_cases)
  case (1 token cs dto acquired l sv1 x0 sv2 x2)
  from process_request_frame [OF 1(7,4)] have "conn_shape env x2 \<or> unstarted e x2" by simp
  then have open_shape: "conn x2 = [] \<and> (e = Processed \<longrightarrow> \<not> headers_written (resp x2)) \<or>
      headers_written (resp x2) \<and> (\<exists>s rs hs c ws. conn x2 = WriteHeaders s rs hs c # map Write ws)"
    using assms(2) by (auto simp: conn_shape_def unstarted_def)
  show ?thesis
  proof (cases "e = Processed \<and> \<not> canceled (req x2)")
    case True
    then have "\<not> canceled (req x)" using 1(9) by (simp add: finish_response_def write_start_line_def Let_def assms(2))
    with True 1(9) open_shape assms(2) show ?thesis
      by (auto simp: finish_response_def write_start_line_def Let_def intro: exI [of _ "[]"])
  next
    case False
    then have "x = x2" using 1(9) by (auto simp: finish_response_def)
    with False open_shape show ?thesis by auto
  qed
qed

text \<open>The integrations leave no trace: once a request is over, however it ended, the count of active
  handlers is what it was before and the task's context variable is restored.\<close>

theorem integrations_restored:
  assumes "serve_tornado_request env app task child generated close_in sv r = (e, sv', x)" and "e \<noteq> Suspended"
  shows "active_count (limit_state sv') = active_count (limit_state sv) \<and> ctxvar (contexts sv') task = ctxvar (contexts sv) task"
  using assms(1)
proof (cases rule: serve_cases)
  case (1 token cs dto acquired l sv1 x0 sv2 x2)
  from process_request_frame [OF 1(7,4)] have fr: "limit_state sv2 = l" "ctxvar (contexts sv2) = ctxvar (create_task task child cs)"
    using 1(3) by auto
  have "snd (request_limiter_enter (max_active_handlers app) (limit_state sv) :: (bool, response) integration_dto \<times> bool \<times> limiter) = (acquired, l)"
    using 1(2) by simp
  then have "active_count (request_limiter_exit acquired l) = active_count (limit_state sv)"
    by (auto simp: limiter_defs split: if_splits)
  moreover have "ctxvar (request_context_exit task token (contexts sv2)) task = ctxvar (contexts sv) task"
    using ctx.leave_view [of task token "contexts sv2"] ctx.undo_enter [OF 1(1)] by simp
  ultimately show ?thesis using 1(8) assms(2) fr by (simp add: leave_integrations_def)
qed

text \<open>Overload: when the number of active handlers is above the limit, the request gets a 503 response
  with an empty body whatever the page, the credentials and the routes are; no page runs and the routing
  state is untouched.\<close>

theorem overload_gets_503:
  assumes "active_count (limit_state sv) > max_active_handlers app" and "\<not> canceled r" and "\<And>cs. conn_open env cs"
  shows "\<exists>sv' x phrase headers. serve_tornado_request env app task child generated close_in sv r = (Processed, sv', x) \<and>
    conn x = [WriteHeaders 503 phrase headers [], Finish] \<and> routes sv' = routes sv"
proof -
  obtain e sv' x where s: "serve_tornado_request env app task child generated close_in sv r = (e, sv', x)" by (metis prod_cases3)
  then show ?thesis
  proof (cases rule: serve_cases)
    case (1 token cs dto acquired l sv1 x0 sv2 x2)
    have "get_value dto = Some False" using 1(2) assms(1) by (auto simp: limiter_defs get_value_def new_dto_def)
    with 1(7) have p: "e = Processed" "sv2 = sv1" "x2 = x0\<lparr>resp := FrontikResponse 503 [] [] (current_rid child (contexts sv1))\<rparr>"
      by (auto simp: process_request_def)
    with 1 assms(2,3) s show ?thesis
      by (auto simp: finish_response_def write_start_line_def Let_def FrontikResponse_def leave_integrations_def)
  qed
qed

text \<open>Unauthorised debug requests: when the debug mode is asked for and access is refused, the client
  gets a 401 response carrying the authentication challenge, no page runs and the routing state is
  untouched.\<close>

theorem unauthorized_gets_401:
  assumes "active_count (limit_state sv) \<le> max_active_handlers app" and "\<not> canceled r" and "\<And>cs. conn_open env cs"
    and "make_debug_mode (to_unicode app) (option_debug app) (debug_login app) (debug_password app) (app_access app) (web r) = Inr dm"
    and "auth_failed dm = Some True" and "failed_auth_headers dm = Some challenge"
  shows "\<exists>sv' x phrase headers. serve_tornado_request env app task child generated close_in sv r = (Processed, sv', x) \<and>
    conn x = [WriteHeaders 401 phrase headers [], Finish] \<and> SetHeader ''WWW-Authenticate'' challenge \<in> set headers \<and>
    routes sv' = routes sv"
proof -
  obtain e sv' x where s: "serve_tornado_request env app task child generated close_in sv r = (e, sv', x)" by (metis prod_cases3)
  then show ?thesis
  proof (cases rule: serve_cases)
    case (1 token cs dto acquired l sv1 x0 sv2 x2)
    have "get_value dto = Some True" using 1(2) assms(1) by (auto simp: limiter_defs get_value_def new_dto_def)
    with 1(6,7) assms(4-6) have p: "e = Processed" "sv2 = sv1"
      "x2 = x0\<lparr>resp := FrontikResponse 401 [SetHeader ''WWW-Authenticate'' challenge] [] (current_rid child (contexts sv1))\<rparr>"
      by (auto simp: process_request_def)
    with 1 assms(2,3) s show ?thesis
      by (auto simp: finish_response_def write_start_line_def Let_def FrontikResponse_def leave_integrations_def)
  qed
qed

section \<open>Streaming\<close>

text \<open>A page that sends the given messages, stopping at the first that raises.\<close>

fun sending :: "asgi_message list \<Rightarrow> page" where
  "sending [] = Return"
| "sending (m # ms) = Send m (\<lambda>e. case e of None \<Rightarrow> sending ms | Some _ \<Rightarrow> Raise)"

text \<open>The messages of a streamed body: every chunk announces more, the last one is empty.\<close>

definition body_messages :: "string list \<Rightarrow> asgi_message list" where
  "body_messages chunks = map (\<lambda>c. ResponseBody (Some c) (Some True)) chunks @ [ResponseBody (Some []) (Some False)]"

fun written_bytes :: "conn_call list \<Rightarrow> string" where
  "written_bytes [] = []"
| "written_bytes (WriteHeaders _ _ _ c # cs) = c @ written_bytes cs"
| "written_bytes (Write c # cs) = c @ written_bytes cs"
| "written_bytes (Finish # cs) = written_bytes cs"

lemma written_bytes_append [simp]: "written_bytes (a @ b) = written_bytes a @ written_bytes b"
  by (induction a rule: written_bytes.induct) auto

lemma stream_rest:
  assumes "\<And>cs. conn_open env cs" and "headers_written (resp x)"
  shows "\<exists>x'. run_page env False (sending (body_messages chunks)) None x = (Completed, x') \<and>
    written_bytes (conn x') = written_bytes (conn x) @ concat chunks \<and> response_done (req x') \<and> (\<exists>rest. conn x' = conn x @ rest)"
  using assms(2)
proof (induction chunks arbitrary: x)
  case Nil
  then show ?case using assms(1) by (simp add: body_messages_def send_def)
next
  case (Cons c chunks)
  let ?x = "x\<lparr>conn := conn x @ [Write c]\<rparr>"
  have "send env False (ResponseBody (Some c) (Some True)) x = (None, ?x)"
    using Cons.prems assms(1) by (simp add: send_def)
  moreover have "headers_written (resp ?x)" using Cons.prems by simp
  from Cons.IH [OF this] obtain x' where "run_page env False (sending (body_messages chunks)) None ?x = (Completed, x')"
    "written_bytes (conn x') = written_bytes (conn ?x) @ concat chunks" "response_done (req x')" "\<exists>rest. conn x' = conn ?x @ rest" by blast
  ultimately show ?case by (auto simp: body_messages_def)
qed

text \<open>The headers of a page as ASGI has them, and what they decode to.\<close>

definition raw_headers :: "(string \<times> string) list \<Rightarrow> string list list" where
  "raw_headers hs = map (\<lambda>(k, v). [k, v]) hs"

definition decodes_to :: "env \<Rightarrow> (string \<times> string) list \<Rightarrow> (string \<times> string) list \<Rightarrow> bool" where
  "decodes_to env raw hs \<longleftrightarrow> list_all2 (\<lambda>(k, v) (k', v'). decode_header env k = Some k' \<and> decode_header env v = Some v') raw hs"

lemma add_headers_decoded:
  assumes "decodes_to env raw hs"
  shows "add_headers env (raw_headers raw) r = (None, r\<lparr>resp_headers := resp_headers r @ map (\<lambda>(k, v). AddHeader k v) hs\<rparr>)"
  using assms unfolding decodes_to_def
  by (induction raw hs arbitrary: r rule: list_all2_induct) (auto simp: raw_headers_def)

lemma reason_headers [simp]: "reason ps (r\<lparr>status_code := s, resp_headers := hs\<rparr>) = reason ps (r\<lparr>status_code := s\<rparr>)"
proof -
  have "status_code (r\<lparr>status_code := s, resp_headers := hs\<rparr>) = status_code (r\<lparr>status_code := s\<rparr>)" by simp
  then show ?thesis by (simp only: reason_def) simp
qed

lemma stream_page:
  assumes "\<And>cs. conn_open env cs" and "conn x = []" and "\<not> headers_written (resp x)" and "decodes_to env raw hs"
  shows "\<exists>x' rest. run_page env False (sending (ResponseStart status (raw_headers raw) # body_messages (c # chunks))) None x = (Completed, x') \<and>
    written_bytes (conn x') = (if tr_method (req x) = ''HEAD'' then [] else c) @ concat chunks \<and> response_done (req x') \<and>
    conn x' = WriteHeaders status (reason (phrases env) ((resp x)\<lparr>status_code := status\<rparr>))
      (resp_headers (resp x) @ map (\<lambda>(k, v). AddHeader k v) hs) (if tr_method (req x) = ''HEAD'' then [] else c) # rest"
proof -
  let ?x1 = "x\<lparr>resp := (resp x)\<lparr>status_code := status, resp_headers := resp_headers (resp x) @ map (\<lambda>(k, v). AddHeader k v) hs\<rparr>\<rparr>"
  have x1: "send env False (ResponseStart status (raw_headers raw)) x = (None, ?x1)"
    by (simp add: send_def add_headers_decoded [OF assms(4)])
  obtain x2 where x2: "send env False (ResponseBody (Some c) (Some True)) ?x1 = (None, x2)" and hw: "headers_written (resp x2)"
    and cn: "conn x2 = [WriteHeaders status (reason (phrases env) ((resp x)\<lparr>status_code := status\<rparr>))
      (resp_headers (resp x) @ map (\<lambda>(k, v). AddHeader k v) hs) (if tr_method (req x) = ''HEAD'' then [] else c)]"
    using assms by (auto simp: send_def write_start_line_def Let_def)
  from stream_rest [OF assms(1) hw, of chunks] obtain x' where
    run: "run_page env False (sending (body_messages chunks)) None x2 = (Completed, x')"
      "written_bytes (conn x') = written_bytes (conn x2) @ concat chunks" "response_done (req x')"
      "\<exists>rest. conn x' = conn x2 @ rest" by blast
  with run cn x1 x2 show ?thesis by (auto simp: body_messages_def)
qed

text \<open>C11. A streamed response arrives complete: for any method but HEAD, the connection gets the status
  of the page with its reason, the headers of the server followed by those of the page in order, and
  then the chunks the page sent, in order; the response is marked as done.\<close>

theorem streamed_body_complete:
  assumes "\<And>cs. conn_open env cs" and "conn x = []" and "\<not> headers_written (resp x)" and "tr_method (req x) \<noteq> ''HEAD''"
    and "decodes_to env raw hs"
  shows "\<exists>x' rest. run_page env False (sending (ResponseStart status (raw_headers raw) # body_messages (c # chunks))) None x = (Completed, x') \<and>
    conn x' = WriteHeaders status (reason (phrases env) ((resp x)\<lparr>status_code := status\<rparr>))
      (resp_headers (resp x) @ map (\<lambda>(k, v). AddHeader k v) hs) c # rest \<and>
    written_bytes (conn x') = concat (c # chunks) \<and> response_done (req x')"
  using stream_page [OF assms(1-3,5), of status c chunks] assms(4) by auto

text \<open>A streamed response to HEAD loses only its first chunk: the other chunks of the page are written
  to the connection although a response to HEAD has no body.\<close>

theorem head_stream_writes_body:
  assumes "\<And>cs. conn_open env cs" and "conn x = []" and "\<not> headers_written (resp x)" and "tr_method (req x) = ''HEAD''"
    and "decodes_to env raw hs"
  shows "\<exists>x'. run_page env False (sending (ResponseStart status (raw_headers raw) # body_messages (c # chunks))) None x = (Completed, x') \<and>
    written_bytes (conn x') = concat chunks"
  using stream_page [OF assms(1-3,5), of status c chunks] assms(4) by auto

section \<open>The request body\<close>

text \<open>
  Chunks arrive, the end of the body arrives and the page receives, in any order; \<open>arrived\<close> are the
  chunks of the body so far, \<open>got\<close> what the page received.
\<close>

inductive body_run :: "string list \<Rightarrow> receive_message list \<Rightarrow> tornado_request \<Rightarrow> bool" where
  start: "body_chunks r = [] \<Longrightarrow> \<not> finished r \<Longrightarrow> \<not> canceled r \<Longrightarrow> body_run [] [] r"
| arrive: "body_run arrived got r \<Longrightarrow> \<not> finished r \<Longrightarrow> data_received c r = Some r' \<Longrightarrow> body_run (arrived @ [c]) got r'"
| over: "body_run arrived got r \<Longrightarrow> \<not> finished r \<Longrightarrow> finish r = Inr r' \<Longrightarrow> body_run arrived got r'"
| take_one: "body_run arrived got r \<Longrightarrow> receive r = Some (msg, r') \<Longrightarrow> body_run arrived (got @ [msg]) r'"

abbreviation more :: "string \<Rightarrow> receive_message" where
  "more c \<equiv> RequestBody (Data c) True"

abbreviation no_more :: receive_message where
  "no_more \<equiv> RequestBody (Data []) False"

lemma body_run_split:
  "body_run arrived got r \<Longrightarrow> \<not> canceled r \<and>
   (\<exists>taken queued. arrived = taken @ queued \<and>
     (got = map more taken \<and> body_chunks r = map Data queued @ (if finished r then [EOF] else []) \<or>
      got = map more taken @ [no_more] \<and> queued = [] \<and> body_chunks r = [] \<and> finished r))"
proof (induction rule: body_run.induct)
  case (arrive arrived got r c r')
  then show ?case by (auto simp: data_received_def split: if_splits intro!: exI)
next
  case (over arrived got r r')
  then show ?case by (auto simp: finish_def put_eof_def split: if_splits intro!: exI)
next
  case (take_one arrived got r msg r')
  then obtain taken queued where tq: "\<not> canceled r" "arrived = taken @ queued"
    "got = map more taken" "body_chunks r = map Data queued @ (if finished r then [EOF] else [])"
    by (auto simp: receive_def)
  show ?case
  proof (cases queued)
    case Nil
    with take_one(2) tq have "finished r" "msg = no_more" "r' = r\<lparr>body_chunks := []\<rparr>"
      by (auto simp: receive_def split: if_splits)
    with tq Nil show ?thesis by (intro conjI exI [of _ taken] exI [of _ "[]"]) auto
  next
    case (Cons c cs)
    with take_one(2) tq have "msg = more c" "r' = r\<lparr>body_chunks := map Data cs @ (if finished r then [EOF] else [])\<rparr>"
      by (auto simp: receive_def split: if_splits)
    with tq Cons show ?thesis by (intro conjI exI [of _ "taken @ [c]"] exI [of _ cs]) auto
  qed
qed auto

text \<open>C23. The page receives the request body in order and in full: for every interleaving of arriving
  chunks and receiving, what the page got is a prefix of the chunks that arrived, each announcing more;
  the message that announces the end comes once, last, and only after every chunk was received.\<close>

theorem request_body_in_order:
  assumes "body_run arrived got r"
  shows "\<exists>taken rest. arrived = taken @ rest \<and>
    (got = map more taken \<or> got = map more taken @ [no_more] \<and> rest = [] \<and> finished r)"
  using body_run_split [OF assms] by blast

section \<open>Concrete exchanges\<close>

definition demo_tornado_request :: "string \<Rightarrow> (string \<times> string) list \<Rightarrow> tornado_request" where
  "demo_tornado_request meth hs = \<lparr>tr_method = meth, tr_path = ''/x'', tr_version = ''HTTP/1.1'', tr_query = [], tr_headers = hs,
     tr_remote_ip = ''127.0.0.1'', web = demo_request hs, body_chunks = [], finished = False, canceled = False,
     response_done = False, tr_request_id = None, tr_handler_name = None, path_format = None\<rparr>"

definition demo_env :: env where
  "demo_env = \<lparr>conn_open = (\<lambda>_. True), phrases = (\<lambda>_. None), decode_header = Some\<rparr>"

definition demo_app :: "unit application" where
  "demo_app = \<lparr>max_active_handlers = 100, to_unicode = Some, option_debug = False, debug_login = Some ''user'',
     debug_password = Some ''god'', app_access = None, route_matcher = (\<lambda>_ _ _. (NoMatch, ())), import_route = None,
     pages = (\<lambda>_. Return), header_lookup = (\<lambda>_ _. None), debug_document = (\<lambda>_. Inr [])\<rparr>"

definition demo_server :: "int \<Rightarrow> routing \<Rightarrow> server" where
  "demo_server n rts = \<lparr>limit_state = \<lparr>active_count = n, gauges = []\<rparr>, contexts = initial_contexts, routes = rts\<rparr>"

definition demo_exchange :: "string \<Rightarrow> exchange" where
  "demo_exchange meth = \<lparr>req = demo_tornado_request meth [], resp = FrontikResponse 200 [] [] [], conn = [], noted = NotNoted\<rparr>"

lemmas demo_exchange_defs = demo_tornado_request_def demo_env_def demo_app_def demo_server_def demo_exchange_def

theorem overload_gets_503_witness:
  "\<exists>sv' x phrase headers. serve_tornado_request demo_env demo_app 1 2 ''id'' None (demo_server 101 demo_routing)
     (demo_tornado_request ''GET'' []) = (Processed, sv', x) \<and>
    conn x = [WriteHeaders 503 phrase headers [], Finish] \<and> routes sv' = routes (demo_server 101 demo_routing)"
  by (rule overload_gets_503) (simp_all add: demo_exchange_defs)

theorem unauthorized_gets_401_witness:
  "\<exists>sv' x phrase headers. serve_tornado_request demo_env demo_app 1 2 ''id'' None (demo_server 0 demo_routing)
     (demo_tornado_request ''GET'' []) = (Processed, sv', x) \<and>
    conn x = [WriteHeaders 401 phrase headers [], Finish] \<and>
    SetHeader ''WWW-Authenticate'' ''Basic realm=\"Secure Area\"'' \<in> set headers \<and>
    routes sv' = routes (demo_server 0 demo_routing)"
proof -
  let ?dm = "demo_debug_mode\<lparr>inherited := map_of [] DEBUG_HEADER_NAME, failed_auth_headers := Some ''Basic realm=\"Secure Area\"'', auth_failed := Some True\<rparr>"
  have "make_debug_mode Some False (Some ''user'') (Some ''god'') None (demo_request []) = Inr ?dm"
    using demo_debug_mode_of_request [of "[]"]
    by (simp add: make_debug_mode_def new_debug_mode_def get_cookie_or_param_from_request_def dict_get_def require_debug_access_def
        check_debug_auth_def check_debug_auth_by_headers_def passed_basic_auth_def demo_debug_mode_def demo_request_def)
  then have "make_debug_mode (to_unicode demo_app) (option_debug demo_app) (debug_login demo_app) (debug_password demo_app)
      (app_access demo_app) (web (demo_tornado_request ''GET'' [])) = Inr ?dm"
    by (simp add: demo_exchange_defs)
  then show ?thesis
    by (rule unauthorized_gets_401 [rotated 3]) (simp_all add: demo_exchange_defs)
qed

theorem exactly_one_response_witness:
  "\<exists>sv' x. serve_tornado_request demo_env demo_app 1 2 ''id'' None (demo_server 101 demo_routing)
      (demo_tornado_request ''GET'' []) = (Processed, sv', x) \<and> \<not> canceled (req x) \<and>
    (\<exists>status phrase headers first chunks. conn x = WriteHeaders status phrase headers first # map Write chunks @ [Finish])"
proof -
  obtain e sv' x where s: "serve_tornado_request demo_env demo_app 1 2 ''id'' None (demo_server 101 demo_routing)
      (demo_tornado_request ''GET'' []) = (e, sv', x)" by (metis prod_cases3)
  then have "e = Processed \<and> \<not> canceled (req x)"
    by (auto simp: serve_tornado_request_def demo_exchange_defs process_request_def limiter_defs get_value_def new_dto_def
        request_context_enter_def finish_response_def write_start_line_def FrontikResponse_def Let_def)
  with s exactly_one_response [OF s] show ?thesis by (simp add: demo_env_def)
qed

theorem integrations_restored_witness:
  "\<exists>e sv' x. serve_tornado_request demo_env demo_app 1 2 ''id'' None (demo_server 101 demo_routing)
      (demo_tornado_request ''GET'' []) = (e, sv', x) \<and> active_count (limit_state sv') = 101 \<and> ctxvar (contexts sv') 1 = 0"
proof -
  obtain e sv' x where s: "serve_tornado_request demo_env demo_app 1 2 ''id'' None (demo_server 101 demo_routing)
      (demo_tornado_request ''GET'' []) = (e, sv', x)" by (metis prod_cases3)
  then have "e = Processed"
    by (auto simp: serve_tornado_request_def demo_exchange_defs process_request_def limiter_defs get_value_def new_dto_def
        request_context_enter_def Let_def)
  with s integrations_restored [OF s] show ?thesis by (simp add: demo_server_def initial_contexts_def)
qed

lemma demo_headers: "decodes_to demo_env [(''content-type'', ''text/plain'')] [(''content-type'', ''text/plain'')]"
  by (simp add: decodes_to_def demo_env_def)

theorem streamed_body_complete_witness:
  "\<exists>x' phrase headers rest. run_page demo_env False (sending (ResponseStart 200 [[''content-type'', ''text/plain'']] # body_messages [''ab'', ''cd'', ''ef'']))
      None (demo_exchange ''GET'') = (Completed, x') \<and>
    conn x' = WriteHeaders 200 phrase headers ''ab'' # rest \<and> last headers = AddHeader ''content-type'' ''text/plain'' \<and>
    written_bytes (conn x') = concat [''ab'', ''cd'', ''ef''] \<and> response_done (req x')"
proof -
  have "\<And>cs. conn_open demo_env cs" "conn (demo_exchange ''GET'') = []" "\<not> headers_written (resp (demo_exchange ''GET''))"
    "tr_method (req (demo_exchange ''GET'')) \<noteq> ''HEAD''" by (simp_all add: demo_exchange_defs)
  from streamed_body_complete [OF this demo_headers, of 200 "''ab''" "[''cd'', ''ef'']"] show ?thesis
    unfolding raw_headers_def by fastforce
qed

theorem head_stream_writes_body_witness:
  "\<exists>x'. run_page demo_env False (sending (ResponseStart 200 [[''content-type'', ''text/plain'']] # body_messages [''ab'', ''cd'', ''ef'']))
      None (demo_exchange ''HEAD'') = (Completed, x') \<and> written_bytes (conn x') = concat [''cd'', ''ef'']"
  using head_stream_writes_body [OF _ _ _ _ demo_headers, of "demo_exchange ''HEAD''" 200 "''ab''" "[''cd'', ''ef'']"]
  by (simp add: demo_exchange_defs raw_headers_def)

theorem request_body_in_order_witness:
  "\<exists>r. body_run [''a'', ''b''] [more ''a''] r \<and> (\<exists>taken rest. [''a'', ''b''] = taken @ rest \<and>
    ([more ''a''] = map more taken \<or> [more ''a''] = map more taken @ [no_more] \<and> rest = [] \<and> finished r))"
proof -
  let ?r = "demo_tornado_request ''POST'' []"
  note defs = demo_exchange_defs data_received_def BODY_CHUNKS_MAX_def receive_def
  have b0: "body_run [] [] ?r" by (rule body_run.start) (simp_all add: defs)
  have b1: "body_run [''a''] [] (?r\<lparr>body_chunks := [Data ''a'']\<rparr>)"
    using body_run.arrive [OF b0, of "''a''"] by (simp add: defs)
  have b2: "body_run [''a'', ''b''] [] (?r\<lparr>body_chunks := [Data ''a'', Data ''b'']\<rparr>)"
    using body_run.arrive [OF b1, of "''b''"] by (simp add: defs)
  have b: "body_run [''a'', ''b''] [more ''a''] (?r\<lparr>body_chunks := [Data ''b'']\<rparr>)"
    using body_run.take_one [OF b2, of "more ''a''"] by (simp add: defs)
  show ?thesis by (rule exI, rule conjI [OF b request_body_in_order [OF b]])
qed

end
