(* ===== verification/Config.thy ===== *)
theory Config
  imports Frontik_Prelude
begin

text \<open>
  Configuration (\<open>frontik/options.py\<close>, \<open>frontik/config_parser.py\<close>): the table of options with their
  declared types and defaults, reading a configuration file, and the command line. A configuration file
  is Python code: what it defines is an argument. Conversion of text to floats is the parameter
  \<open>to_float\<close>. The options of the package \<open>http_client\<close> are a second table and its own file parser,
  both arguments.
\<close>

section \<open>Options\<close>

datatype opt_value =
    VNone
  | VInt int
  | VBool bool
  | VFloat rat
  | VStr string
  | VList "opt_value list"
  | VTuple "opt_value list"
  | VDict "(string \<times> opt_value) list"

text \<open>What counts as true in a condition.\<close>

fun truth_value :: "opt_value \<Rightarrow> bool" where
  "truth_value VNone = False"
| "truth_value (VInt i) = (i \<noteq> 0)"
| "truth_value (VBool b) = b"
| "truth_value (VFloat f) = (f \<noteq> 0)"
| "truth_value (VStr s) = (s \<noteq> [])"
| "truth_value (VList vs) = (vs \<noteq> [])"
| "truth_value (VTuple vs) = (vs \<noteq> [])"
| "truth_value (VDict kvs) = (kvs \<noteq> [])"

text \<open>Declared types, as the code tells them apart; \<open>TOpt\<dots>\<close> is \<open>Optional\<close> of a plain type.\<close>

datatype opt_type = TInt | TBool | TFloat | TStr | TOptInt | TOptBool | TOptFloat | TOptStr | TOther

definition OPTIONS :: "(string \<times> opt_type \<times> opt_value) list" where
  "OPTIONS = [
    (''app_class'', TOptStr, VNone),
    (''workers'', TInt, VInt 1),
    (''init_workers_timeout_sec'', TInt, VInt 60),
    (''tornado_settings'', TOther, VNone),
    (''max_active_handlers'', TInt, VInt 100),
    (''reuse_port'', TBool, VBool True),
    (''xheaders'', TBool, VBool False),
    (''validate_request_id'', TBool, VBool False),
    (''xsrf_cookies'', TBool, VBool False),
    (''max_body_size'', TInt, VInt 100000000000),
    (''openapi_enabled'', TBool, VBool False),
    (''config'', TOptStr, VNone),
    (''host'', TStr, VStr ''0.0.0.0''),
    (''port'', TInt, VInt 8080),
    (''node_name'', TStr, VStr ''''),
    (''common_executor_pool_size'', TInt, VInt 10),
    (''datacenter'', TOptStr, VNone),
    (''datacenters'', TOther, VList []),
    (''autoreload'', TBool, VBool False),
    (''dev_mode'', TStr, VStr ''DISABLED''),
    (''stop_timeout'', TInt, VInt 3),
    (''asyncio_task_threshold_sec'', TOptFloat, VNone),
    (''asyncio_task_critical_threshold_sec'', TOptFloat, VNone),
    (''log_dir'', TOptStr, VNone),
    (''log_level'', TStr, VStr ''info''),
    (''update_log_level_interval_in_seconds'', TInt, VInt 300),
    (''log_json'', TBool, VBool True),
    (''log_write_appender_name'', TBool, VBool False),
    (''log_text_format'', TStr, VStr ''[%(process)s] %(asctime)s %(levelname)s %(name)s: %(message)s''),
    (''stderr_log'', TBool, VBool False),
    (''stderr_format'', TStr, VStr ''%(color)s[%(levelname)1.1s %(asctime)s %(name)s %(module)s:%(lineno)d]%(end_color)s %(message)s''),
    (''stderr_dateformat'', TStr, VStr ''%H:%M:%S''),
    (''syslog'', TBool, VBool False),
    (''syslog_host'', TStr, VStr ''127.0.0.1''),
    (''syslog_port'', TInt, VInt 514),
    (''syslog_tag'', TStr, VStr ''''),
    (''syslog_facility'', TStr, VStr ''user''),
    (''suppressed_loggers'', TOther, VList []),
    (''debug'', TBool, VBool False),
    (''debug_login'', TOptStr, VNone),
    (''debug_password'', TOptStr, VNone),
    (''http_client_metrics_kafka_cluster'', TOptStr, VNone),
    (''http_client_decrease_timeout_by_deadline'', TOptBool, VBool True),
    (''kafka_clusters'', TOther, VDict []),
    (''scylla_clusters'', TOther, VDict []),
    (''scylla_log_level'', TStr, VStr ''warn''),
    (''scylla_retry_policy_logging'', TBool, VBool False),
    (''scylla_cross_dc_enabled'', TBool, VBool False),
    (''scylla_metrics_allowed'', TOther, VTuple [VStr ''requests_max'', VStr ''requests_percentile_75th'', VStr ''requests_percentile_95th'', VStr ''requests_percentile_99th'', VStr ''errors_connection_timeouts'', VStr ''errors_request_timeouts'']),
    (''scylla_metrics_send_stats'', TBool, VBool True),
    (''scylla_metrics_report_interval'', TInt, VInt 60000),
    (''statsd_host'', TOptStr, VNone),
    (''statsd_port'', TOptInt, VNone),
    (''statsd_default_periodic_send_interval_sec'', TInt, VInt 60),
    (''statsd_max_udp_size'', TOptInt, VNone),
    (''gc_custom_thresholds'', TOptStr, VNone),
    (''gc_metrics_send_interval_ms'', TOptInt, VInt 1000),
    (''long_gc_log_enabled'', TBool, VBool False),
    (''long_gc_log_threshold_sec'', TFloat, VFloat (1 / 100)),
    (''xml_root'', TOptStr, VNone),
    (''xml_cache_limit'', TOptInt, VNone),
    (''xml_cache_step'', TOptInt, VNone),
    (''xsl_root'', TOptStr, VNone),
    (''xsl_cache_limit'', TOptInt, VNone),
    (''xsl_cache_step'', TOptInt, VNone),
    (''xsl_executor_pool_size'', TInt, VInt 1),
    (''jinja_template_root'', TOptStr, VNone),
    (''jinja_template_cache_limit'', TInt, VInt 50),
    (''jinja_streaming_render_timeout_ms'', TInt, VInt 50),
    (''sentry_dsn'', TOptStr, VNone),
    (''sentry_max_breadcrumbs'', TInt, VInt 0),
    (''sentry_sample_rate'', TFloat, VFloat 1),
    (''sentry_enable_tracing'', TOptBool, VNone),
    (''sentry_traces_sample_rate'', TOptFloat, VNone),
    (''sentry_in_app_include'', TStr, VStr ''''),
    (''sentry_exception_integration'', TBool, VBool False),
    (''sentry_logging_integration'', TBool, VBool False),
    (''sentry_profiles_sample_rate'', TOptFloat, VNone),
    (''send_timeout_stats_interval_ms'', TInt, VInt 60000),
    (''service_name'', TOptStr, VNone),
    (''consul_enabled'', TBool, VBool True),
    (''consul_host'', TStr, VStr ''127.0.0.1''),
    (''consul_port'', TOptInt, VNone),
    (''consul_service_address'', TOptStr, VNone),
    (''consul_check_host'', TOptStr, VNone),
    (''consul_http_check_interval_sec'', TInt, VInt 10),
    (''consul_http_check_timeout_sec'', TFloat, VInt 1),
    (''consul_tags'', TOther, VList []),
    (''consul_weight_watch_seconds'', TInt, VInt 600),
    (''consul_weight_total_timeout_sec'', TInt, VInt 650),
    (''consul_cache_initial_warmup_timeout_sec'', TInt, VInt 2),
    (''consul_cache_backoff_delay_seconds'', TInt, VInt 10),
    (''consul_consistency_mode'', TStr, VStr ''default''),
    (''consul_weight_consistency_mode'', TStr, VStr ''default''),
    (''consul_deregister_critical_timeout'', TStr, VStr ''120h''),
    (''consul_self_register'', TBool, VBool True),
    (''upstreams'', TOther, VList []),
    (''cross_datacenter_upstreams'', TStr, VStr ''''),
    (''fail_start_on_empty_upstream'', TBool, VBool True),
    (''skip_empty_upstream_check_for_upstreams'', TOther, VList []),
    (''opentelemetry_collector_url'', TStr, VStr ''http://127.0.0.1:2360''),
    (''opentelemetry_sampler_ratio'', TFloat, VFloat (1 / 100)),
    (''opentelemetry_enabled'', TBool, VBool False),
    (''opentelemetry_exporter_type'', TStr, VStr ''grpc'')]"

type_synonym options = "(string, opt_value) dict"

type_synonym fields = "(string \<times> opt_type) list"

definition option_fields :: fields where
  "option_fields = map (\<lambda>(n, t, _). (n, t)) OPTIONS"

definition new_options :: options where
  "new_options = map (\<lambda>(n, _, d). (n, d)) OPTIONS"

definition ENV_OPTIONS :: "(string \<times> string) list" where
  "ENV_OPTIONS = [(''node_name'', ''NODE_NAME'')]"

definition getattr :: "options \<Rightarrow> string \<Rightarrow> opt_value" where
  "getattr opts n = (case dict_get opts n of Some v \<Rightarrow> v | None \<Rightarrow> VNone)"

section \<open>Configuration files\<close>

text \<open>
  \<open>parse_config_file\<close>: every option takes the value of the file, if it defines one; text given for an
  option declared \<open>int\<close> is converted.
\<close>

fun parse_config_fields :: "fields \<Rightarrow> (string, opt_value) dict \<Rightarrow> options \<Rightarrow> options py" where
  "parse_config_fields [] config opts = Inr opts"
| "parse_config_fields ((n, t) # fs) config opts =
     (let new_value = (case dict_get config n of Some v \<Rightarrow> v | None \<Rightarrow> getattr opts n)
      in case (t, new_value) of
           (TInt, VStr s) \<Rightarrow>
             (case py_int 10 s of
                Some i \<Rightarrow> parse_config_fields fs config (dict_set opts n (VInt i))
              | None \<Rightarrow> Inl ValueError)
         | _ \<Rightarrow> parse_config_fields fs config (dict_set opts n new_value))"

definition parse_config_file :: "(string, opt_value) dict \<Rightarrow> options \<Rightarrow> options py" where
  "parse_config_file config opts = parse_config_fields option_fields config opts"

section \<open>The command line\<close>

text \<open>
  The conversion of one option; \<open>has_value\<close> tells whether the argument had an equals sign. A flag
  declared \<open>bool\<close> may do without; then its value is the empty text, which counts as true.
\<close>

definition convert_option :: "(string \<Rightarrow> rat option) \<Rightarrow> opt_type \<Rightarrow> bool \<Rightarrow> string \<Rightarrow> opt_value py" where
  "convert_option to_float t has_value s =
     (if \<not> has_value \<and> t \<noteq> TBool then Inl (PyException ''Option requires a value'')
      else case t of
        TBool \<Rightarrow> Inr (VBool (lower s \<notin> {''false'', ''0'', ''f''}))
      | TOptBool \<Rightarrow> Inr (VBool (lower s \<notin> {''false'', ''0'', ''f''}))
      | TInt \<Rightarrow> (case py_int 10 s of Some i \<Rightarrow> Inr (VInt i) | None \<Rightarrow> Inl ValueError)
      | TOptInt \<Rightarrow> (case py_int 10 s of Some i \<Rightarrow> Inr (VInt i) | None \<Rightarrow> Inl ValueError)
      | TFloat \<Rightarrow> (case to_float s of Some f \<Rightarrow> Inr (VFloat f) | None \<Rightarrow> Inl ValueError)
      | TOptFloat \<Rightarrow> (case to_float s of Some f \<Rightarrow> Inr (VFloat f) | None \<Rightarrow> Inl ValueError)
      | TStr \<Rightarrow> Inr (VStr s)
      | TOptStr \<Rightarrow> Inr (VStr s)
      | TOther \<Rightarrow> Inl (PyException ''Complex types are not implemented''))"

definition split_argument :: "string \<Rightarrow> string \<times> bool \<times> string" where
  "split_argument arg =
     (case partition_at CHR ''='' (lstrip_char CHR ''-'' arg) of (name, equals, s) \<Rightarrow> (name, equals \<noteq> [], s))"

text \<open>\<open>parse_command_line\<close> on the arguments after the program name.\<close>

fun parse_command_line :: "(string \<Rightarrow> rat option) \<Rightarrow> fields \<Rightarrow> string set \<Rightarrow> string list \<Rightarrow> options \<Rightarrow> options py" where
  "parse_command_line to_float fs allowed [] opts = Inr opts"
| "parse_command_line to_float fs allowed (arg # args) opts =
     (if \<not> starts_with arg ''-'' then Inr opts
      else if arg = ''--'' then Inr opts
      else case split_argument arg of (name, has_value, s) \<Rightarrow>
        (if name \<notin> allowed then parse_command_line to_float fs allowed args opts
         else case find (\<lambda>f. fst f = name) fs of
           None \<Rightarrow> parse_command_line to_float fs allowed args opts
         | Some (_, t) \<Rightarrow>
             py_bind (convert_option to_float t has_value s) (\<lambda>v.
               parse_command_line to_float fs allowed args (dict_set opts name v))))"

section \<open>Reading the configuration\<close>

datatype config_files = NoConfigs | OneConfig string | ManyConfigs "string list"

text \<open>\<open>filter(None, \<dots>)\<close>: an iterator over the non-empty names, used up by the loop over it.\<close>

definition config_names :: "config_files \<Rightarrow> string list" where
  "config_names c = filter (\<lambda>s. s \<noteq> []) (case c of NoConfigs \<Rightarrow> [] | OneConfig s \<Rightarrow> [s] | ManyConfigs ss \<Rightarrow> ss)"

record config_state =
  app_options :: options
  http_client_options :: options
  iterator :: "string list"
  watched :: "string list"

record config_env =
  argv :: "string list"
  environ :: "string \<Rightarrow> string option"
  config_contents :: "string \<Rightarrow> (string, opt_value) dict py"
  hc_fields :: fields
  hc_parse_config_file :: "string \<Rightarrow> options \<Rightarrow> options py"
  to_float :: "string \<Rightarrow> rat option"

definition allowed_options :: "config_env \<Rightarrow> string set" where
  "allowed_options e = fst ` set option_fields \<union> fst ` set (hc_fields e)"

definition next_config :: "config_state \<Rightarrow> (string \<times> config_state) option" where
  "next_config s = (case iterator s of [] \<Rightarrow> None | c # cs \<Rightarrow> Some (c, s\<lparr>iterator := cs\<rparr>))"

text \<open>The loop that reads the files, advancing the iterator.\<close>

function (sequential) read_configs :: "config_env \<Rightarrow> config_state \<Rightarrow> config_state py" where
  "read_configs e s =
     (case next_config s of
        None \<Rightarrow> Inr s
      | Some (c, s') \<Rightarrow>
          py_bind (hc_parse_config_file e c (http_client_options s')) (\<lambda>hc.
          py_bind (config_contents e c) (\<lambda>config.
          py_bind (parse_config_file config (app_options s')) (\<lambda>opts.
            read_configs e (s'\<lparr>http_client_options := hc, app_options := opts\<rparr>)))))"
  by pat_completeness auto
termination
  by (relation "measure (\<lambda>(e, s). length (iterator s))") (auto simp: next_config_def split: list.splits)

declare read_configs.simps [simp del]

definition apply_environment :: "config_env \<Rightarrow> config_state \<Rightarrow> config_state" where
  "apply_environment e s =
     fold (\<lambda>(opt_name, env_name) s.
        let v = (case environ e env_name of Some x \<Rightarrow> VStr x | None \<Rightarrow> getattr (app_options s) opt_name)
        in s\<lparr>app_options := dict_set (app_options s) opt_name v,
             http_client_options := dict_set (http_client_options s) opt_name v\<rparr>) ENV_OPTIONS s"

text \<open>The second loop over the iterator, which watches the files for autoreload.\<close>

function (sequential) watch_configs :: "config_state \<Rightarrow> config_state" where
  "watch_configs s =
     (case next_config s of
        None \<Rightarrow> s
      | Some (c, s') \<Rightarrow>
          watch_configs (if truth_value (getattr (app_options s') ''autoreload'') then s'\<lparr>watched := watched s' @ [c]\<rparr> else s'))"
  by pat_completeness auto
termination
  by (relation "measure (\<lambda>s. length (iterator s))") (auto simp: next_config_def split: list.splits)

declare watch_configs.simps [simp del]

definition choose_configs :: "opt_value \<Rightarrow> config_files \<Rightarrow> config_files py" where
  "choose_configs config given =
     (case config of
        VStr s \<Rightarrow> if s \<noteq> [] then Inr (OneConfig s) else (if given = NoConfigs then Inl (PyException ''Configs can not be None'') else Inr given)
      | _ \<Rightarrow> if given = NoConfigs then Inl (PyException ''Configs can not be None'') else Inr given)"

definition parse_configs :: "config_env \<Rightarrow> config_files \<Rightarrow> options \<Rightarrow> options \<Rightarrow> config_state py" where
  "parse_configs e given opts hc =
     py_bind (parse_command_line (to_float e) option_fields (allowed_options e) (argv e) opts) (\<lambda>opts.
     py_bind (choose_configs (getattr opts ''config'') given) (\<lambda>configs.
     py_bind (read_configs e \<lparr>app_options = opts, http_client_options = hc, iterator = config_names configs, watched = []\<rparr>) (\<lambda>s.
     let s = apply_environment e s
     in py_bind (parse_command_line (to_float e) option_fields (allowed_options e) (argv e) (app_options s)) (\<lambda>opts.
        py_bind (parse_command_line (to_float e) (hc_fields e) (allowed_options e) (argv e) (http_client_options s)) (\<lambda>hc.
          Inr (watch_configs (s\<lparr>app_options := opts, http_client_options := hc\<rparr>)))))))"

section \<open>Lemmas\<close>

text \<open>The arguments that are looked at, and the last of them that sets a name.\<close>

definition considered :: "string list \<Rightarrow> string list" where
  "considered args = takeWhile (\<lambda>a. starts_with a ''-'' \<and> a \<noteq> ''--'') args"

definition names_option :: "string \<Rightarrow> string \<Rightarrow> bool" where
  "names_option n arg \<longleftrightarrow> fst (split_argument arg) = n"

lemma getattr_set [simp]: "getattr (dict_set opts n v) k = (if k = n then v else getattr opts k)"
  by (simp add: getattr_def)

definition target :: "fields \<Rightarrow> string set \<Rightarrow> string \<Rightarrow> (opt_type \<times> bool \<times> string) option" where
  "target fs allowed arg =
     (case split_argument arg of (k, has_value, s) \<Rightarrow>
        if k \<in> allowed then map_option (\<lambda>f. (snd f, has_value, s)) (find (\<lambda>f. fst f = k) fs) else None)"

lemma command_line_Cons:
  "parse_command_line tf fs allowed (arg # args) opts =
     (if starts_with arg ''-'' \<and> arg \<noteq> ''--'' then
        (case target fs allowed arg of
           None \<Rightarrow> parse_command_line tf fs allowed args opts
         | Some (t, has_value, s) \<Rightarrow>
             py_bind (convert_option tf t has_value s) (\<lambda>v.
               parse_command_line tf fs allowed args (dict_set opts (fst (split_argument arg)) v)))
      else Inr opts)"
  by (auto simp: target_def split: prod.split option.split)

lemma considered_Cons:
  "considered (arg # args) = (if starts_with arg ''-'' \<and> arg \<noteq> ''--'' then arg # considered args else [])"
  by (simp add: considered_def)

declare parse_command_line.simps(2) [simp del]

lemma command_line_other:
  "parse_command_line tf fs allowed args opts = Inr opts' \<Longrightarrow> \<forall>a \<in> set (considered args). \<not> names_option n a \<Longrightarrow>
   getattr opts' n = getattr opts n"
proof (induction args arbitrary: opts)
  case (Cons arg args)
  show ?case
  proof (cases "starts_with arg ''-'' \<and> arg \<noteq> ''--''")
    case True
    with Cons.prems(2) have rest: "\<forall>a \<in> set (considered args). \<not> names_option n a" and k: "fst (split_argument arg) \<noteq> n"
      by (auto simp: considered_Cons names_option_def)
    show ?thesis
    proof (cases "target fs allowed arg")
      case None
      with Cons.prems(1) True have "parse_command_line tf fs allowed args opts = Inr opts'" by (simp add: command_line_Cons)
      from Cons.IH [OF this rest] show ?thesis .
    next
      case (Some a)
      with Cons.prems(1) True obtain v where
        "parse_command_line tf fs allowed args (dict_set opts (fst (split_argument arg)) v) = Inr opts'"
        by (auto simp: command_line_Cons py_bind_Inr_conv split: prod.splits)
      from Cons.IH [OF this rest] k show ?thesis by simp
    qed
  next
    case False
    with Cons.prems(1) show ?thesis by (auto simp: command_line_Cons)
  qed
qed simp

lemma command_line_last:
  assumes "parse_command_line tf fs allowed args opts = Inr opts'" and "considered args = us @ arg # vs"
    and "\<forall>a \<in> set vs. \<not> names_option (fst (split_argument arg)) a" and "target fs allowed arg = Some (t, has_value, s)"
  shows "convert_option tf t has_value s = Inr (getattr opts' (fst (split_argument arg)))"
  using assms(1,2)
proof (induction args arbitrary: opts us)
  case Nil
  then show ?case by (simp add: considered_def)
next
  case (Cons a args)
  then have a: "starts_with a ''-'' \<and> a \<noteq> ''--''" by (auto simp: considered_Cons split: if_splits)
  show ?case
  proof (cases us)
    case Nil
    with Cons.prems(2) a have "a = arg" "considered args = vs" by (auto simp: considered_Cons)
    with Cons.prems(1) a assms(4) obtain v where v: "convert_option tf t has_value s = Inr v"
      "parse_command_line tf fs allowed args (dict_set opts (fst (split_argument arg)) v) = Inr opts'"
      by (auto simp: command_line_Cons py_bind_Inr_conv)
    from command_line_other [OF v(2)] assms(3) \<open>considered args = vs\<close> v(1) show ?thesis by simp
  next
    case (Cons u us')
    with Cons.prems(2) a have c: "considered args = us' @ arg # vs" by (simp add: considered_Cons)
    from Cons.prems(1) a obtain opts1 where "parse_command_line tf fs allowed args opts1 = Inr opts'"
      by (auto simp: command_line_Cons py_bind_Inr_conv split: option.splits prod.splits)
    from Cons.IH [OF this c] show ?thesis .
  qed
qed

lemma option_names_distinct: "distinct (map fst option_fields)"
  by (simp add: option_fields_def OPTIONS_def)

lemma node_name_text: "(n, TInt) \<in> set option_fields \<Longrightarrow> n \<noteq> ''node_name''"
proof
  assume "(n, TInt) \<in> set option_fields" "n = ''node_name''"
  moreover have "(''node_name'', TStr) \<in> set option_fields" by code_simp
  ultimately show False using option_names_distinct by (auto dest: eq_key_imp_eq_value)
qed

text \<open>What a configuration file does to one option, and what the loop over the files does.\<close>

lemma config_fields_other:
  "parse_config_fields fs config opts = Inr opts' \<Longrightarrow> n \<notin> fst ` set fs \<Longrightarrow> getattr opts' n = getattr opts n"
  by (induction fs config opts rule: parse_config_fields.induct)
    (auto simp: Let_def split: opt_type.splits opt_value.splits option.splits)

definition from_file :: "(string, opt_value) dict \<Rightarrow> string \<Rightarrow> opt_value \<Rightarrow> opt_value" where
  "from_file config n v = (case dict_get config n of Some x \<Rightarrow> x | None \<Rightarrow> v)"

lemma config_fields_ConsE:
  assumes "parse_config_fields ((n, t) # fs) config opts = Inr opts'"
  obtains v where "parse_config_fields fs config (dict_set opts n v) = Inr opts'"
    and "t \<noteq> TInt \<Longrightarrow> v = from_file config n (getattr opts n)" and "\<And>x. t = TInt \<Longrightarrow> v \<noteq> VStr x"
proof -
  let ?new = "from_file config n (getattr opts n)"
  consider x where "t = TInt" "?new = VStr x" | "t \<noteq> TInt" | "t = TInt" "\<And>x. ?new \<noteq> VStr x" by metis
  then show thesis
  proof cases
    case 1
    with assms that show ?thesis by (auto simp: Let_def from_file_def [symmetric] split: option.splits)
  next
    case 2
    with assms that [of ?new] show ?thesis by (cases t) (simp_all add: Let_def from_file_def [symmetric])
  next
    case 3
    with assms that [of ?new] show ?thesis by (cases ?new) (auto simp: Let_def from_file_def [symmetric])
  qed
qed

lemma config_fields_value:
  assumes "parse_config_fields fs config opts = Inr opts'" and "distinct (map fst fs)" and "(n, t) \<in> set fs"
  shows "(t \<noteq> TInt \<longrightarrow> getattr opts' n = from_file config n (getattr opts n)) \<and>
    (t = TInt \<longrightarrow> (\<forall>x. getattr opts' n \<noteq> VStr x))"
  using assms
proof (induction fs arbitrary: opts)
  case (Cons f fs)
  obtain k u where f: "f = (k, u)" by fastforce
  from Cons.prems(1) f obtain v where v: "parse_config_fields fs config (dict_set opts k v) = Inr opts'"
    "u \<noteq> TInt \<Longrightarrow> v = from_file config k (getattr opts k)" "\<And>x. u = TInt \<Longrightarrow> v \<noteq> VStr x"
    by (metis config_fields_ConsE)
  show ?case
  proof (cases "k = n")
    case True
    with Cons.prems f have "t = u" "n \<notin> fst ` set fs" by force+
    with config_fields_other [OF v(1)] v(2,3) True show ?thesis by auto
  next
    case False
    with Cons.prems f have "distinct (map fst fs)" "(n, t) \<in> set fs" by auto
    from Cons.IH [OF v(1) this] False show ?thesis by simp
  qed
qed simp

definition no_text :: "options \<Rightarrow> string \<Rightarrow> bool" where
  "no_text opts n \<longleftrightarrow> (case getattr opts n of VStr _ \<Rightarrow> False | _ \<Rightarrow> True)"

lemma no_text_iff: "no_text opts n \<longleftrightarrow> (\<forall>x. getattr opts n \<noteq> VStr x)"
  by (auto simp: no_text_def split: opt_value.splits)

definition ints_typed :: "options \<Rightarrow> bool" where
  "ints_typed opts \<longleftrightarrow> (\<forall>(n, t) \<in> set option_fields. t = TInt \<longrightarrow> no_text opts n)"

lemma config_file_option:
  assumes "parse_config_file config opts = Inr opts'" and "(n, t) \<in> set option_fields" and "t \<noteq> TInt"
  shows "getattr opts' n = from_file config n (getattr opts n)"
  using config_fields_value [OF assms(1) [unfolded parse_config_file_def] option_names_distinct assms(2)] assms(3) by simp

lemma config_file_ints: "parse_config_file config opts = Inr opts' \<Longrightarrow> ints_typed opts'"
  using config_fields_value [OF _ option_names_distinct] by (auto simp: parse_config_file_def ints_typed_def no_text_iff)

definition file_value :: "config_env \<Rightarrow> string \<Rightarrow> string \<Rightarrow> opt_value \<Rightarrow> opt_value" where
  "file_value e n c v = (case config_contents e c of Inr config \<Rightarrow> from_file config n v | Inl _ \<Rightarrow> v)"

lemma read_configs_ConsE:
  assumes "read_configs e s = Inr s'" and "iterator s = c # cs"
  obtains config opts hc where "config_contents e c = Inr config" and "parse_config_file config (app_options s) = Inr opts"
    and "read_configs e (s\<lparr>iterator := cs, http_client_options := hc, app_options := opts\<rparr>) = Inr s'"
  using assms by (auto simp: read_configs.simps [of e s] next_config_def py_bind_Inr_conv)

lemma read_configs_Nil: "iterator s = [] \<Longrightarrow> read_configs e s = Inr s"
  by (simp add: read_configs.simps next_config_def)

lemma read_configs_result:
  assumes "read_configs e s = Inr s'"
  shows "iterator s' = [] \<and> watched s' = watched s \<and> (ints_typed (app_options s) \<longrightarrow> ints_typed (app_options s')) \<and>
    (\<forall>n t. (n, t) \<in> set option_fields \<and> t \<noteq> TInt \<longrightarrow>
      getattr (app_options s') n = fold (file_value e n) (iterator s) (getattr (app_options s) n))"
  using assms
proof (induction "iterator s" arbitrary: s)
  case Nil
  then show ?case by (simp add: read_configs_Nil)
next
  case (Cons c cs)
  from Cons.prems Cons.hyps(2) obtain config opts hc where step: "config_contents e c = Inr config"
    "parse_config_file config (app_options s) = Inr opts"
    "read_configs e (s\<lparr>iterator := cs, http_client_options := hc, app_options := opts\<rparr>) = Inr s'"
    by (metis read_configs_ConsE)
  from Cons.hyps(1) [OF _ step(3)] config_file_option [OF step(2)] config_file_ints [OF step(2)] step(1) Cons.hyps(2) [symmetric]
  show ?case by (auto simp: file_value_def)
qed

lemma watch_configs_Nil: "iterator s = [] \<Longrightarrow> watch_configs s = s"
  by (simp add: watch_configs.simps next_config_def)

lemma apply_environment_simp:
  "app_options (apply_environment e s) = dict_set (app_options s) ''node_name''
     (case environ e ''NODE_NAME'' of Some x \<Rightarrow> VStr x | None \<Rightarrow> getattr (app_options s) ''node_name'')"
  "iterator (apply_environment e s) = iterator s" "watched (apply_environment e s) = watched s"
  by (simp_all add: apply_environment_def ENV_OPTIONS_def Let_def)

lemma command_line_ints:
  "parse_command_line tf option_fields allowed args opts = Inr opts' \<Longrightarrow> ints_typed opts \<Longrightarrow> ints_typed opts'"
proof (induction args arbitrary: opts)
  case (Cons arg args)
  show ?case
  proof (cases "starts_with arg ''-'' \<and> arg \<noteq> ''--'' \<and> target option_fields allowed arg \<noteq> None")
    case True
    then obtain t h s where tg: "target option_fields allowed arg = Some (t, h, s)" by (auto split: prod.splits)
    let ?k = "fst (split_argument arg)"
    from Cons.prems(1) True tg obtain v where v: "convert_option tf t h s = Inr v"
      "parse_command_line tf option_fields allowed args (dict_set opts ?k v) = Inr opts'"
      by (auto simp: command_line_Cons py_bind_Inr_conv)
    from tg have k: "(?k, t) \<in> set option_fields"
      by (auto simp: target_def find_Some_iff split: prod.splits if_splits) (metis fst_conv nth_mem)
    have "ints_typed (dict_set opts ?k v)"
      unfolding ints_typed_def
    proof (clarsimp simp: no_text_iff)
      fix n x assume n: "(n, TInt) \<in> set option_fields" and x: "(if n = ?k then v else getattr opts n) = VStr x"
      with Cons.prems(2) have "n = ?k" "v = VStr x"
        by (auto simp: ints_typed_def no_text_iff split: if_splits)
      with n k option_names_distinct have "t = TInt" by (auto dest: eq_key_imp_eq_value)
      with v(1) \<open>v = VStr x\<close> show False by (auto simp: convert_option_def split: if_splits option.splits)
    qed
    from Cons.IH [OF v(2) this] show ?thesis .
  next
    case False
    with Cons show ?thesis by (auto simp: command_line_Cons split: if_splits option.splits)
  qed
qed simp

lemma environment_ints: "ints_typed (app_options s) \<Longrightarrow> ints_typed (app_options (apply_environment e s))"
  using node_name_text by (fastforce simp: ints_typed_def no_text_iff apply_environment_simp)

text \<open>The parts of a successful run.\<close>

lemma parse_configsE:
  assumes "parse_configs e given opts hc = Inr s"
  obtains opts1 configs s1 opts2 where
    "parse_command_line (to_float e) option_fields (allowed_options e) (argv e) opts = Inr opts1"
    "choose_configs (getattr opts1 ''config'') given = Inr configs"
    "read_configs e \<lparr>app_options = opts1, http_client_options = hc, iterator = config_names configs, watched = []\<rparr> = Inr s1"
    "parse_command_line (to_float e) option_fields (allowed_options e) (argv e) (app_options (apply_environment e s1)) = Inr opts2"
    "app_options s = opts2" "watched s = []"
proof -
  from assms obtain opts1 configs s1 opts2 hc2 where
    r: "parse_command_line (to_float e) option_fields (allowed_options e) (argv e) opts = Inr opts1"
    "choose_configs (getattr opts1 ''config'') given = Inr configs"
    "read_configs e \<lparr>app_options = opts1, http_client_options = hc, iterator = config_names configs, watched = []\<rparr> = Inr s1"
    "parse_command_line (to_float e) option_fields (allowed_options e) (argv e) (app_options (apply_environment e s1)) = Inr opts2"
    "s = watch_configs ((apply_environment e s1)\<lparr>app_options := opts2, http_client_options := hc2\<rparr>)"
    by (auto simp: parse_configs_def py_bind_Inr_conv Let_def)
  from read_configs_result [OF r(3)] have "iterator s1 = []" "watched s1 = []" by simp_all
  with r(5) have "s = (apply_environment e s1)\<lparr>app_options := opts2, http_client_options := hc2\<rparr>"
    by (simp add: watch_configs_Nil apply_environment_simp)
  with that [OF r(1-4)] \<open>watched s1 = []\<close> show thesis by (simp add: apply_environment_simp)
qed

section \<open>A sample run\<close>

text \<open>A file is accepted when no option declared \<open>int\<close> is given a text in it.\<close>

lemma config_fields_succeed:
  "distinct (map fst fs) \<Longrightarrow> \<forall>(n, t) \<in> set fs. t = TInt \<longrightarrow> (\<forall>x. from_file config n (getattr opts n) \<noteq> VStr x) \<Longrightarrow>
   \<exists>opts'. parse_config_fields fs config opts = Inr opts'"
proof (induction fs arbitrary: opts)
  case (Cons f fs)
  obtain k u where f: "f = (k, u)" by fastforce
  let ?v = "from_file config k (getattr opts k)"
  have "parse_config_fields (f # fs) config opts = parse_config_fields fs config (dict_set opts k ?v)"
  proof -
    from Cons.prems(2) f have "u = TInt \<Longrightarrow> ?v \<noteq> VStr x" for x by auto
    then show ?thesis by (cases u; cases ?v) (auto simp: f Let_def from_file_def [symmetric])
  qed
  moreover have "\<exists>opts'. parse_config_fields fs config (dict_set opts k ?v) = Inr opts'"
  proof (rule Cons.IH)
    show "distinct (map fst fs)" using Cons.prems(1) by simp
    have "n \<noteq> k" if "(n, t) \<in> set fs" for n t using Cons.prems(1) f that by force
    with Cons.prems(2) show "\<forall>(n, t) \<in> set fs. t = TInt \<longrightarrow> (\<forall>x. from_file config n (getattr (dict_set opts k ?v) n) \<noteq> VStr x)"
      by auto
  qed
  ultimately show ?case by simp
qed simp

lemma config_file_succeeds:
  assumes "ints_typed opts" and "\<forall>(n, v) \<in> set config. \<forall>x. (n, TInt) \<in> set option_fields \<longrightarrow> v \<noteq> VStr x"
  shows "\<exists>opts'. parse_config_file config opts = Inr opts'"
  unfolding parse_config_file_def
proof (rule config_fields_succeed [OF option_names_distinct])
  show "\<forall>(n, t) \<in> set option_fields. t = TInt \<longrightarrow> (\<forall>x. from_file config n (getattr opts n) \<noteq> VStr x)"
  proof (clarsimp)
    fix n x assume n: "(n, TInt) \<in> set option_fields" and x: "from_file config n (getattr opts n) = VStr x"
    show False
    proof (cases "dict_get config n")
      case None
      with x n assms(1) show False by (auto simp: from_file_def ints_typed_def no_text_iff)
    next
      case (Some v)
      then have "(n, v) \<in> set config" by (simp add: dict_get_def map_of_SomeD)
      with Some x n assms(2) show False by (auto simp: from_file_def)
    qed
  qed
qed

lemma new_options_get: "(n, t, d) \<in> set OPTIONS \<Longrightarrow> getattr new_options n = d"
proof -
  assume "(n, t, d) \<in> set OPTIONS"
  then have "(n, d) \<in> set new_options" by (force simp: new_options_def)
  moreover have "map fst new_options = map fst option_fields" by (auto simp: new_options_def option_fields_def)
  ultimately show ?thesis using option_names_distinct by (simp add: getattr_def dict_get_def)
qed

lemma new_options_ints: "ints_typed new_options"
proof -
  have "list_all (\<lambda>(n, t, d). t = TInt \<longrightarrow> (case d of VStr _ \<Rightarrow> False | _ \<Rightarrow> True)) OPTIONS" by code_simp
  then show ?thesis
    by (auto simp: ints_typed_def no_text_def option_fields_def list_all_iff new_options_get)
qed

definition sample_env :: config_env where
  "sample_env = \<lparr>argv = [''--port=99'', ''--debug'', ''--unknown=1''], environ = (\<lambda>_. None),
     config_contents = (\<lambda>c. if c = ''a.cfg'' then Inr [(''port'', VInt 8081), (''service_name'', VStr ''a'')]
       else if c = ''b.cfg'' then Inr [(''service_name'', VStr ''b''), (''autoreload'', VBool True)]
       else Inl (PyException ''FileNotFoundError'')),
     hc_fields = [], hc_parse_config_file = (\<lambda>_ opts. Inr opts), to_float = (\<lambda>_. None)\<rparr>"

lemma sample_env_simps:
  "argv sample_env = [''--port=99'', ''--debug'', ''--unknown=1'']" "environ sample_env = (\<lambda>_. None)"
  "config_contents sample_env ''a.cfg'' = Inr [(''port'', VInt 8081), (''service_name'', VStr ''a'')]"
  "config_contents sample_env ''b.cfg'' = Inr [(''service_name'', VStr ''b''), (''autoreload'', VBool True)]"
  "hc_fields sample_env = []" "hc_parse_config_file sample_env = (\<lambda>_ opts. Inr opts)"
  by (simp_all add: sample_env_def)

lemma sample_members:
  "(''port'', TInt) \<in> set option_fields" "(''service_name'', TOptStr) \<in> set option_fields"
  "(''debug'', TBool) \<in> set option_fields" "(''autoreload'', TBool) \<in> set option_fields"
  by code_simp+

lemma sample_not_int:
  "(''service_name'', TInt) \<notin> set option_fields" "(''autoreload'', TInt) \<notin> set option_fields"
  by code_simp+

lemma sample_split:
  "split_argument ''--port=99'' = (''port'', True, ''99'')" "split_argument ''--debug'' = (''debug'', False, [])"
  "split_argument ''--unknown=1'' = (''unknown'', True, ''1'')"
  by code_simp+

lemma target_app:
  "target option_fields (allowed_options e) arg =
     (case split_argument arg of (k, h, s) \<Rightarrow> map_option (\<lambda>f. (snd f, h, s)) (find (\<lambda>f. fst f = k) option_fields))"
proof -
  have "k \<in> allowed_options e" if "find (\<lambda>f. fst f = k) option_fields = Some f" for k f
    using that by (auto simp: find_Some_iff allowed_options_def)
  then show ?thesis by (cases "find (\<lambda>f. fst f = fst (split_argument arg)) option_fields") (auto simp: target_def split: prod.split)
qed

lemma sample_find:
  "find (\<lambda>f. fst f = ''port'') option_fields = Some (''port'', TInt)"
  "find (\<lambda>f. fst f = ''debug'') option_fields = Some (''debug'', TBool)"
  "find (\<lambda>f. fst f = ''unknown'') option_fields = None"
  by code_simp+

lemma sample_targets:
  "target option_fields (allowed_options sample_env) ''--port=99'' = Some (TInt, True, ''99'')"
  "target option_fields (allowed_options sample_env) ''--debug'' = Some (TBool, False, [])"
  "target option_fields (allowed_options sample_env) ''--unknown=1'' = None"
  "target [] (allowed_options sample_env) arg = None"
  by (simp_all add: target_app sample_split sample_find) (simp add: target_def split: prod.split)

lemma sample_considered: "considered (argv sample_env) = [''--port=99'', ''--debug'', ''--unknown=1'']"
  unfolding sample_env_simps by code_simp

lemma sample_converted:
  "convert_option tf TInt True ''99'' = Inr (VInt 99)" "convert_option tf TBool False [] = Inr (VBool True)"
  by (simp_all add: convert_option_def lower_def) code_simp

lemma sample_command_line:
  "parse_command_line tf option_fields (allowed_options sample_env) (argv sample_env) opts =
     Inr (dict_set (dict_set opts ''port'' (VInt 99)) ''debug'' (VBool True))"
  "parse_command_line tf [] (allowed_options sample_env) (argv sample_env) opts = Inr opts"
  by (simp_all add: sample_env_simps(1) command_line_Cons sample_targets sample_split sample_converted starts_with_def)

lemma sample_run: "\<exists>s. parse_configs sample_env (ManyConfigs [''a.cfg'', ''b.cfg'']) new_options [] = Inr s"
proof -
  let ?o = "dict_set (dict_set new_options ''port'' (VInt 99)) ''debug'' (VBool True)"
  have o: "ints_typed ?o" using command_line_ints [OF sample_command_line(1) new_options_ints] .
  have "getattr new_options ''config'' = VNone" by (rule new_options_get [of _ TOptStr]) code_simp
  then have c: "choose_configs (getattr ?o ''config'') (ManyConfigs [''a.cfg'', ''b.cfg'']) = Inr (ManyConfigs [''a.cfg'', ''b.cfg''])"
    by (simp add: choose_configs_def)
  from config_file_succeeds [OF o] obtain o1 where o1: "parse_config_file [(''port'', VInt 8081), (''service_name'', VStr ''a'')] ?o = Inr o1"
    using sample_not_int by fastforce
  from config_file_succeeds [OF config_file_ints [OF o1]] obtain o2 where
    o2: "parse_config_file [(''service_name'', VStr ''b''), (''autoreload'', VBool True)] o1 = Inr o2"
    using sample_not_int by fastforce
  have "\<exists>s. read_configs sample_env \<lparr>app_options = ?o, http_client_options = [],
      iterator = config_names (ManyConfigs [''a.cfg'', ''b.cfg'']), watched = []\<rparr> = Inr s"
    by (simp add: config_names_def read_configs.simps next_config_def sample_env_simps o1 o2)
  then show ?thesis
    using c by (auto simp: parse_configs_def sample_command_line Let_def sample_env_simps(5))
qed

section \<open>Properties\<close>



text \<open>C33. 
  The options declared \<open>int\<close> never hold a text after the configuration was read, although files and
  command line give texts.
\<close>

theorem int_options_hold_no_text:
  assumes "parse_configs e given opts hc = Inr s" and "ints_typed opts"
  shows "ints_typed (app_options s)"
proof -
  from assms(1) obtain opts1 configs s1 opts2 where r:
    "parse_command_line (to_float e) option_fields (allowed_options e) (argv e) opts = Inr opts1"
    "read_configs e \<lparr>app_options = opts1, http_client_options = hc, iterator = config_names configs, watched = []\<rparr> = Inr s1"
    "parse_command_line (to_float e) option_fields (allowed_options e) (argv e) (app_options (apply_environment e s1)) = Inr opts2"
    "app_options s = opts2"
    by (rule parse_configsE)
  from command_line_ints [OF r(1) assms(2)] read_configs_result [OF r(2)] have "ints_typed (app_options s1)" by simp
  from command_line_ints [OF r(3) environment_ints [OF this]] r(4) show ?thesis by simp
qed

theorem int_options_hold_no_text_witness:
  "\<exists>s. parse_configs sample_env (ManyConfigs [''a.cfg'', ''b.cfg'']) new_options [] = Inr s \<and> ints_typed (app_options s)"
  using sample_run int_options_hold_no_text [OF _ new_options_ints] by blast

text \<open>
  No configuration file is ever watched for autoreload, even with the option set: the loop that watches
  them runs over the iterator the reading loop has used up.
\<close>

theorem autoreload_watches_no_config:
  assumes "parse_configs e given opts hc = Inr s"
  shows "watched s = []"
  using assms by (rule parse_configsE)

theorem autoreload_watches_no_config_witness:
  "\<exists>s. parse_configs sample_env (ManyConfigs [''a.cfg'', ''b.cfg'']) new_options [] = Inr s \<and> watched s = []"
  using sample_run autoreload_watches_no_config by blast

end
