(* ===== verification/Util.thy ===== *)
theory Util
  imports Integrations "HOL-Library.Word"
begin

text \<open>
  Helpers of \<open>frontik/util/__init__.py\<close>, \<open>util/json.py\<close> and \<open>util/xml.py\<close>: query strings and URLs,
  reversing of regular expressions, paths, context variables and background tasks, conversion of values
  to JSON and between dictionaries and XML. Strings are read as sequences of code points below 256.
\<close>

section \<open>Query strings\<close>

text \<open>\<open>urllib.parse.quote_plus\<close> with no extra safe characters, over the UTF-8 bytes of the text.\<close>

definition hex_digit_upper :: "nat \<Rightarrow> char" where
  "hex_digit_upper n = (if n < 10 then char_of (48 + n) else char_of (55 + n))"

definition percent :: "nat \<Rightarrow> string" where
  "percent b = [CHR ''%'', hex_digit_upper (b div 16), hex_digit_upper (b mod 16)]"

definition utf8_bytes :: "nat \<Rightarrow> nat list" where
  "utf8_bytes n = (if n < 128 then [n] else [192 + n div 64, 128 + n mod 64])"

definition url_safe :: "nat \<Rightarrow> bool" where
  "url_safe n \<longleftrightarrow> (48 \<le> n \<and> n \<le> 57) \<or> (65 \<le> n \<and> n \<le> 90) \<or> (97 \<le> n \<and> n \<le> 122) \<or> n \<in> {45, 46, 95, 126}"

definition quote_char :: "char \<Rightarrow> string" where
  "quote_char c = (let n = (of_char c :: nat) in
     if c = CHR '' '' then ''+'' else if url_safe n then [c] else concat (map percent (utf8_bytes n)))"

definition quote_plus :: "string \<Rightarrow> string" where
  "quote_plus s = concat (map quote_char s)"

text \<open>The values of query arguments: nothing, a text, a number, or a sequence, whose items are given by their texts.\<close>

datatype query_value = QNone | QText string | QInt int | QSeq "string list"

fun value_texts :: "query_value \<Rightarrow> string list" where
  "value_texts QNone = [''None'']"
| "value_texts (QText s) = [s]"
| "value_texts (QInt i) = [str_of_int i]"
| "value_texts (QSeq ss) = ss"

definition urlencode :: "(string \<times> query_value) list \<Rightarrow> string" where
  "urlencode args =
     join_with ''&'' (concat (map (\<lambda>(k, v). map (\<lambda>s. quote_plus k @ ''='' @ quote_plus s) (value_texts v)) args))"

definition make_qs :: "(string, query_value) dict \<Rightarrow> string" where
  "make_qs query_args = urlencode (filter (\<lambda>(k, v). v \<noteq> QNone) query_args)"

datatype body = BodyDict "(string, query_value) dict" | BodyText string

definition make_body :: "(string \<Rightarrow> string) \<Rightarrow> body \<Rightarrow> string" where
  "make_body any_to_bytes data = (case data of BodyDict d \<Rightarrow> make_qs d | BodyText s \<Rightarrow> any_to_bytes s)"

definition make_url :: "string \<Rightarrow> (string, query_value) dict \<Rightarrow> string" where
  "make_url base query_args =
     (let qs = make_qs query_args
      in if qs \<noteq> [] then base @ (if CHR ''?'' \<in> set base then ''&'' else ''?'') @ qs else base)"

text \<open>The reading of a query string by its receiver, on ASCII texts: the reference for the round trip.\<close>

definition hex_value :: "char \<Rightarrow> nat" where
  "hex_value c = (let n = (of_char c :: nat) in if n \<le> 57 then n - 48 else n - 55)"

fun unquote_plus :: "string \<Rightarrow> string" where
  "unquote_plus [] = []"
| "unquote_plus (c # cs) =
     (if c = CHR ''+'' then CHR '' '' # unquote_plus cs
      else if c = CHR ''%'' then
        (case cs of h # l # r \<Rightarrow> char_of (16 * hex_value h + hex_value l) # unquote_plus r | _ \<Rightarrow> c # unquote_plus cs)
      else c # unquote_plus cs)"

definition parse_item :: "string \<Rightarrow> string \<times> string" where
  "parse_item item = (case partition_at CHR ''='' item of (k, _, v) \<Rightarrow> (unquote_plus k, unquote_plus v))"

definition parse_query :: "string \<Rightarrow> (string \<times> string) list" where
  "parse_query qs = map parse_item (split_on CHR ''&'' qs)"

definition query_items :: "(string, query_value) dict \<Rightarrow> (string \<times> string) list" where
  "query_items args = concat (map (\<lambda>(k, v). if v = QNone then [] else map (Pair k) (value_texts v)) args)"

definition ascii :: "string \<Rightarrow> bool" where
  "ascii s \<longleftrightarrow> (\<forall>c \<in> set s. (of_char c :: nat) < 128)"

lemma hex_value_digit: "n < 16 \<Longrightarrow> hex_value (hex_digit_upper n) = n"
  by (simp add: hex_value_def hex_digit_upper_def Let_def)

lemma percent_decoded: "n < 256 \<Longrightarrow> unquote_plus (percent n @ r) = char_of n # unquote_plus r"
  by (simp add: percent_def hex_value_digit)

lemma unquote_char: "(of_char c :: nat) < 128 \<Longrightarrow> unquote_plus (quote_char c @ r) = c # unquote_plus r"
proof -
  assume c: "(of_char c :: nat) < 128"
  show ?thesis
  proof (cases "c = CHR '' '' \<or> url_safe (of_char c)")
    case True
    then show ?thesis by (auto simp: quote_char_def url_safe_def Let_def)
  next
    case False
    with c show ?thesis by (simp add: quote_char_def Let_def utf8_bytes_def percent_decoded)
  qed
qed

lemma unquote_quote: "ascii s \<Longrightarrow> unquote_plus (quote_plus s) = s"
  by (induction s) (auto simp: quote_plus_def ascii_def unquote_char)

lemma quote_char_chars: "x \<in> set (quote_char c) \<Longrightarrow> x = CHR ''+'' \<or> x = CHR ''%'' \<or> url_safe (of_char x)"
proof -
  have hex: "url_safe (of_char (hex_digit_upper n))" if "n < 16" for n
    using that by (simp add: hex_digit_upper_def url_safe_def)
  have "url_safe (of_char y) \<or> y = CHR ''%''" if "y \<in> set (percent b)" "b < 256" for y b
    using that hex [of "b div 16"] hex [of "b mod 16"] by (auto simp: percent_def)
  moreover have "b < 256" if "b \<in> set (utf8_bytes (of_char c))" for b
  proof -
    have "(of_char c :: nat) < 256" by (metis of_char_mod_256 mod_less_divisor zero_less_numeral)
    moreover from this have "(of_char c :: nat) div 64 < 4" by (simp add: less_mult_imp_div_less)
    ultimately show ?thesis using that by (auto simp: utf8_bytes_def split: if_splits)
  qed
  moreover assume "x \<in> set (quote_char c)"
  ultimately show ?thesis by (auto simp: quote_char_def Let_def split: if_splits)
qed

lemma quote_plus_free:
  "CHR ''&'' \<notin> set (quote_plus s)" "CHR ''='' \<notin> set (quote_plus s)" "CHR ''?'' \<notin> set (quote_plus s)"
  by (auto simp: quote_plus_def url_safe_def dest!: quote_char_chars)

lemma query_items_encoded:
  "make_qs args = join_with ''&'' (map (\<lambda>(k, s). quote_plus k @ ''='' @ quote_plus s) (query_items args))"
proof -
  have "concat (map (\<lambda>(k, v). map (\<lambda>s. quote_plus k @ ''='' @ quote_plus s) (value_texts v)) (filter (\<lambda>(k, v). v \<noteq> QNone) args)) =
      map (\<lambda>(k, s). quote_plus k @ ''='' @ quote_plus s) (query_items args)"
    by (induction args) (auto simp: query_items_def)
  then show ?thesis by (simp add: make_qs_def urlencode_def)
qed

lemma parse_query_make_qs:
  assumes "query_items args \<noteq> []" and "\<forall>(k, s) \<in> set (query_items args). ascii k \<and> ascii s"
  shows "parse_query (make_qs args) = query_items args"
proof -
  let ?enc = "\<lambda>(k, s). quote_plus k @ ''='' @ quote_plus s"
  have "split_on CHR ''&'' (join_with ''&'' (map ?enc (query_items args))) = map ?enc (query_items args)"
    using assms(1) by (intro split_on_join) (auto simp: quote_plus_free)
  moreover have "parse_item (?enc p) = p" if "p \<in> set (query_items args)" for p
    using that assms(2) by (auto simp: parse_item_def partition_at_found quote_plus_free unquote_quote)
  ultimately show ?thesis by (simp add: parse_query_def query_items_encoded map_idI)
qed

text \<open>\<open>decode_string_from_charset\<close>: the first charset that decodes the bytes; decoding is a parameter.\<close>

datatype text_or_bytes = Text string | Bytes "8 word list"

fun try_charsets :: "(string \<Rightarrow> 8 word list \<Rightarrow> string option) \<Rightarrow> 8 word list \<Rightarrow> string list \<Rightarrow> string option" where
  "try_charsets decode b [] = None"
| "try_charsets decode b (c # cs) = (case decode c b of Some s \<Rightarrow> Some s | None \<Rightarrow> try_charsets decode b cs)"

definition decode_string_from_charset ::
  "(string \<Rightarrow> 8 word list \<Rightarrow> string option) \<Rightarrow> string list \<Rightarrow> text_or_bytes \<Rightarrow> string py" where
  "decode_string_from_charset decode charsets v =
     (case v of
        Text s \<Rightarrow> Inr s
      | Bytes b \<Rightarrow>
          (case try_charsets decode b charsets of
             Some s \<Rightarrow> Inr s
           | None \<Rightarrow> Inl (PyException (''UnicodeError: Could not decode string (tried: '' @ join_with '', '' charsets @ '')''))))"

section \<open>Reversing a regular expression\<close>

text \<open>
  \<open>reverse_regex_named_groups\<close>. \<open>re.sub\<close> with the pattern \<open>\(([^)]+)\)\<close> replaces, from left to right, an
  opening parenthesis, the characters up to the next closing one (at least one) and that one.
\<close>

definition group_at :: "string \<Rightarrow> (string \<times> string) option" where
  "group_at s =
     (case s of
        [] \<Rightarrow> None
      | c # cs \<Rightarrow>
          if c \<noteq> CHR ''('' then None
          else (case dropWhile (\<lambda>x. x \<noteq> CHR '')'') cs of
                  [] \<Rightarrow> None
                | _ # rest \<Rightarrow> let g = takeWhile (\<lambda>x. x \<noteq> CHR '')'') cs in if g = [] then None else Some (g, rest)))"

lemma group_at_shorter: "group_at s = Some (g, rest) \<Longrightarrow> length rest < length s"
proof -
  assume "group_at s = Some (g, rest)"
  then obtain c cs y where "s = c # cs" "dropWhile (\<lambda>x. x \<noteq> CHR '')'') cs = y # rest"
    by (auto simp: group_at_def Let_def split: list.splits if_splits)
  moreover have "length (dropWhile (\<lambda>x. x \<noteq> CHR '')'') cs) \<le> length cs" by (rule length_dropWhile_le)
  ultimately show ?thesis by simp
qed

definition word_char :: "char \<Rightarrow> bool" where
  "word_char c \<longleftrightarrow> (let n = (of_char c :: nat) in (48 \<le> n \<and> n \<le> 57) \<or> (65 \<le> n \<and> n \<le> 90) \<or> (97 \<le> n \<and> n \<le> 122) \<or> n = 95)"

text \<open>The name of a group \<open>?P<name>\<dots>\<close>: a word, and no line break after it but at the end.\<close>

definition named_group :: "string \<Rightarrow> string option" where
  "named_group g =
     (if starts_with g ''?P<'' then
        (let rest = drop 3 g; name = takeWhile word_char rest; tail = dropWhile word_char rest
         in if name \<noteq> [] \<and> take 1 tail = ''>'' \<and> CHR ''\<newline>'' \<notin> set (butlast (drop 1 tail)) then Some name else None)
      else None)"

definition replace_group :: "string list \<Rightarrow> (string, string) dict \<Rightarrow> string \<Rightarrow> nat \<Rightarrow> (string \<times> nat) py" where
  "replace_group args kwargs g current =
     (case named_group g of
        None \<Rightarrow> Inr ([], current)
      | Some name \<Rightarrow>
          (case dict_get kwargs name of
             Some v \<Rightarrow> Inr (v, current)
           | None \<Rightarrow> if current < length args then Inr (args ! current, Suc current) else Inl ValueError))"

function (sequential) sub_groups :: "string list \<Rightarrow> (string, string) dict \<Rightarrow> nat \<Rightarrow> string \<Rightarrow> string py" where
  "sub_groups args kwargs current [] = Inr []"
| "sub_groups args kwargs current (c # cs) =
     (case group_at (c # cs) of
        Some (g, rest) \<Rightarrow>
          py_bind (replace_group args kwargs g current) (\<lambda>(v, current').
          py_bind (sub_groups args kwargs current' rest) (\<lambda>r. Inr (v @ r)))
      | None \<Rightarrow> py_bind (sub_groups args kwargs current cs) (\<lambda>r. Inr (c # r)))"
  by pat_completeness auto
termination
  by (relation "measure (\<lambda>(args, kwargs, current, s). length s)") (auto dest: group_at_shorter)

definition reverse_regex_named_groups :: "string \<Rightarrow> string list \<Rightarrow> (string, string) dict \<Rightarrow> string py" where
  "reverse_regex_named_groups pattern args kwargs =
     py_bind (sub_groups args kwargs 0 pattern) (\<lambda>r. Inr (filter (\<lambda>c. c \<noteq> CHR ''^'' \<and> c \<noteq> CHR ''$'') r))"

text \<open>The specification: a pattern as literal text and named groups.\<close>

datatype segment = Literal string | Group string string

fun render_segment :: "segment \<Rightarrow> string" where
  "render_segment (Literal s) = s"
| "render_segment (Group name re) = ''(?P<'' @ name @ ''>'' @ re @ '')''"

definition render :: "segment list \<Rightarrow> string" where
  "render segs = concat (map render_segment segs)"

fun segment_ok :: "segment \<Rightarrow> bool" where
  "segment_ok (Literal s) = (CHR ''('' \<notin> set s)"
| "segment_ok (Group name re) =
     (name \<noteq> [] \<and> list_all word_char name \<and> CHR '')'' \<notin> set re \<and> CHR ''\<newline>'' \<notin> set re)"

fun expand :: "(string, string) dict \<Rightarrow> string list \<Rightarrow> segment list \<Rightarrow> string option" where
  "expand kwargs args [] = Some []"
| "expand kwargs args (Literal s # segs) = map_option ((@) s) (expand kwargs args segs)"
| "expand kwargs args (Group name re # segs) =
     (case dict_get kwargs name of
        Some v \<Rightarrow> map_option ((@) v) (expand kwargs args segs)
      | None \<Rightarrow> (case args of [] \<Rightarrow> None | v # vs \<Rightarrow> map_option ((@) v) (expand kwargs vs segs)))"

definition py_of_option :: "'a option \<Rightarrow> 'a py" where
  "py_of_option x = (case x of Some v \<Rightarrow> Inr v | None \<Rightarrow> Inl ValueError)"

lemma py_of_option_simps [simp]: "py_of_option (Some v) = Inr v" "py_of_option None = Inl ValueError"
  by (simp_all add: py_of_option_def)

lemma word_char_not: "\<not> word_char CHR ''>''" "\<not> word_char CHR '')''"
  by (simp_all add: word_char_def)

lemma group_at_render:
  assumes "segment_ok (Group name re)"
  shows "group_at (render_segment (Group name re) @ r) = Some (''?P<'' @ name @ ''>'' @ re, r)"
proof -
  have "CHR '')'' \<notin> set (''?P<'' @ name @ ''>'' @ re)"
    using assms word_char_not by (auto simp: list_all_iff)
  then have "takeWhile (\<lambda>x. x \<noteq> CHR '')'') (''?P<'' @ name @ ''>'' @ re @ '')'' @ r) = ''?P<'' @ name @ ''>'' @ re"
    "dropWhile (\<lambda>x. x \<noteq> CHR '')'') (''?P<'' @ name @ ''>'' @ re @ '')'' @ r) = '')'' @ r"
    by (auto simp: takeWhile_append dropWhile_append)
  then show ?thesis by (simp add: group_at_def)
qed

lemma named_group_render:
  assumes "segment_ok (Group name re)"
  shows "named_group (''?P<'' @ name @ ''>'' @ re) = Some name"
proof -
  have "takeWhile word_char (name @ CHR ''>'' # re) = name" "dropWhile word_char (name @ CHR ''>'' # re) = CHR ''>'' # re"
    using assms word_char_not by (auto simp: list_all_iff takeWhile_append dropWhile_append)
  with assms show ?thesis by (auto simp: named_group_def starts_with_def dest: in_set_butlastD)
qed

lemma sub_groups_literal:
  "CHR ''('' \<notin> set s \<Longrightarrow> sub_groups args kwargs n (s @ r) = py_bind (sub_groups args kwargs n r) (\<lambda>t. Inr (s @ t))"
proof (induction s)
  case Nil
  then show ?case by (cases "sub_groups args kwargs n r") simp_all
next
  case (Cons c s)
  then have "group_at (c # s @ r) = None" by (auto simp: group_at_def)
  with Cons show ?case by (cases "sub_groups args kwargs n r") simp_all
qed

lemma sub_groups_group:
  assumes "segment_ok (Group name re)"
  shows "sub_groups args kwargs n (render_segment (Group name re) @ r) =
    py_bind (replace_group args kwargs (''?P<'' @ name @ ''>'' @ re) n) (\<lambda>(v, k).
      py_bind (sub_groups args kwargs k r) (\<lambda>t. Inr (v @ t)))"
  using group_at_render [OF assms, of r] by simp

lemma sub_groups_render:
  "list_all segment_ok segs \<Longrightarrow> n \<le> length args \<Longrightarrow>
   sub_groups args kwargs n (render segs) = py_of_option (expand kwargs (drop n args) segs)"
proof (induction segs arbitrary: n)
  case (Cons g segs)
  have IH: "sub_groups args kwargs k (concat (map render_segment segs)) = py_of_option (expand kwargs (drop k args) segs)"
    if "k \<le> length args" for k
    using Cons.IH [of k] Cons.prems(1) that by (simp add: render_def)
  have bind: "py_bind (py_of_option x) (\<lambda>t. Inr (s @ t)) = py_of_option (map_option ((@) s) x)" for x and s :: string
    by (cases x) simp_all
  show ?case
  proof (cases g)
    case (Literal s)
    with Cons.prems show ?thesis by (simp add: render_def sub_groups_literal IH bind)
  next
    case (Group name re)
    with Cons.prems(1) have ok: "segment_ok (Group name re)" by simp
    show ?thesis
    proof (cases "dict_get kwargs name")
      case None
      then show ?thesis
        using Cons.prems(2) Group IH [of "Suc n"]
        by (cases "drop n args")
          (simp_all add: render_def sub_groups_group [OF ok] replace_group_def named_group_render [OF ok, simplified] bind
            nth_via_drop drop_Suc tl_drop [symmetric] del: render_segment.simps, auto)
    next
      case (Some v)
      then show ?thesis
        using Cons.prems(2) Group
        by (simp add: render_def sub_groups_group [OF ok] replace_group_def named_group_render [OF ok, simplified] IH bind del: render_segment.simps)
    qed
  qed
qed (simp add: render_def)

section \<open>Paths\<close>

text \<open>\<open>os.path.join\<close>, \<open>os.path.isabs\<close> and \<open>os.path.normpath\<close> on POSIX.\<close>

definition isabs :: "string \<Rightarrow> bool" where
  "isabs p \<longleftrightarrow> starts_with p ''/''"

definition path_join :: "string \<Rightarrow> string \<Rightarrow> string" where
  "path_join a b = (if isabs b then b else if a = [] \<or> ends_with a ''/'' then a @ b else a @ ''/'' @ b)"

text \<open>The components kept so far, latest first.\<close>

fun norm_comps :: "bool \<Rightarrow> string list \<Rightarrow> string list \<Rightarrow> string list" where
  "norm_comps slash acc [] = rev acc"
| "norm_comps slash acc (c # cs) =
     (if c = [] \<or> c = ''.'' then norm_comps slash acc cs
      else if c \<noteq> ''..'' \<or> (\<not> slash \<and> acc = []) \<or> (acc \<noteq> [] \<and> hd acc = ''..'') then norm_comps slash (c # acc) cs
      else norm_comps slash (tl acc) cs)"

definition initial_slashes :: "string \<Rightarrow> nat" where
  "initial_slashes p =
     (if starts_with p ''//'' \<and> \<not> starts_with p ''///'' then 2 else if starts_with p ''/'' then 1 else 0)"

definition normpath :: "string \<Rightarrow> string" where
  "normpath p =
     (if p = [] then ''.''
      else let k = initial_slashes p;
               r = replicate k CHR ''/'' @ join_with ''/'' (norm_comps (k > 0) [] (split_on CHR ''/'' p))
           in if r = [] then ''.'' else r)"

definition get_abs_path :: "string \<Rightarrow> string option \<Rightarrow> string option" where
  "get_abs_path root_path relative_path =
     (case relative_path of
        None \<Rightarrow> None
      | Some p \<Rightarrow> if isabs p then Some p else Some (normpath (path_join root_path p)))"

text \<open>The components of the normal form of an absolute path are proper names.\<close>

definition proper :: "string \<Rightarrow> bool" where
  "proper c \<longleftrightarrow> c \<noteq> [] \<and> c \<noteq> ''.'' \<and> c \<noteq> ''..'' \<and> CHR ''/'' \<notin> set c"

lemma norm_comps_proper:
  "list_all (\<lambda>c. CHR ''/'' \<notin> set c) cs \<Longrightarrow> list_all proper acc \<Longrightarrow> list_all proper (norm_comps True acc cs)"
proof (induction cs arbitrary: acc)
  case (Cons c cs)
  show ?case
  proof (cases acc)
    case Nil
    with Cons show ?thesis by (simp add: proper_def)
  next
    case (Cons a as)
    with Cons.prems Cons.IH show ?thesis by (simp add: proper_def)
  qed
qed (simp add: list_all_iff)

lemma norm_comps_id: "list_all proper cs \<Longrightarrow> norm_comps slash acc cs = rev acc @ cs"
  by (induction cs arbitrary: acc) (simp_all add: proper_def)

text \<open>The directory a path names, as the list of names below the root.\<close>

definition resolve :: "string list \<Rightarrow> string list \<Rightarrow> string list" where
  "resolve base cs = foldl (\<lambda>d c. if c = [] \<or> c = ''.'' then d else if c = ''..'' then butlast d else d @ [c]) base cs"

lemma norm_comps_resolve:
  "list_all proper acc \<Longrightarrow> list_all (\<lambda>c. CHR ''/'' \<notin> set c) cs \<Longrightarrow> norm_comps True acc cs = resolve (rev acc) cs"
proof (induction cs arbitrary: acc)
  case (Cons c cs)
  consider "c = [] \<or> c = ''.''" | "c = ''..''" | "proper c" using Cons.prems(2) by (auto simp: proper_def)
  then show ?case
  proof cases
    case 1
    with Cons show ?thesis by (auto simp: resolve_def)
  next
    case 2
    have "list_all proper (tl acc)" using Cons.prems(1) by (cases acc) simp_all
    moreover have "acc \<noteq> [] \<Longrightarrow> hd acc \<noteq> ''..''" using Cons.prems(1) by (cases acc) (simp_all add: proper_def)
    moreover have "butlast (rev acc) = rev (tl acc)" by (cases acc) simp_all
    ultimately show ?thesis using 2 Cons.IH [of "tl acc"] Cons.prems(2) by (auto simp: resolve_def)
  next
    case 3
    with Cons.IH [of "c # acc"] Cons.prems show ?thesis by (simp add: resolve_def proper_def)
  qed
qed (simp add: resolve_def)

lemma split_on_slash_free: "list_all (\<lambda>c. CHR ''/'' \<notin> set c) (split_on CHR ''/'' p)"
  by (auto simp: list_all_iff dest: split_on_free)

section \<open>Context variables and background tasks\<close>

text \<open>\<open>set_contextvar\<close>: the variable of a task as a function; the token is the former value.\<close>

definition set_contextvar_enter :: "nat \<Rightarrow> 'v \<Rightarrow> (nat \<Rightarrow> 'v) \<Rightarrow> 'v \<times> (nat \<Rightarrow> 'v)" where
  "set_contextvar_enter task v vars = (vars task, vars(task := v))"

definition set_contextvar_exit :: "nat \<Rightarrow> 'v \<Rightarrow> (nat \<Rightarrow> 'v) \<Rightarrow> (nat \<Rightarrow> 'v)" where
  "set_contextvar_exit task token vars = vars(task := token)"

interpretation var: context_manager "set_contextvar_enter task v" "set_contextvar_exit task" "\<lambda>vars. vars task"
  "\<lambda>token _. token" for task v
  by unfold_locales (auto simp: set_contextvar_enter_def set_contextvar_exit_def)

text \<open>
  \<open>gather_list\<close> and \<open>gather_dict\<close>: every coroutine is given by when it ends and how; \<open>None\<close> stands for
  \<open>asyncio.sleep(0)\<close>. The exception that is raised is the one that came first.
\<close>

definition coro_failures :: "(nat \<times> 'a py) option list \<Rightarrow> (nat \<times> py_exc) list" where
  "coro_failures coros = concat (map (\<lambda>c. case c of Some (t, Inl e) \<Rightarrow> [(t, e)] | _ \<Rightarrow> []) coros)"

definition coro_result :: "(nat \<times> 'a py) option \<Rightarrow> 'a option" where
  "coro_result c = (case c of Some (_, Inr v) \<Rightarrow> Some v | _ \<Rightarrow> None)"

definition gather_list :: "(nat \<times> 'a py) option list \<Rightarrow> 'a option list py" where
  "gather_list coros =
     (case sort_key fst (coro_failures coros) of
        [] \<Rightarrow> Inr (map coro_result coros)
      | (_, e) # _ \<Rightarrow> Inl e)"

definition gather_dict :: "('k, (nat \<times> 'a py) option) dict \<Rightarrow> ('k, 'a option) dict py" where
  "gather_dict coro_dict =
     py_bind (gather_list (dict_values coro_dict)) (\<lambda>results. Inr (zip (dict_keys coro_dict) results))"

text \<open>
  \<open>bind_socket\<close>: the calls on the socket in order; an error of \<open>bind\<close> exits the process. \<open>run_async_task\<close>:
  the tasks are kept in a set until they are done, so that they are not collected; an exception is
  logged and the result is then \<open>None\<close>.
\<close>

datatype socket_call = SetBlocking bool | ReuseAddr | ReusePort | Bind string int | SetInheritable bool | Listen

definition bind_socket :: "(string \<Rightarrow> int \<Rightarrow> bool) \<Rightarrow> string \<Rightarrow> int \<Rightarrow> socket_call list py" where
  "bind_socket can_bind host port =
     (if can_bind host port
      then Inr [SetBlocking False, ReuseAddr, ReusePort, Bind host port, SetInheritable True, Listen]
      else Inl (SystemExit 1))"

definition run_async_task :: "nat \<Rightarrow> nat set \<Rightarrow> nat set" where
  "run_async_task task tasks = insert task tasks"

definition task_done :: "nat \<Rightarrow> 'a py \<Rightarrow> nat set \<Rightarrow> 'a option py \<times> nat set" where
  "task_done task outcome tasks =
     (case outcome of Inr v \<Rightarrow> Inr (Some v) | Inl (SystemExit n) \<Rightarrow> Inl (SystemExit n) | Inl _ \<Rightarrow> Inr None, tasks - {task})"

section \<open>Values for JSON\<close>

text \<open>
  The values the encoders tell apart: a set is given by its elements in iteration order, a future by its
  state, a pydantic model and an object with \<open>to_dict\<close> by what \<open>model_dump\<close> and \<open>to_dict\<close> return.
\<close>

datatype 'b json_value =
    JDict "(string \<times> 'b json_value) list"
  | JSet "'b json_value list"
  | JList "'b json_value list"
  | JTuple "'b json_value list"
  | JFuturePending
  | JFutureFailed
  | JFuture "'b json_value"
  | JModel "'b json_value"
  | JToDict "'b json_value"
  | JBytes 'b
  | JAtom string

fun deep_encode_value :: "('b \<Rightarrow> string option) \<Rightarrow> 'b json_value \<Rightarrow> 'b json_value py"
  and deep_encode_list :: "('b \<Rightarrow> string option) \<Rightarrow> 'b json_value list \<Rightarrow> 'b json_value list py"
  and deep_encode_items :: "('b \<Rightarrow> string option) \<Rightarrow> (string \<times> 'b json_value) list \<Rightarrow> (string \<times> 'b json_value) list py" where
  "deep_encode_value utf8 (JDict kvs) = py_bind (deep_encode_items utf8 kvs) (\<lambda>r. Inr (JDict r))"
| "deep_encode_value utf8 (JSet vs) = py_bind (deep_encode_list utf8 vs) (\<lambda>r. Inr (JList r))"
| "deep_encode_value utf8 (JList vs) = py_bind (deep_encode_list utf8 vs) (\<lambda>r. Inr (JList r))"
| "deep_encode_value utf8 (JTuple vs) = py_bind (deep_encode_list utf8 vs) (\<lambda>r. Inr (JList r))"
| "deep_encode_value utf8 JFuturePending = Inr (JAtom ''None'')"
| "deep_encode_value utf8 JFutureFailed = Inr (JAtom ''None'')"
| "deep_encode_value utf8 (JFuture v) = deep_encode_value utf8 v"
| "deep_encode_value utf8 (JModel v) = deep_encode_value utf8 v"
| "deep_encode_value utf8 (JToDict v) = deep_encode_value utf8 v"
| "deep_encode_value utf8 (JBytes b) = (case utf8 b of Some s \<Rightarrow> Inr (JAtom s) | None \<Rightarrow> Inl ValueError)"
| "deep_encode_value utf8 (JAtom s) = Inr (JAtom s)"
| "deep_encode_list utf8 [] = Inr []"
| "deep_encode_list utf8 (v # vs) =
     py_bind (deep_encode_value utf8 v) (\<lambda>r. py_bind (deep_encode_list utf8 vs) (\<lambda>rs. Inr (r # rs)))"
| "deep_encode_items utf8 [] = Inr []"
| "deep_encode_items utf8 ((k, v) # kvs) =
     py_bind (deep_encode_value utf8 v) (\<lambda>r. py_bind (deep_encode_items utf8 kvs) (\<lambda>rs. Inr ((k, r) # rs)))"

text \<open>\<open>_encode_value\<close>: one step, for the values the serialiser does not know.\<close>

fun encode_value :: "('b \<Rightarrow> string option) \<Rightarrow> 'b json_value \<Rightarrow> 'b json_value py" where
  "encode_value utf8 (JSet vs) = Inr (JList vs)"
| "encode_value utf8 JFuturePending = Inr (JAtom ''None'')"
| "encode_value utf8 JFutureFailed = Inr (JAtom ''None'')"
| "encode_value utf8 (JFuture v) = Inr v"
| "encode_value utf8 (JModel v) = Inr v"
| "encode_value utf8 (JToDict v) = Inr v"
| "encode_value utf8 (JBytes b) = (case utf8 b of Some s \<Rightarrow> Inr (JAtom s) | None \<Rightarrow> Inl ValueError)"
| "encode_value utf8 _ = Inl TypeError"

text \<open>Plain values: dictionaries, lists and atoms all the way down.\<close>

fun plain :: "'b json_value \<Rightarrow> bool" where
  "plain (JDict kvs) = list_all (\<lambda>(k, v). plain v) kvs"
| "plain (JList vs) = list_all plain vs"
| "plain (JAtom s) = True"
| "plain _ = False"

lemma deep_encode_plain:
  "deep_encode_value utf8 v = Inr r \<Longrightarrow> plain r"
  "deep_encode_list utf8 vs = Inr rs \<Longrightarrow> list_all plain rs"
  "deep_encode_items utf8 kvs = Inr rkvs \<Longrightarrow> list_all (\<lambda>(k, v). plain v) rkvs"
  by (induction utf8 v and utf8 vs and utf8 kvs arbitrary: r and rs and rkvs
      rule: deep_encode_value_deep_encode_list_deep_encode_items.induct)
    (auto simp: py_bind_Inr_conv split: option.splits)

lemma deep_encode_plain_id:
  "plain v \<Longrightarrow> deep_encode_value utf8 v = Inr v"
  "list_all plain vs \<Longrightarrow> deep_encode_list utf8 vs = Inr vs"
  "list_all (\<lambda>(k, v). plain v) kvs \<Longrightarrow> deep_encode_items utf8 kvs = Inr kvs"
  by (induction utf8 v and utf8 vs and utf8 kvs rule: deep_encode_value_deep_encode_list_deep_encode_items.induct)
    simp_all

section \<open>Dictionaries and XML\<close>

text \<open>
  Reading an XML document or a style sheet: \<open>parse\<close> is lxml's. A failure is logged, as one of reading or
  of parsing, and goes on to the caller; a style sheet is only logged when it was read.
\<close>

datatype file_failure = FileUnreadable py_exc | FileMalformed py_exc

definition xml_from_file :: "(string \<Rightarrow> file_failure + 'x) \<Rightarrow> string \<Rightarrow> 'x py \<times> string list" where
  "xml_from_file parse filename =
     (case parse filename of
        Inr tree \<Rightarrow> (Inr tree, [])
      | Inl (FileUnreadable e) \<Rightarrow> (Inl e, [''failed to read xml file '' @ filename])
      | Inl (FileMalformed e) \<Rightarrow> (Inl e, [''failed to parse xml file '' @ filename]))"

definition xsl_from_file :: "(string \<Rightarrow> 'x py) \<Rightarrow> ('x \<Rightarrow> 't py) \<Rightarrow> string \<Rightarrow> string \<Rightarrow> 't py \<times> string list" where
  "xsl_from_file parse compile filename elapsed =
     (case py_bind (parse filename) compile of
        Inl e \<Rightarrow> (Inl e, [])
      | Inr result \<Rightarrow> (Inr result, [''read xsl file '' @ filename @ '' in '' @ elapsed @ ''ms'']))"

text \<open>
  Elements have a tag, a text and children; other parts do not occur. \<open>valid_tag\<close> and \<open>valid_text\<close> tell
  which names and texts lxml accepts; others raise \<open>ValueError\<close>.
\<close>

datatype element = Element (tag: string) (text_of: "string option") (children: "element list")

datatype xml_dict = XText string | XDict "(string \<times> xml_dict) list"

fun dict_to_xml :: "(string \<Rightarrow> bool) \<Rightarrow> (string \<Rightarrow> bool) \<Rightarrow> string \<Rightarrow> xml_dict \<Rightarrow> element py"
  and items_to_xml :: "(string \<Rightarrow> bool) \<Rightarrow> (string \<Rightarrow> bool) \<Rightarrow> (string \<times> xml_dict) list \<Rightarrow> element list py" where
  "dict_to_xml valid_tag valid_text name (XText s) =
     (if \<not> valid_tag name then Inl ValueError else if \<not> valid_text s then Inl ValueError else Inr (Element name (Some s) []))"
| "dict_to_xml valid_tag valid_text name (XDict kvs) =
     (if \<not> valid_tag name then Inl ValueError
      else py_bind (items_to_xml valid_tag valid_text kvs) (\<lambda>es. Inr (Element name None es)))"
| "items_to_xml valid_tag valid_text [] = Inr []"
| "items_to_xml valid_tag valid_text ((k, v) # kvs) =
     py_bind (dict_to_xml valid_tag valid_text k v) (\<lambda>e.
     py_bind (items_to_xml valid_tag valid_text kvs) (\<lambda>es. Inr (e # es)))"

fun xml_to_dict :: "element \<Rightarrow> xml_dict" where
  "xml_to_dict (Element name txt_opt es) =
     (if es = [] then XText (case txt_opt of Some s \<Rightarrow> s | None \<Rightarrow> [])
      else XDict (fold (\<lambda>(k, v) d. dict_set d k v) (map (\<lambda>e. (tag e, xml_to_dict e)) es) []))"

text \<open>Dictionaries without empty ones inside and with distinct keys.\<close>

fun xml_dict_ok :: "xml_dict \<Rightarrow> bool" where
  "xml_dict_ok (XText s) = True"
| "xml_dict_ok (XDict kvs) = (kvs \<noteq> [] \<and> distinct (map fst kvs) \<and> list_all (\<lambda>(k, v). xml_dict_ok v) kvs)"

lemma dict_set_fresh: "k \<notin> fst ` set d \<Longrightarrow> dict_set d k v = d @ [(k, v)]"
  by (induction d) (auto simp: dict_set_def)

lemma dict_of_pairs:
  "distinct (map fst (d @ kvs)) \<Longrightarrow> fold (\<lambda>(k, v) d. dict_set d k v) kvs d = d @ kvs"
proof (induction kvs arbitrary: d)
  case (Cons kv kvs)
  then show ?case by (cases kv) (simp add: dict_set_fresh)
qed simp

lemma xml_round_trip:
  "dict_to_xml vt vx name v = Inr e \<Longrightarrow> xml_dict_ok v \<Longrightarrow> tag e = name \<and> xml_to_dict e = v"
  "items_to_xml vt vx kvs = Inr es \<Longrightarrow> list_all (\<lambda>(k, v). xml_dict_ok v) kvs \<Longrightarrow>
     map (\<lambda>e. (tag e, xml_to_dict e)) es = kvs"
proof (induction vt vx name v and vt vx kvs arbitrary: e and es rule: dict_to_xml_items_to_xml.induct)
  case (2 vt vx name kvs)
  then obtain es where es: "items_to_xml vt vx kvs = Inr es" "e = Element name None es" "vt name"
    by (auto simp: py_bind_Inr_conv split: if_splits)
  with 2 have m: "map (\<lambda>e. (tag e, xml_to_dict e)) es = kvs" by simp
  with 2(3) have "es \<noteq> []" by auto
  with es m 2(3) dict_of_pairs [of "[]" kvs] show ?case by simp
qed (auto simp: py_bind_Inr_conv split: if_splits)

section \<open>Properties\<close>

lemma make_url_parsed:
  assumes "query_items args \<noteq> []" and "\<forall>(k, s) \<in> set (query_items args). ascii k \<and> ascii s" and "CHR ''?'' \<notin> set base"
  shows "\<exists>qs. make_url base args = base @ ''?'' @ qs \<and> parse_query qs = query_items args"
proof -
  have "make_qs args \<noteq> []"
    using assms(1) by (cases "query_items args"; cases "tl (query_items args)") (auto simp: query_items_encoded)
  with assms parse_query_make_qs [OF assms(1,2)] show ?thesis by (auto simp: make_url_def Let_def)
qed

text \<open>
  A URL built by \<open>make_url\<close> from a base without a query is the base, a question mark and a query
  string that its receiver reads as the arguments in order, those with the value \<open>None\<close> left out.
\<close>

theorem make_url_read_back:
  assumes "query_items args \<noteq> []" and "\<forall>(k, s) \<in> set (query_items args). ascii k \<and> ascii s" and "CHR ''?'' \<notin> set base"
  shows "\<exists>qs. make_url base args = base @ ''?'' @ qs \<and> parse_query qs = query_items args"
  using assms by (rule make_url_parsed)

theorem make_url_read_back_witness:
  "\<exists>qs. make_url ''/search'' [(''text'', QText ''a&b c=d''), (''page'', QInt 2), (''area'', QSeq [''1'', ''2'']), (''x'', QNone)] = ''/search?'' @ qs \<and>
     parse_query qs = [(''text'', ''a&b c=d''), (''page'', ''2''), (''area'', ''1''), (''area'', ''2'')]"
proof -
  let ?args = "[(''text'', QText ''a&b c=d''), (''page'', QInt 2), (''area'', QSeq [''1'', ''2'']), (''x'', QNone)]"
  have items: "query_items ?args = [(''text'', ''a&b c=d''), (''page'', ''2''), (''area'', ''1''), (''area'', ''2'')]" by code_simp
  show ?thesis using make_url_read_back [of ?args "''/search''"] unfolding items by (simp add: ascii_def)
qed

text \<open>
  Reversing a pattern of literal text and named groups puts the keyword argument of its name, or else
  the next positional argument, in the place of every group; \<open>ValueError\<close> is raised exactly when the
  positional arguments do not suffice. Anchors are removed, also from the arguments.
\<close>

theorem reverse_regex_expands:
  assumes "list_all segment_ok segs"
  shows "reverse_regex_named_groups (render segs) args kwargs =
    (case expand kwargs args segs of
       Some r \<Rightarrow> Inr (filter (\<lambda>c. c \<noteq> CHR ''^'' \<and> c \<noteq> CHR ''$'') r)
     | None \<Rightarrow> Inl ValueError)"
  using sub_groups_render [OF assms, of 0 args kwargs] by (simp add: reverse_regex_named_groups_def split: option.split)

theorem reverse_regex_expands_witness:
  "reverse_regex_named_groups ''^/vacancy/(?P<id>[0-9]+)/(?P<tab>.*)$'' [''main''] [(''id'', ''12'')] = Inr ''/vacancy/12/main''"
proof -
  let ?segs = "[Literal ''^/vacancy/'', Group ''id'' ''[0-9]+'', Literal ''/'', Group ''tab'' ''.*'', Literal ''$'']"
  have "list_all segment_ok ?segs" and r: "render ?segs = ''^/vacancy/(?P<id>[0-9]+)/(?P<tab>.*)$''"
    and e: "expand [(''id'', ''12'')] [''main''] ?segs = Some ''^/vacancy/12/main$''" by code_simp+
  from reverse_regex_expands [OF this(1), of "[''main'']" "[(''id'', ''12'')]"] show ?thesis unfolding r e by simp
qed

text \<open>
  Below an absolute root, a relative path is turned into the absolute path of the directory it names:
  its components are proper names, found by walking the relative path from the root.
\<close>

theorem abs_path_canonical:
  assumes "isabs root_path" and "\<not> isabs p"
  shows "\<exists>k comps. get_abs_path root_path (Some p) = Some (replicate k CHR ''/'' @ join_with ''/'' comps) \<and> k \<in> {1, 2} \<and>
    list_all proper comps \<and> comps = resolve [] (split_on CHR ''/'' (path_join root_path p))"
proof -
  let ?q = "path_join root_path p"
  let ?comps = "norm_comps True [] (split_on CHR ''/'' ?q)"
  from assms have q: "starts_with ?q ''/''"
    by (cases root_path) (auto simp: path_join_def isabs_def starts_with_def split: if_splits)
  then have k: "initial_slashes ?q \<in> {1, 2}" and "?q \<noteq> []" by (auto simp: initial_slashes_def starts_with_def)
  then have "get_abs_path root_path (Some p) = Some (replicate (initial_slashes ?q) CHR ''/'' @ join_with ''/'' ?comps)"
    using assms(2) by (auto simp: get_abs_path_def normpath_def Let_def)
  moreover have "list_all proper ?comps" "?comps = resolve [] (split_on CHR ''/'' ?q)"
    using norm_comps_proper [OF split_on_slash_free, of "[]"] norm_comps_resolve [OF _ split_on_slash_free, of "[]"] by simp_all
  ultimately show ?thesis using k by blast
qed

theorem abs_path_canonical_witness:
  "get_abs_path ''/app/xml'' (Some ''../xsl/./a.xsl'') = Some ''/app/xsl/a.xsl'' \<and>
   resolve [] (split_on CHR ''/'' (path_join ''/app/xml'' ''../xsl/./a.xsl'')) = [''app'', ''xsl'', ''a.xsl'']"
proof -
  have r: "resolve [] (split_on CHR ''/'' (path_join ''/app/xml'' ''../xsl/./a.xsl'')) = [''app'', ''xsl'', ''a.xsl'']" by code_simp
  have "isabs ''/app/xml''" "\<not> isabs ''../xsl/./a.xsl''" by code_simp+
  from abs_path_canonical [OF this] obtain k where
    "get_abs_path ''/app/xml'' (Some ''../xsl/./a.xsl'') = Some (replicate k CHR ''/'' @ join_with ''/'' [''app'', ''xsl'', ''a.xsl''])" "k \<in> {1, 2}"
    unfolding r by auto
  moreover have "take 2 (the (get_abs_path ''/app/xml'' (Some ''../xsl/./a.xsl''))) = ''/a''" by code_simp
  ultimately show ?thesis using r by (auto simp: numeral_2_eq_2)
qed

text \<open>
  The two encoders agree: on every value the serialiser hands to \<open>_encode_value\<close>, \<open>_deep_encode_value\<close>
  does one step of \<open>_encode_value\<close> and goes on with the result. Its own results are plain, and a second
  encoding leaves them alone.
\<close>

theorem deep_encode_iterates_encode:
  "(encode_value utf8 v = Inl TypeError \<or> deep_encode_value utf8 v = py_bind (encode_value utf8 v) (deep_encode_value utf8)) \<and>
   (encode_value utf8 v = Inl TypeError \<longleftrightarrow> (\<exists>kvs vs s. v \<in> {JDict kvs, JList vs, JTuple vs, JAtom s})) \<and>
   (\<forall>r. deep_encode_value utf8 v = Inr r \<longrightarrow> plain r \<and> deep_encode_value utf8 r = Inr r)"
proof (intro conjI allI impI)
  show "encode_value utf8 v = Inl TypeError \<or> deep_encode_value utf8 v = py_bind (encode_value utf8 v) (deep_encode_value utf8)"
    by (cases v) (auto split: option.split)
  show "encode_value utf8 v = Inl TypeError \<longleftrightarrow> (\<exists>kvs vs s. v \<in> {JDict kvs, JList vs, JTuple vs, JAtom s})"
    by (cases v) (auto split: option.split)
  fix r assume "deep_encode_value utf8 v = Inr r"
  then show "plain r" "deep_encode_value utf8 r = Inr r"
    by (auto intro: deep_encode_plain deep_encode_plain_id)
qed

theorem deep_encode_iterates_encode_witness:
  "deep_encode_value (\<lambda>b. Some b) (JSet [JFuture (JBytes ''a''), JFuturePending]) = Inr (JList [JAtom ''a'', JAtom ''None'']) \<and>
   plain (JList [JAtom ''a'', JAtom ''None''])"
  using deep_encode_iterates_encode [of "\<lambda>b. Some b" "JSet [JFuture (JBytes ''a''), JFuturePending]"] by simp

text \<open>
  A dictionary without empty dictionaries inside survives the way to XML and back; the root element
  has the name given.
\<close>

theorem dict_xml_round_trip:
  assumes "dict_to_xml valid_tag valid_text name v = Inr e" and "xml_dict_ok v"
  shows "tag e = name \<and> xml_to_dict e = v"
  using xml_round_trip(1) [OF assms] .

theorem dict_xml_round_trip_witness:
  "\<exists>e. dict_to_xml (\<lambda>s. s \<noteq> []) (\<lambda>_. True) ''doc'' (XDict [(''a'', XText ''1''), (''b'', XDict [(''c'', XText [])])]) = Inr e \<and>
     xml_to_dict e = XDict [(''a'', XText ''1''), (''b'', XDict [(''c'', XText [])])]"
  using dict_xml_round_trip [of "\<lambda>s. s \<noteq> []" "\<lambda>_. True" "''doc''" "XDict [(''a'', XText ''1''), (''b'', XDict [(''c'', XText [])])]"]
  by simp

text \<open>An empty dictionary comes back as an empty text.\<close>

theorem empty_dict_not_kept: "dict_to_xml (\<lambda>s. s \<noteq> []) (\<lambda>_. True) ''doc'' (XDict []) = Inr (Element ''doc'' None []) \<and>
   xml_to_dict (Element ''doc'' None []) = XText []"
  by simp

text \<open>
  \<open>gather_dict\<close> returns under every key the result of its coroutine, with \<open>None\<close> for a missing one, when
  none of them fails; otherwise it raises the earliest failure.
\<close>

theorem gather_dict_results:
  "(\<exists>c \<in> set (dict_values coros). \<exists>t e. c = Some (t, Inl e) \<and> gather_dict coros = Inl e) \<or>
    (\<exists>d. gather_dict coros = Inr d \<and> (\<forall>k. dict_get d k = map_option coro_result (dict_get coros k)))"
proof (cases "sort_key fst (coro_failures (dict_values coros))")
  case Nil
  have "zip (map fst coros) (map coro_result (map snd coros)) = map (\<lambda>(k, c). (k, coro_result c)) coros"
    by (induction coros) auto
  with Nil have "gather_dict coros = Inr (map (\<lambda>(k, c). (k, coro_result c)) coros)"
    by (simp add: gather_dict_def gather_list_def dict_keys_def dict_values_def)
  moreover have "dict_get (map (\<lambda>(k, c). (k, coro_result c)) coros) k = map_option coro_result (dict_get coros k)" for k
    by (simp add: dict_get_def map_of_map [unfolded comp_def])
  ultimately show ?thesis by blast
next
  case (Cons f fs)
  then have "f \<in> set (coro_failures (dict_values coros))" by (metis list.set_intros(1) set_sort)
  then have "\<exists>c \<in> set (dict_values coros). c = Some (fst f, Inl (snd f))"
    by (auto simp: coro_failures_def split: option.splits sum.splits)
  with Cons show ?thesis
    by (cases f) (auto simp: gather_dict_def gather_list_def)
qed

end
