(* ===== verification/Timeouts.thy ===== *)
theory Timeouts
  imports Debug_Auth Util
begin

text \<open>
  Deadlines of outgoing requests (\<open>frontik/balancing_client.py\<close>) and the tracking of callers with too
  short timeouts (\<open>frontik/timeout_tracking.py\<close>). Times are rational numbers of seconds, timeouts in
  headers are milliseconds. The constants of the package \<open>http_client\<close> are the record \<open>client_consts\<close>;
  \<open>to_float\<close> reads a number from a text.
\<close>

section \<open>Numbers and headers\<close>

text \<open>\<open>int(x)\<close> drops the fraction, and \<open>f'{x:.0f}'\<close> rounds to the nearest integer, halves to even.\<close>

definition trunc :: "rat \<Rightarrow> int" where
  "trunc x = (if 0 \<le> x then \<lfloor>x\<rfloor> else \<lceil>x\<rceil>)"

definition round_half_even :: "rat \<Rightarrow> int" where
  "round_half_even x =
     (let f = \<lfloor>x\<rfloor>; d = x - of_int f
      in if d < 1 / 2 then f else if 1 / 2 < d then f + 1 else if even f then f else f + 1)"

definition fmt0 :: "rat \<Rightarrow> string" where
  "fmt0 x = str_of_int (round_half_even x)"

record client_consts =
  DEADLINE_TIMEOUT_MS_HEADER :: string
  OUTER_TIMEOUT_MS_HEADER :: string
  USER_AGENT_HEADER :: string
  INSUFFICIENT_TIMEOUT :: int
  SERVER_TIMEOUT :: int

text \<open>Request headers of the server, under lower-case names; lookups ignore case.\<close>

type_synonym server_headers = "(string, string) dict"

definition headers_get :: "server_headers \<Rightarrow> string \<Rightarrow> string option" where
  "headers_get h name = dict_get h (lower name)"

definition int_header :: "server_headers \<Rightarrow> string \<Rightarrow> int py" where
  "int_header h name =
     (case headers_get h name of
        None \<Rightarrow> Inl KeyError
      | Some s \<Rightarrow> (case py_int 10 s of Some i \<Rightarrow> Inr i | None \<Rightarrow> Inl ValueError))"

section \<open>Timeout statistics\<close>

record logging_data =
  outer_caller :: "string option"
  outer_timeout_ms :: rat
  upstream :: "string option"
  ld_handler_name :: "string option"
  request_timeout_ms :: rat

type_synonym counters = "(logging_data, nat \<times> rat) dict"

text \<open>\<open>TimeoutCounter\<close>: a missing key counts as \<open>(0, 0)\<close>.\<close>

definition counter_get :: "counters \<Rightarrow> logging_data \<Rightarrow> nat \<times> rat" where
  "counter_get c k = (case dict_get c k of Some v \<Rightarrow> v | None \<Rightarrow> (0, 0))"

definition increment :: "logging_data \<Rightarrow> rat \<Rightarrow> counters \<Rightarrow> counters" where
  "increment k already_spent_ms c =
     (case counter_get c k of (n, m) \<Rightarrow> dict_set c k (n + 1, max already_spent_ms m))"

text \<open>
  The attribute \<open>_send_stats_callback\<close> is \<open>None\<close> when the object has no such attribute; its value is then
  \<open>None\<close> or a periodic callback with an interval.
\<close>

record periodic_callback =
  interval_ms :: int
  running :: bool

record sender =
  timeout_counters :: counters
  send_stats_attr :: "periodic_callback option option"

definition new_sender :: sender where
  "new_sender = \<lparr>timeout_counters = [], send_stats_attr = Some None\<rparr>"

definition send_data :: "logging_data \<Rightarrow> rat \<Rightarrow> sender \<Rightarrow> sender" where
  "send_data d already_spent_ms s = s\<lparr>timeout_counters := increment d already_spent_ms (timeout_counters s)\<rparr>"

text \<open>\<open>interval\<close> is the option \<open>send_timeout_stats_interval_ms\<close>.\<close>

definition send_stats_callback :: "int \<Rightarrow> sender \<Rightarrow> periodic_callback option \<times> sender" where
  "send_stats_callback interval s =
     (case send_stats_attr s of
        Some cb \<Rightarrow> (cb, s)
      | None \<Rightarrow> (let cb = (if interval \<noteq> 0 then Some \<lparr>interval_ms = interval, running = False\<rparr> else None)
                 in (cb, s\<lparr>send_stats_attr := Some cb\<rparr>)))"

definition start_sending_if_needed :: "int \<Rightarrow> sender \<Rightarrow> sender" where
  "start_sending_if_needed interval s =
     (case send_stats_callback interval s of
        (None, s') \<Rightarrow> s'
      | (Some cb, s') \<Rightarrow> if running cb then s' else s'\<lparr>send_stats_attr := Some (Some (cb\<lparr>running := True\<rparr>))\<rparr>)"

text \<open>The lines of the report: interval, count, data and the longest time spent.\<close>

definition send_aggregated_stats :: "int \<Rightarrow> sender \<Rightarrow> (int \<times> nat \<times> logging_data \<times> rat) list \<times> sender" where
  "send_aggregated_stats interval s =
     (map (\<lambda>(d, n, m). (interval, n, d, m)) (timeout_counters s), s\<lparr>timeout_counters := []\<rparr>)"

section \<open>Outgoing requests\<close>

record request_builder =
  rb_headers :: "(string, string) dict"
  request_timeout :: rat
  connect_timeout :: rat
  client_timeout :: "(rat \<times> rat) option"
  rb_path :: string
  upstream_name :: "string option"
  request_time_left :: rat

record timeout_checker =
  tc_caller :: "string option"
  tc_timeout_ms :: rat
  request_start_time :: rat
  threshold_ms :: rat

definition check :: "rat \<Rightarrow> string option \<Rightarrow> timeout_checker \<Rightarrow> request_builder \<Rightarrow> sender \<Rightarrow> sender" where
  "check now handler tc request s =
     (if tc_timeout_ms tc \<noteq> 0 then
        let already_spent = (now - request_start_time tc) * 1000;
            expected = tc_timeout_ms tc - already_spent;
            request_ms = request_time_left request * 1000
        in if request_ms - expected > threshold_ms tc then
             send_data \<lparr>outer_caller = tc_caller tc, outer_timeout_ms = tc_timeout_ms tc, upstream = upstream_name request,
               ld_handler_name = handler, request_timeout_ms = request_ms\<rparr> already_spent s
           else s
      else s)"

definition get_timeout_checker :: "int \<Rightarrow> string option \<Rightarrow> rat \<Rightarrow> rat \<Rightarrow> sender \<Rightarrow> timeout_checker \<times> sender" where
  "get_timeout_checker interval caller timeout start s =
     (\<lparr>tc_caller = caller, tc_timeout_ms = timeout, request_start_time = start, threshold_ms = 100\<rparr>,
      start_sending_if_needed interval s)"

text \<open>What a request of the server knows when it sends another: options, its id (set inside a request), the handler and three readings of the clock.\<close>

record call_env =
  client :: client_consts
  decrease_timeout :: bool
  stats_interval :: int
  to_float :: "string \<Rightarrow> rat option"
  env_request_id :: string
  env_handler_name :: "string option"
  time1 :: rat
  time2 :: rat
  time3 :: rat

definition has_deadline :: "call_env \<Rightarrow> server_headers \<Rightarrow> bool py" where
  "has_deadline e h =
     (if \<not> decrease_timeout e then Inr False
      else if headers_get h (DEADLINE_TIMEOUT_MS_HEADER (client e)) \<noteq> None then Inr True
      else if headers_get h (OUTER_TIMEOUT_MS_HEADER (client e)) \<noteq> None then
        py_bind (int_header h (OUTER_TIMEOUT_MS_HEADER (client e))) (\<lambda>i. Inr (i > 0))
      else Inr False)"

definition header_timeout :: "call_env \<Rightarrow> server_headers \<Rightarrow> int py" where
  "header_timeout e h =
     (if headers_get h (DEADLINE_TIMEOUT_MS_HEADER (client e)) \<noteq> None
      then int_header h (DEADLINE_TIMEOUT_MS_HEADER (client e))
      else int_header h (OUTER_TIMEOUT_MS_HEADER (client e)))"

definition set_header :: "string \<Rightarrow> string \<Rightarrow> request_builder \<Rightarrow> request_builder" where
  "set_header name v r = r\<lparr>rb_headers := dict_set (rb_headers r) name v\<rparr>"

definition apply_deadline :: "call_env \<Rightarrow> server_headers \<Rightarrow> rat \<Rightarrow> request_builder \<Rightarrow> request_builder py" where
  "apply_deadline e h start r =
     py_bind (has_deadline e h) (\<lambda>dl.
       if dl then
         py_bind (header_timeout e h) (\<lambda>hdr.
           let spent_ms = (time1 e - start) * 1000;
               deadline_ms = min (of_int (trunc (of_int hdr - spent_ms))) (request_timeout r * 1000)
           in if deadline_ms \<le> 0 then Inl OutOfRequestTime
              else Inr ((set_header (DEADLINE_TIMEOUT_MS_HEADER (client e)) (fmt0 deadline_ms) r)
                \<lparr>request_timeout := deadline_ms / 1000, client_timeout := Some (deadline_ms / 1000, connect_timeout r)\<rparr>))
       else Inr (set_header (DEADLINE_TIMEOUT_MS_HEADER (client e)) (fmt0 (request_timeout r * 1000)) r))"

definition track_timeout :: "call_env \<Rightarrow> server_headers \<Rightarrow> rat \<Rightarrow> request_builder \<Rightarrow> sender \<Rightarrow> sender py" where
  "track_timeout e h start r s =
     (case headers_get h (OUTER_TIMEOUT_MS_HEADER (client e)) of
        None \<Rightarrow> Inr s
      | Some txt_value \<Rightarrow>
          if txt_value = [] then Inr s
          else (case to_float e txt_value of
                  None \<Rightarrow> Inl ValueError
                | Some outer \<Rightarrow>
                    (case get_timeout_checker (stats_interval e) (headers_get h (USER_AGENT_HEADER (client e))) outer start s of
                       (tc, s') \<Rightarrow> Inr (check (time2 e) (env_handler_name e) tc r s'))))"

definition pass_header :: "server_headers \<Rightarrow> string \<Rightarrow> request_builder \<Rightarrow> request_builder" where
  "pass_header h name r = (case headers_get h name of Some v \<Rightarrow> set_header name v r | None \<Rightarrow> r)"

definition pass_debug_headers :: "call_env \<Rightarrow> server_headers \<Rightarrow> debug_mode \<Rightarrow> request_builder \<Rightarrow> request_builder" where
  "pass_debug_headers e h dm r =
     (if pass_debug dm then
        let r = set_header DEBUG_HEADER_NAME ''true'' r;
            r = r\<lparr>rb_path := make_url (rb_path r) [(''debug_timestamp'', QInt (trunc (time3 e)))]\<rparr>
        in pass_header h DEBUG_AUTH_HEADER_NAME (pass_header h ''Authorization'' r)
      else r)"

definition modify_http_client_request ::
  "call_env \<Rightarrow> server_headers \<Rightarrow> rat \<Rightarrow> debug_mode \<Rightarrow> request_builder \<Rightarrow> sender \<Rightarrow> (request_builder \<times> sender) py" where
  "modify_http_client_request e h start dm r s =
     (let r = set_header ''x-request-id'' (env_request_id e) r;
          r = set_header (OUTER_TIMEOUT_MS_HEADER (client e)) (fmt0 (request_timeout r * 1000)) r
      in py_bind (apply_deadline e h start r) (\<lambda>r.
         py_bind (track_timeout e h start r s) (\<lambda>s.
           Inr (pass_debug_headers e h dm r, s))))"

text \<open>
  \<open>set_extra_client_params\<close>: inside it, the client calls the hook of the scope, if there is one, and then
  the modification above. The context variable holds the hook and whether debug is on.
\<close>

definition client_hook ::
  "(request_builder \<Rightarrow> request_builder py) option \<Rightarrow> call_env \<Rightarrow> server_headers \<Rightarrow> rat \<Rightarrow> debug_mode \<Rightarrow> request_builder \<Rightarrow> sender \<Rightarrow> (request_builder \<times> sender) py" where
  "client_hook local_hook e h start dm r s =
     py_bind (case local_hook of Some f \<Rightarrow> f r | None \<Rightarrow> Inr r) (\<lambda>r. modify_http_client_request e h start dm r s)"

definition set_extra_client_params_enter :: "nat \<Rightarrow> 'hook \<Rightarrow> debug_mode \<Rightarrow> (nat \<Rightarrow> 'hook \<times> bool) \<Rightarrow> ('hook \<times> bool) \<times> (nat \<Rightarrow> 'hook \<times> bool)" where
  "set_extra_client_params_enter task hook dm vars = (vars task, vars(task := (hook, enabled dm)))"

definition set_extra_client_params_exit :: "nat \<Rightarrow> 'hook \<times> bool \<Rightarrow> (nat \<Rightarrow> 'hook \<times> bool) \<Rightarrow> (nat \<Rightarrow> 'hook \<times> bool)" where
  "set_extra_client_params_exit task token vars = vars(task := token)"

interpretation extra_params: context_manager "set_extra_client_params_enter task hook dm"
  "set_extra_client_params_exit task" "\<lambda>vars. vars task" "\<lambda>token _. token" for task hook dm
  by unfold_locales (auto simp: set_extra_client_params_enter_def set_extra_client_params_exit_def)

section \<open>Answers to failures\<close>

text \<open>\<open>make_plain_response\<close>: \<open>reasons\<close> is the table \<open>HTTP_REASON\<close>.\<close>

record plain_response =
  status_code :: int
  content :: string
  content_type :: string

definition make_plain_response :: "(int \<Rightarrow> string option) \<Rightarrow> int \<Rightarrow> string option \<Rightarrow> plain_response" where
  "make_plain_response reasons code message =
     (let msg = (if truthy message then the message else case reasons code of Some r \<Rightarrow> r | None \<Rightarrow> ''Unknown'');
          line = str_of_int code @ '': '' @ msg
      in \<lparr>status_code = code, content = ''<html><title>'' @ line @ ''</title><body>'' @ line @ ''</body>'', content_type = ''text/html''\<rparr>)"

definition HTTP_REASON :: "client_consts \<Rightarrow> (int \<Rightarrow> string option) \<Rightarrow> int \<Rightarrow> string option" where
  "HTTP_REASON k responses = responses(SERVER_TIMEOUT k \<mapsto> ''Server Timeout'', INSUFFICIENT_TIMEOUT k \<mapsto> ''Insufficient Timeout'')"

definition check_if_timeout_was_reduced :: "client_consts \<Rightarrow> server_headers \<Rightarrow> bool py" where
  "check_if_timeout_was_reduced k h =
     (if headers_get h (DEADLINE_TIMEOUT_MS_HEADER k) = None \<or> headers_get h (OUTER_TIMEOUT_MS_HEADER k) = None then Inr False
      else py_bind (int_header h (DEADLINE_TIMEOUT_MS_HEADER k)) (\<lambda>d.
           py_bind (int_header h (OUTER_TIMEOUT_MS_HEADER k)) (\<lambda>out. Inr (d < out))))"

definition out_of_request_time_error_handler :: "client_consts \<Rightarrow> (int \<Rightarrow> string option) \<Rightarrow> server_headers \<Rightarrow> plain_response py" where
  "out_of_request_time_error_handler k reasons h =
     py_bind (check_if_timeout_was_reduced k h) (\<lambda>reduced.
       Inr (make_plain_response reasons (if reduced then INSUFFICIENT_TIMEOUT k else SERVER_TIMEOUT k) None))"

definition NON_CRITICAL_BAD_GATEWAY :: int where
  "NON_CRITICAL_BAD_GATEWAY = 569"

record failed_result =
  fr_status_code :: int
  data_parsing_failed :: bool
  fr_exc :: bool

definition fail_fast_status :: "client_consts \<Rightarrow> bool \<Rightarrow> failed_result \<Rightarrow> int" where
  "fail_fast_status k reduced f =
     (let code = fr_status_code f
      in if code = INSUFFICIENT_TIMEOUT k then (if reduced then INSUFFICIENT_TIMEOUT k else SERVER_TIMEOUT k)
         else if code = SERVER_TIMEOUT k then 504
         else if code \<in> {NON_CRITICAL_BAD_GATEWAY, 404, 403, 401} then code
         else if 400 \<le> code \<and> code < 500 then 500
         else if code \<ge> 500 then 502
         else if data_parsing_failed f \<or> fr_exc f then 500
         else code)"

definition fail_fast_error_handler :: "client_consts \<Rightarrow> (int \<Rightarrow> string option) \<Rightarrow> server_headers \<Rightarrow> failed_result \<Rightarrow> plain_response py" where
  "fail_fast_error_handler k reasons h f =
     py_bind (check_if_timeout_was_reduced k h) (\<lambda>reduced. Inr (make_plain_response reasons (fail_fast_status k reduced f) None))"

section \<open>Lemmas\<close>

lemma round_half_even_error: "\<bar>of_int (round_half_even x) - x\<bar> \<le> 1 / 2"
proof -
  have "of_int \<lfloor>x\<rfloor> \<le> x" "x < of_int \<lfloor>x\<rfloor> + 1" by linarith+
  then show ?thesis unfolding round_half_even_def Let_def
    by (auto simp: abs_le_iff algebra_simps)
qed

lemma trunc_pos:
  assumes "0 < trunc x"
  shows "of_int (trunc x) \<le> x"
proof (cases "0 \<le> x")
  case False
  with assms have "0 < \<lceil>x\<rceil>" by (simp add: trunc_def)
  with False show ?thesis by linarith
qed (simp add: trunc_def)

lemma trunc_nonpos: "trunc x \<le> 0 \<longleftrightarrow> x < 1"
proof -
  have "x < 1 \<longleftrightarrow> \<lfloor>x\<rfloor> \<le> 0" by linarith
  moreover have "\<lceil>x\<rceil> \<le> 0" if "\<not> 0 \<le> x" using that by (simp add: ceiling_le_iff)
  ultimately show ?thesis by (auto simp: trunc_def)
qed

lemma fmt0_read_back: "py_int 10 (fmt0 x) = Some (round_half_even x)"
  by (simp add: fmt0_def py_int_str_of_int)

lemma set_header_simps [simp]:
  "request_timeout (set_header n v r) = request_timeout r" "connect_timeout (set_header n v r) = connect_timeout r"
  "client_timeout (set_header n v r) = client_timeout r" "request_time_left (set_header n v r) = request_time_left r"
  "upstream_name (set_header n v r) = upstream_name r"
  "dict_get (rb_headers (set_header n v r)) k = (if k = n then Some v else dict_get (rb_headers r) k)"
  by (simp_all add: set_header_def)

lemma pass_debug_headers_simps [simp]:
  "request_timeout (pass_debug_headers e h dm r) = request_timeout r"
  "client_timeout (pass_debug_headers e h dm r) = client_timeout r"
  "n \<notin> {DEBUG_HEADER_NAME, DEBUG_AUTH_HEADER_NAME, ''Authorization''} \<Longrightarrow>
     dict_get (rb_headers (pass_debug_headers e h dm r)) n = dict_get (rb_headers r) n"
  by (auto simp: pass_debug_headers_def pass_header_def Let_def split: option.split)

text \<open>The time a request of the server has left for its own deadline, in milliseconds.\<close>

definition remaining_ms :: "call_env \<Rightarrow> rat \<Rightarrow> int \<Rightarrow> rat" where
  "remaining_ms e start hdr = of_int hdr - (time1 e - start) * 1000"

lemma apply_deadline_cases:
  assumes "has_deadline e h = Inr True" and "header_timeout e h = Inr hdr"
  shows "apply_deadline e h start r =
    (if remaining_ms e start hdr < 1 \<or> request_timeout r \<le> 0 then Inl OutOfRequestTime
     else let d = min (of_int (trunc (remaining_ms e start hdr))) (request_timeout r * 1000)
       in Inr ((set_header (DEADLINE_TIMEOUT_MS_HEADER (client e)) (fmt0 d) r)
           \<lparr>request_timeout := d / 1000, client_timeout := Some (d / 1000, connect_timeout r)\<rparr>))"
proof -
  have "min (of_int (trunc (remaining_ms e start hdr))) (request_timeout r * 1000) \<le> 0 \<longleftrightarrow>
      remaining_ms e start hdr < 1 \<or> request_timeout r \<le> 0"
    by (simp add: min_le_iff_disj trunc_nonpos)
  then show ?thesis by (simp add: apply_deadline_def assms Let_def remaining_ms_def)
qed

lemma increment_get:
  "counter_get (increment k x c) k' = (if k' = k then (fst (counter_get c k) + 1, max x (snd (counter_get c k))) else counter_get c k')"
  by (simp add: increment_def counter_get_def split: prod.split)

text \<open>Every change of the sender keeps the attribute of the callback when it is set to \<open>None\<close>.\<close>

lemma no_callback_starts: "send_stats_attr s = Some None \<Longrightarrow> start_sending_if_needed interval s = s"
  by (simp add: start_sending_if_needed_def send_stats_callback_def)

lemma check_keeps_attr: "send_stats_attr (check now hn tc r s) = send_stats_attr s"
  by (simp add: check_def send_data_def Let_def)

lemma track_timeout_keeps_attr:
  "track_timeout e h start r s = Inr s' \<Longrightarrow> send_stats_attr s = Some None \<Longrightarrow> send_stats_attr s' = Some None"
  by (auto simp: track_timeout_def get_timeout_checker_def no_callback_starts check_keeps_attr split: option.splits if_splits)

lemma modify_keeps_attr:
  assumes "modify_http_client_request e h start dm r s = Inr (r', s')" and "send_stats_attr s = Some None"
  shows "send_stats_attr s' = Some None"
  using assms
  by (auto simp: modify_http_client_request_def Let_def py_bind_Inr_conv dest: track_timeout_keeps_attr)

text \<open>A concrete request: deadline 500 ms, 200 ms spent, and an outgoing request that may take a second.\<close>

definition sample_consts :: client_consts where
  "sample_consts = \<lparr>DEADLINE_TIMEOUT_MS_HEADER = ''X-Deadline'', OUTER_TIMEOUT_MS_HEADER = ''X-Outer'', USER_AGENT_HEADER = ''User-Agent'',
     INSUFFICIENT_TIMEOUT = 477, SERVER_TIMEOUT = 577\<rparr>"

definition sample_call :: call_env where
  "sample_call = \<lparr>client = sample_consts, decrease_timeout = True, stats_interval = 60000, to_float = (\<lambda>s. if s = ''700'' then Some 700 else None),
     env_request_id = ''r1'', env_handler_name = Some ''page'', time1 = 1 / 5, time2 = 1 / 5, time3 = 1\<rparr>"

definition sample_server_headers :: server_headers where
  "sample_server_headers = [(''x-deadline'', ''500''), (''x-outer'', ''700''), (''user-agent'', ''front'')]"

definition sample_builder :: request_builder where
  "sample_builder = \<lparr>rb_headers = [], request_timeout = 1, connect_timeout = 1 / 10, client_timeout = None, rb_path = ''/x'',
     upstream_name = Some ''up'', request_time_left = 1\<rparr>"

definition sample_debug :: debug_mode where
  "sample_debug = \<lparr>debug_value = None, notpl = None, notrl = None, noxsl = None, mode_values = [], inherited = None, pass_debug = False,
     enabled = False, debug_response = False, profile_xslt = False, failed_auth_headers = None, need_auth = False,
     auth_failed = None, log_handler_set = False\<rparr>"

lemma sample_has_deadline: "has_deadline sample_call sample_server_headers = Inr True" "header_timeout sample_call sample_server_headers = Inr 500"
  by code_simp+

lemma sample_remaining: "remaining_ms sample_call 0 500 = 300"
  by (simp add: remaining_ms_def sample_call_def)

lemma sample_modified: "\<exists>r' s'. modify_http_client_request sample_call sample_server_headers 0 sample_debug sample_builder new_sender = Inr (r', s')"
proof -
  have "\<exists>s'. track_timeout sample_call sample_server_headers 0 r new_sender = Inr s'" for r
    by (auto simp: track_timeout_def sample_server_headers_def sample_call_def sample_consts_def headers_get_def lower_def lower_char_def dict_get_def
        split: prod.split)
  then show ?thesis
    by (auto simp: modify_http_client_request_def Let_def apply_deadline_cases [OF sample_has_deadline] sample_remaining sample_builder_def
        py_bind_Inr_conv)
qed

section \<open>Properties\<close>

text \<open>C12. 
  The deadline of a request is passed on. When the request has a deadline \<open>hdr\<close> (from its headers), an
  outgoing request is refused with \<open>OutOfRequestTime\<close> if less than a millisecond is left or its timeout is
  not positive. Otherwise its timeout becomes positive, at most what it was and at most the time left,
  and the deadline that the called server reads from the header is at most half a millisecond
  above the time left.
\<close>

theorem deadline_respected:
  assumes "has_deadline e h = Inr True" and "header_timeout e h = Inr hdr"
    and "DEADLINE_TIMEOUT_MS_HEADER (client e) \<notin> {DEBUG_HEADER_NAME, DEBUG_AUTH_HEADER_NAME, ''Authorization''}"
  shows "(remaining_ms e start hdr < 1 \<or> request_timeout r \<le> 0 \<longrightarrow>
      modify_http_client_request e h start dm r s = Inl OutOfRequestTime) \<and>
    (\<forall>r' s'. modify_http_client_request e h start dm r s = Inr (r', s') \<longrightarrow>
      0 < request_timeout r' \<and> request_timeout r' \<le> request_timeout r \<and>
      request_timeout r' * 1000 \<le> remaining_ms e start hdr \<and>
      client_timeout r' = Some (request_timeout r', connect_timeout r) \<and>
      (\<exists>v d. dict_get (rb_headers r') (DEADLINE_TIMEOUT_MS_HEADER (client e)) = Some v \<and> py_int 10 v = Some d \<and>
         of_int d \<le> remaining_ms e start hdr + 1 / 2))"
proof (intro conjI impI allI)
  assume "remaining_ms e start hdr < 1 \<or> request_timeout r \<le> 0"
  then show "modify_http_client_request e h start dm r s = Inl OutOfRequestTime"
    by (simp add: modify_http_client_request_def Let_def apply_deadline_cases [OF assms(1,2)])
next
  fix r' s' assume m: "modify_http_client_request e h start dm r s = Inr (r', s')"
  define d where "d = min (of_int (trunc (remaining_ms e start hdr))) (request_timeout r * 1000)"
  from m have left: "1 \<le> remaining_ms e start hdr" "0 < request_timeout r"
    by (auto simp: modify_http_client_request_def Let_def apply_deadline_cases [OF assms(1,2)] split: if_splits)
  with m assms(3) have r': "request_timeout r' = d / 1000" "client_timeout r' = Some (d / 1000, connect_timeout r)"
    "dict_get (rb_headers r') (DEADLINE_TIMEOUT_MS_HEADER (client e)) = Some (fmt0 d)"
    by (auto simp: modify_http_client_request_def Let_def apply_deadline_cases [OF assms(1,2)] py_bind_Inr_conv d_def)
  have t: "0 < trunc (remaining_ms e start hdr)" using trunc_nonpos [of "remaining_ms e start hdr"] left(1) by linarith
  with left(2) have "0 < d" by (simp add: d_def)
  moreover have d: "d \<le> request_timeout r * 1000" "d \<le> remaining_ms e start hdr"
    using trunc_pos [OF t] by (simp_all add: d_def min_le_iff_disj)
  moreover have "of_int (round_half_even d) \<le> remaining_ms e start hdr + 1 / 2"
    using round_half_even_error [of d] d(2) by linarith
  ultimately show "0 < request_timeout r'" "request_timeout r' \<le> request_timeout r"
    "request_timeout r' * 1000 \<le> remaining_ms e start hdr" "client_timeout r' = Some (request_timeout r', connect_timeout r)"
    "\<exists>v d. dict_get (rb_headers r') (DEADLINE_TIMEOUT_MS_HEADER (client e)) = Some v \<and> py_int 10 v = Some d \<and>
       of_int d \<le> remaining_ms e start hdr + 1 / 2"
    using r' fmt0_read_back [of d] by auto
qed

theorem deadline_respected_witness:
  "\<exists>r' s'. modify_http_client_request sample_call sample_server_headers 0 sample_debug sample_builder new_sender = Inr (r', s') \<and>
     0 < request_timeout r' \<and> request_timeout r' * 1000 \<le> 300"
proof -
  have "DEADLINE_TIMEOUT_MS_HEADER (client sample_call) \<notin> {DEBUG_HEADER_NAME, DEBUG_AUTH_HEADER_NAME, ''Authorization''}" by code_simp
  from deadline_respected [OF sample_has_deadline this, of 0] sample_modified show ?thesis
    unfolding sample_remaining by blast
qed



text \<open>
  The counters add up: after any sequence of reports, the entry of a group holds the number of its
  reports and the longest time spent among them (at least 0).
\<close>

theorem timeout_counters_aggregate:
  "counter_get (fold (\<lambda>(k, x). increment k x) reports []) k =
     (length (filter (\<lambda>(k', x). k' = k) reports), foldr max (map snd (filter (\<lambda>(k', x). k' = k) (rev reports))) 0)"
proof -
  have "counter_get (fold (\<lambda>(k, x). increment k x) reports c) k =
     (fst (counter_get c k) + length (filter (\<lambda>(k', x). k' = k) reports),
      foldr max (map snd (filter (\<lambda>(k', x). k' = k) (rev reports))) (snd (counter_get c k)))" for c
    by (induction reports arbitrary: c) (auto simp: increment_get max.commute)
  from this [of "[]"] show ?thesis by (simp add: counter_get_def)
qed

text \<open>
  The statistics are never sent: from the initial state, no sequence of outgoing requests creates the
  periodic callback, whatever the configured interval is, because the attribute that guards its creation
  is set to \<open>None\<close> by the constructor.
\<close>

theorem timeout_stats_never_sent:
  assumes "foldl (\<lambda>acc (e, h, start, dm, r). py_bind acc (\<lambda>s. py_bind (modify_http_client_request e h start dm r s) (\<lambda>(r', s'). Inr s')))
    (Inr new_sender) calls = Inr s"
  shows "send_stats_attr s = Some None"
proof -
  have "send_stats_attr s = Some None"
    if "foldl (\<lambda>acc (e, h, start, dm, r). py_bind acc (\<lambda>s. py_bind (modify_http_client_request e h start dm r s) (\<lambda>(r', s'). Inr s')))
      (Inr s0) calls = Inr s" "send_stats_attr s0 = Some None" for s0
    using that
  proof (induction calls arbitrary: s0)
    case (Cons c calls)
    obtain e h start dm r where c: "c = (e, h, start, dm, r)" by (cases c) auto
    show ?case
    proof (cases "modify_http_client_request e h start dm r s0")
      case (Inl x)
      have "foldl (\<lambda>acc (e, h, start, dm, r). py_bind acc (\<lambda>s. py_bind (modify_http_client_request e h start dm r s) (\<lambda>(r', s'). Inr s')))
        (Inl x) calls = Inl x" by (induction calls) auto
      with Cons.prems(1) Inl c show ?thesis by simp
    next
      case (Inr p)
      with modify_keeps_attr [OF _ Cons.prems(2)] Cons.IH [of "snd p"] Cons.prems(1) c show ?thesis by (cases p) simp
    qed
  qed simp
  from this [OF assms] show ?thesis by (simp add: new_sender_def)
qed

theorem timeout_stats_never_sent_witness:
  "\<exists>s. foldl (\<lambda>acc (e, h, start, dm, r). py_bind acc (\<lambda>s. py_bind (modify_http_client_request e h start dm r s) (\<lambda>(r', s'). Inr s')))
     (Inr new_sender) [(sample_call, sample_server_headers, 0, sample_debug, sample_builder)] = Inr s \<and> send_stats_attr s = Some None"
proof -
  from sample_modified obtain r' s' where
    m: "modify_http_client_request sample_call sample_server_headers 0 sample_debug sample_builder new_sender = Inr (r', s')" by blast
  show ?thesis
    using timeout_stats_never_sent [of "[(sample_call, sample_server_headers, 0, sample_debug, sample_builder)]"] by (simp add: m)
qed

end
