(* ===== verification/Dev_Routes.thy ===== *)
theory Dev_Routes
  imports Routing
begin

text \<open>
  The development mode of routing (\<open>frontik/dev_route_manager.py\<close>): instead of importing all pages, the
  server keeps a file with the known routes, answers for them with fake routes under \<open>/fake\<close>, and imports
  the module of a page when it is first requested. Importing a module is the argument \<open>import_module\<close>, a
  function on the routing state, and building a route object the argument \<open>mk\<close>. A walk of the page
  directory gives a list of directory, file name and modification time. The iteration order of a
  Python set is the argument \<open>set_order\<close>.
\<close>

section \<open>Data\<close>

definition EMPTY_FS_PATH :: string where
  "EMPTY_FS_PATH = ''empty''"

definition MAX_CHANGED_FILES_COUNT_TO_INVALIDATE :: nat where
  "MAX_CHANGED_FILES_COUNT_TO_INVALIDATE = 15"

record route_cache =
  rc_endpoint :: string
  rc_method :: string
  rc_path :: string
  rc_mtime :: rat
  rc_fs_path :: string

record page_mtime =
  pm_endpoint :: string
  pm_mtime :: rat
  pm_fs_path :: string

record diff_result =
  need_delete :: "(string, page_mtime) dict"
  need_add :: "(string, page_mtime) dict"

record map_file =
  mf_routes_map :: "route_cache list"
  mf_exclude_pages_to_add :: "page_mtime list"
  mf_mandatory_for_import :: "route_cache list"

text \<open>The manager: \<open>fake_target\<close> is what the endpoint of a fake route returns; \<open>map_file\<close> is the file on disk.\<close>

record dev_manager =
  dv_routing :: routing
  routes_map_module :: "(string, route_cache) dict"
  exclude_pages_to_add :: "page_mtime list"
  fake_routes :: "route_ref list"
  fake_dev_router :: "route_ref list"
  fake_target :: "route_ref \<Rightarrow> string"
  py_files_mtime :: "(string, page_mtime) dict"
  route_map_file :: "map_file option"

definition new_dev_manager :: "routing \<Rightarrow> map_file option \<Rightarrow> dev_manager" where
  "new_dev_manager st file = \<lparr>dv_routing = st, routes_map_module = [], exclude_pages_to_add = [], fake_routes = [],
     fake_dev_router = [], fake_target = (\<lambda>_. []), py_files_mtime = [], route_map_file = file\<rparr>"

section \<open>The cache and the files\<close>

definition page_keys :: "page_mtime list \<Rightarrow> (string \<times> string) list" where
  "page_keys ps = map (\<lambda>p. (pm_endpoint p, pm_fs_path p)) ps"

definition cache_keys :: "route_cache list \<Rightarrow> (string \<times> string) list" where
  "cache_keys rcs = map (\<lambda>rc. (rc_endpoint rc, rc_fs_path rc)) rcs"

definition collect_pages :: "(string, rat) dict \<Rightarrow> (string \<times> string) list \<Rightarrow> (string, page_mtime) dict" where
  "collect_pages mtimes keys =
     fold (\<lambda>(endpoint, fs_path) d.
        if fs_path \<noteq> EMPTY_FS_PATH
        then dict_set d endpoint \<lparr>pm_endpoint = endpoint, pm_mtime = (case dict_get mtimes endpoint of Some t \<Rightarrow> t | None \<Rightarrow> 0), pm_fs_path = fs_path\<rparr>
        else d) keys []"

definition get_diff_cache_and_fs ::
  "((string \<times> string) set \<Rightarrow> (string \<times> string) list) \<Rightarrow> route_cache list \<Rightarrow> page_mtime list \<Rightarrow> page_mtime list \<Rightarrow> diff_result" where
  "get_diff_cache_and_fs set_order routes_map py_files exclude =
     (let routes_cache_mtime = fold (\<lambda>rc d. dict_set d (rc_endpoint rc) (rc_mtime rc)) routes_map [];
          py_files_endpoint_mtime = fold (\<lambda>p d. dict_set d (pm_endpoint p) (pm_mtime p)) py_files [];
          only_in_route_cache = set (cache_keys routes_map) - set (page_keys py_files);
          only_in_py_files = set (page_keys py_files) - set (cache_keys routes_map) - set (page_keys exclude)
      in \<lparr>need_delete = collect_pages routes_cache_mtime (set_order only_in_route_cache),
          need_add = collect_pages py_files_endpoint_mtime (set_order only_in_py_files)\<rparr>)"

text \<open>\<open>s.replace(old, new)\<close> for a non-empty \<open>old\<close>.\<close>

function (sequential) replace_all :: "string \<Rightarrow> string \<Rightarrow> string \<Rightarrow> string" where
  "replace_all old new [] = []"
| "replace_all old new (c # cs) =
     (if old \<noteq> [] \<and> starts_with (c # cs) old then new @ replace_all old new (drop (length old) (c # cs))
      else c # replace_all old new cs)"
  by pat_completeness auto
termination
  by (relation "measure (\<lambda>(old, new, s). length s)") auto

definition fs_path_to_entry :: "string \<Rightarrow> nat \<Rightarrow> string" where
  "fs_path_to_entry fs_path src_folder_len =
     replace_all ''/'' ''.'' (replace_all ''.py'' [] (replace_all ''/__init__.py'' [] (drop src_folder_len fs_path)))"

definition map_py_files_mtime :: "(string \<times> string \<times> rat) list \<Rightarrow> nat \<Rightarrow> (string, page_mtime) dict" where
  "map_py_files_mtime walk src_folder_len =
     fold (\<lambda>(dirpath, filename, mtime) d.
        if ends_with filename ''.py'' \<and> \<not> contains filename ''.null-ls_''
        then let full_path = dirpath @ ''/'' @ filename; endpoint = fs_path_to_entry full_path src_folder_len
             in dict_set d endpoint \<lparr>pm_endpoint = endpoint, pm_mtime = mtime, pm_fs_path = full_path\<rparr>
        else d) walk []"

text \<open>\<open>some_method\<close> is the first method the iteration over the set of methods yields.\<close>

definition convert_fastapi_route_to_cache :: "(string set \<Rightarrow> string option) \<Rightarrow> route \<Rightarrow> string \<Rightarrow> rat \<Rightarrow> route_cache" where
  "convert_fastapi_route_to_cache some_method r fs_path mtime =
     \<lparr>rc_endpoint = fst (r_endpoint r),
      rc_method = upper (case some_method (r_methods r) of Some m \<Rightarrow> m | None \<Rightarrow> ''GET''),
      rc_path = r_path r, rc_mtime = mtime, rc_fs_path = fs_path\<rparr>"

section \<open>The manager\<close>

text \<open>What the manager calls: modules, route objects and the order of sets.\<close>

record dev_env =
  import_module :: "string \<Rightarrow> routing \<Rightarrow> routing"
  mk_route :: "string \<Rightarrow> string set \<Rightarrow> string \<times> string \<Rightarrow> route"
  set_order :: "(string \<times> string) set \<Rightarrow> (string \<times> string) list"
  some_method :: "string set \<Rightarrow> string option"
  find_spec :: "string \<Rightarrow> bool"
  iter_submodules :: "string \<Rightarrow> string list"
  walk :: "string \<Rightarrow> (string \<times> string \<times> rat) list"
  frontik_path :: string

definition get_route_map_path :: "dev_env \<Rightarrow> string" where
  "get_route_map_path e = frontik_path e @ ''/'' @ ''routes_map_exclude-dev-watcher_'' @ ''.py''"

definition get_frontik_folder_len :: "dev_env \<Rightarrow> nat" where
  "get_frontik_folder_len e = length (frontik_path e)"

definition add_fake_route :: "dev_env \<Rightarrow> route_cache \<Rightarrow> dev_manager \<Rightarrow> dev_manager" where
  "add_fake_route e route_data mgr =
     (let path = rc_path route_data; meth = upper (rc_method route_data); st = dv_routing mgr; r = next_ref st;
          route_key = meth @ ''.'' @ path
      in mgr\<lparr>routes_map_module := dict_set (routes_map_module mgr) route_key route_data,
           dv_routing := st\<lparr>heap := (heap st)(r := mk_route e (''/fake'' @ path) {meth} (''frontik.dev_route_manager'', ''route_endpoint'')),
             next_ref := Suc r\<rparr>,
           fake_target := (fake_target mgr)(r := rc_endpoint route_data),
           fake_dev_router := fake_dev_router mgr @ [r],
           fake_routes := fake_routes mgr @ [r]\<rparr>)"

text \<open>A mounted application has no endpoint: \<open>route.endpoint\<close> raises then.\<close>

fun process_routes :: "dev_env \<Rightarrow> (string, page_mtime) dict \<Rightarrow> route_ref list \<Rightarrow> dev_manager \<Rightarrow> (route_cache list \<times> dev_manager) py" where
  "process_routes e module_path_map [] mgr = Inr ([], mgr)"
| "process_routes e module_path_map (r # rs) mgr =
     (let ro = heap (dv_routing mgr) r
      in if \<not> r_api ro then Inl (PyException ''AttributeError'')
         else let fs_data = (case dict_get module_path_map (fst (r_endpoint ro)) of
                               Some p \<Rightarrow> p
                             | None \<Rightarrow> \<lparr>pm_endpoint = [], pm_mtime = 0, pm_fs_path = EMPTY_FS_PATH\<rparr>);
                  entry = convert_fastapi_route_to_cache (some_method e) ro (pm_fs_path fs_data) (pm_mtime fs_data)
              in py_bind (process_routes e module_path_map rs (add_fake_route e entry mgr)) (\<lambda>(routes_data, mgr).
                   Inr (entry # routes_data, mgr)))"

definition process_fastapi_routes_to_dev_route :: "dev_env \<Rightarrow> (string, page_mtime) dict \<Rightarrow> dev_manager \<Rightarrow> (route_cache list \<times> dev_manager) py" where
  "process_fastapi_routes_to_dev_route e module_path_map mgr =
     process_routes e module_path_map (fastapi_routes (dv_routing mgr)) mgr"

definition import_into :: "dev_env \<Rightarrow> string \<Rightarrow> dev_manager \<Rightarrow> dev_manager" where
  "import_into e name mgr = mgr\<lparr>dv_routing := import_module e name (dv_routing mgr)\<rparr>"

definition add_routes_to_cache :: "dev_env \<Rightarrow> string list \<Rightarrow> dev_manager \<Rightarrow> dev_manager py" where
  "add_routes_to_cache e endpoints mgr =
     (let mgr = fold (import_into e) endpoints mgr
      in py_bind (process_fastapi_routes_to_dev_route e (py_files_mtime mgr) mgr) (\<lambda>(_, mgr). Inr mgr))"

text \<open>The file is written and read as Python literals, so it holds the same lists; an empty \<open>not_found_router\<close> is an \<open>IndexError\<close>.\<close>

definition update_file_cache :: "dev_env \<Rightarrow> dev_manager \<Rightarrow> dev_manager py" where
  "update_file_cache e mgr =
     py_bind (last_route (not_found_routes (dv_routing mgr))) (\<lambda>r.
       Inr (mgr\<lparr>route_map_file := Some
         \<lparr>mf_routes_map = dict_values (routes_map_module mgr), mf_exclude_pages_to_add = exclude_pages_to_add mgr,
          mf_mandatory_for_import = [convert_fastapi_route_to_cache (some_method e) (heap (dv_routing mgr) r) EMPTY_FS_PATH 0]\<rparr>\<rparr>))"

definition create_route_map_module :: "dev_env \<Rightarrow> string \<Rightarrow> dev_manager \<Rightarrow> dev_manager py" where
  "create_route_map_module e app_module mgr =
     (let mgr = mgr\<lparr>dv_routing := import_all_pages (find_spec e) (import_module e) (iter_submodules e) app_module (dv_routing mgr)\<rparr>
      in py_bind (process_fastapi_routes_to_dev_route e (py_files_mtime mgr) mgr) (\<lambda>(_, mgr).
           let diff = get_diff_cache_and_fs (set_order e) (dict_values (routes_map_module mgr)) (dict_values (py_files_mtime mgr)) []
           in update_file_cache e (mgr\<lparr>exclude_pages_to_add := dict_values (need_add diff)\<rparr>)))"

definition changed :: "dev_manager \<Rightarrow> route_cache \<Rightarrow> bool" where
  "changed mgr rc =
     (case dict_get (py_files_mtime mgr) (rc_endpoint rc) of Some p \<Rightarrow> pm_mtime p \<noteq> rc_mtime rc | None \<Rightarrow> False)"

text \<open>The loop over the cached routes: the changed ones are returned, the others become fake routes unless their file is gone.\<close>

fun load_cached :: "dev_env \<Rightarrow> (string, page_mtime) dict \<Rightarrow> route_cache list \<Rightarrow> dev_manager \<Rightarrow> route_cache list \<times> dev_manager" where
  "load_cached e to_delete [] mgr = ([], mgr)"
| "load_cached e to_delete (rc # rcs) mgr =
     (if changed mgr rc then (case load_cached e to_delete rcs mgr of (upd, mgr') \<Rightarrow> (rc # upd, mgr'))
      else if dict_get to_delete (rc_endpoint rc) = None then load_cached e to_delete rcs (add_fake_route e rc mgr)
      else load_cached e to_delete rcs mgr)"

definition sort_both :: "dev_manager \<Rightarrow> dev_manager" where
  "sort_both mgr = (let st = dv_routing mgr in
     mgr\<lparr>fake_routes := sort_routes (heap st) (fake_routes mgr),
         dv_routing := st\<lparr>fastapi_routes := sort_routes (heap st) (fastapi_routes st)\<rparr>\<rparr>)"

definition dev_import_all_pages :: "dev_env \<Rightarrow> string \<Rightarrow> dev_manager \<Rightarrow> dev_manager py" where
  "dev_import_all_pages e app_module mgr =
     (let pages_root_folder = ''/source-site-packages/'' @ app_module @ ''/pages'';
          mgr = mgr\<lparr>py_files_mtime := map_py_files_mtime (walk e pages_root_folder) (get_frontik_folder_len e)\<rparr>
      in case route_map_file mgr of
           None \<Rightarrow> create_route_map_module e app_module mgr
         | Some file \<Rightarrow>
             (let mgr = mgr\<lparr>exclude_pages_to_add := mf_exclude_pages_to_add file\<rparr>;
                  mgr = fold (import_into e) (map rc_endpoint (mf_mandatory_for_import file)) mgr;
                  diff = get_diff_cache_and_fs (set_order e) (mf_routes_map file) (dict_values (py_files_mtime mgr)) (exclude_pages_to_add mgr)
              in case load_cached e (need_delete diff) (mf_routes_map file) mgr of (need_to_update, mgr) \<Rightarrow>
                   (let to_add = map pm_endpoint (dict_values (need_add diff)) @ map rc_endpoint need_to_update
                    in if length to_add > MAX_CHANGED_FILES_COUNT_TO_INVALIDATE then create_route_map_module e app_module mgr
                       else py_bind (if to_add \<noteq> [] then add_routes_to_cache e to_add mgr else Inr mgr) (\<lambda>mgr.
                              update_file_cache e (sort_both mgr)))))"

definition import_route :: "'c matcher \<Rightarrow> dev_env \<Rightarrow> string \<Rightarrow> string \<Rightarrow> dev_manager \<Rightarrow> dev_manager py" where
  "import_route m e path meth mgr =
     py_bind (find_route m (dv_routing mgr) path (upper meth) (Some (fake_routes mgr)) ''/fake'') (\<lambda>(scope, st).
       let mgr = mgr\<lparr>dv_routing := st\<rparr>;
           mgr = (case (sc_endpoint scope, sc_route scope) of
                    (Some (_, name), Some r) \<Rightarrow> if name = ''route_endpoint'' then import_into e (fake_target mgr r) mgr else mgr
                  | _ \<Rightarrow> mgr);
           st = dv_routing mgr
       in Inr (mgr\<lparr>dv_routing := st\<lparr>fastapi_routes := sort_routes (heap st) (fastapi_routes st)\<rparr>\<rparr>))"

section \<open>Lemmas\<close>

text \<open>What the code relies on: sets are iterated completely, and a built route has the given path, methods and endpoint.\<close>

definition env_ok :: "dev_env \<Rightarrow> bool" where
  "env_ok e \<longleftrightarrow> (\<forall>A. finite A \<longrightarrow> set (set_order e A) = A) \<and>
     (\<forall>p ms ep. r_api (mk_route e p ms ep) \<and> r_path (mk_route e p ms ep) = p \<and> r_methods (mk_route e p ms ep) = ms \<and>
        r_endpoint (mk_route e p ms ep) = ep)"

lemma collect_pages_get:
  "(case dict_get (collect_pages mtimes keys) ep of
      Some p \<Rightarrow> (ep, pm_fs_path p) \<in> set keys \<and> pm_fs_path p \<noteq> EMPTY_FS_PATH \<and> pm_endpoint p = ep
    | None \<Rightarrow> (\<forall>fs. (ep, fs) \<in> set keys \<longrightarrow> fs = EMPTY_FS_PATH))"
proof (induction keys rule: rev_induct)
  case (snoc k keys)
  then show ?case by (cases k) (auto simp: collect_pages_def split: option.splits)
qed (simp add: collect_pages_def)

lemma collect_pages_dom:
  "dict_get (collect_pages mtimes keys) ep \<noteq> None \<longleftrightarrow> (\<exists>fs. (ep, fs) \<in> set keys \<and> fs \<noteq> EMPTY_FS_PATH)"
  using collect_pages_get [where mtimes = mtimes and keys = keys and ep = ep] by (auto split: option.splits)

lemma diff_need_add:
  assumes "env_ok e"
  shows "dict_get (need_add (get_diff_cache_and_fs (set_order e) cache files exclude)) ep \<noteq> None \<longleftrightarrow>
    (\<exists>fs. fs \<noteq> EMPTY_FS_PATH \<and> (ep, fs) \<in> set (page_keys files) \<and> (ep, fs) \<notin> set (cache_keys cache) \<and> (ep, fs) \<notin> set (page_keys exclude))"
  using assms by (auto simp: get_diff_cache_and_fs_def Let_def collect_pages_dom env_ok_def simp del: not_None_eq)

lemma diff_need_delete:
  assumes "env_ok e"
  shows "dict_get (need_delete (get_diff_cache_and_fs (set_order e) cache files exclude)) ep \<noteq> None \<longleftrightarrow>
    (\<exists>fs. fs \<noteq> EMPTY_FS_PATH \<and> (ep, fs) \<in> set (cache_keys cache) \<and> (ep, fs) \<notin> set (page_keys files))"
  using assms by (auto simp: get_diff_cache_and_fs_def Let_def collect_pages_dom env_ok_def simp del: not_None_eq)

text \<open>Fake routes are allocated, apart from the table, under \<open>/fake\<close>, and lead to the manager's endpoint.\<close>

definition fake_route_ok :: "dev_manager \<Rightarrow> route_ref \<Rightarrow> bool" where
  "fake_route_ok mgr r \<longleftrightarrow>
     r < next_ref (dv_routing mgr) \<and> r_api (heap (dv_routing mgr) r) \<and>
     (\<exists>p. r_path (heap (dv_routing mgr) r) = ''/fake'' @ p) \<and>
     r_endpoint (heap (dv_routing mgr) r) = (''frontik.dev_route_manager'', ''route_endpoint'')"

definition fake_ok :: "dev_manager \<Rightarrow> bool" where
  "fake_ok mgr \<longleftrightarrow> (\<forall>r \<in> set (fake_routes mgr). fake_route_ok mgr r)"

lemma add_fake_route_ok: "env_ok e \<Longrightarrow> fake_ok mgr \<Longrightarrow> fake_ok (add_fake_route e rc mgr)"
  by (auto simp: fake_ok_def fake_route_ok_def add_fake_route_def Let_def env_ok_def less_Suc_eq)

text \<open>The fake route that a cached route has.\<close>

definition has_fake :: "dev_env \<Rightarrow> route_cache \<Rightarrow> dev_manager \<Rightarrow> bool" where
  "has_fake e rc mgr \<longleftrightarrow>
     (\<exists>r \<in> set (fake_routes mgr). r < next_ref (dv_routing mgr) \<and> fake_target mgr r = rc_endpoint rc \<and>
        heap (dv_routing mgr) r =
          mk_route e (''/fake'' @ rc_path rc) {upper (rc_method rc)} (''frontik.dev_route_manager'', ''route_endpoint''))"

lemma add_fake_route_has: "has_fake e rc (add_fake_route e rc mgr)" "has_fake e rc mgr \<Longrightarrow> has_fake e rc (add_fake_route e rc' mgr)"
  by (auto simp: has_fake_def add_fake_route_def Let_def less_Suc_eq)

lemma add_fake_route_files [simp]: "py_files_mtime (add_fake_route e rc mgr) = py_files_mtime mgr"
  by (simp add: add_fake_route_def Let_def)

lemma load_cached_ok:
  assumes "load_cached e del rcs mgr = (upd, mgr')" and "env_ok e" and "fake_ok mgr"
  shows "fake_ok mgr'"
  using assms
  by (induction e del rcs mgr arbitrary: upd mgr' rule: load_cached.induct)
    (auto intro: add_fake_route_ok split: if_splits prod.splits)

lemma load_cached_keeps_fake:
  "load_cached e del rcs mgr = (upd, mgr') \<Longrightarrow> has_fake e rc mgr \<Longrightarrow> has_fake e rc mgr'"
  by (induction e del rcs mgr arbitrary: upd mgr' rule: load_cached.induct)
    (auto intro: add_fake_route_has split: if_splits prod.splits)

lemma changed_add_fake [simp]: "changed (add_fake_route e rc' mgr) = changed mgr"
  by (simp add: fun_eq_iff changed_def)

text \<open>Every cached route is either updated, or has a fake route, or lost its file.\<close>

lemma load_cached_complete:
  assumes "load_cached e del rcs mgr = (upd, mgr')" and "rc \<in> set rcs"
  shows "if changed mgr rc then rc \<in> set upd else dict_get del (rc_endpoint rc) = None \<longrightarrow> has_fake e rc mgr'"
  using assms
proof (induction rcs arbitrary: mgr upd)
  case (Cons x rcs)
  show ?case
  proof (cases "x = rc")
    case True
    with Cons.prems(1) show ?thesis
      using load_cached_keeps_fake [of e del rcs "add_fake_route e rc mgr"] add_fake_route_has(1)
      by (auto split: if_splits prod.splits)
  next
    case False
    with Cons.prems(2) have "rc \<in> set rcs" by simp
    with Cons.IH [of mgr] Cons.IH [of "add_fake_route e x mgr"] Cons.prems(1) show ?thesis
      by (auto split: if_splits prod.splits)
  qed
qed simp

section \<open>On-demand import\<close>

definition resort :: "dev_manager \<Rightarrow> dev_manager" where
  "resort mgr = (let st = dv_routing mgr in mgr\<lparr>dv_routing := st\<lparr>fastapi_routes := sort_routes (heap st) (fastapi_routes st)\<rparr>\<rparr>)"

lemma import_route_effect:
  assumes "routing_ok (dv_routing mgr)" and "r = route_spec m (dv_routing mgr) path (upper meth) (Some (fake_routes mgr)) ''/fake''"
    and "r_api (heap (dv_routing mgr) r)"
  shows "\<exists>M. let mgr1 = mgr\<lparr>dv_routing := with_methods r M (dv_routing mgr)\<rparr>
    in import_route m e path meth mgr = Inr (resort
         (if snd (r_endpoint (heap (dv_routing mgr) r)) = ''route_endpoint'' then import_into e (fake_target mgr r) mgr1 else mgr1)) \<and>
       r_methods (heap (dv_routing mgr) r) \<subseteq> M"
proof -
  from find_route_refines [OF assms(1), of m path "upper meth" "Some (fake_routes mgr)" "''/fake''"] assms(2)
  obtain scope st' M where f: "find_route m (dv_routing mgr) path (upper meth) (Some (fake_routes mgr)) ''/fake'' = Inr (scope, st')"
    and l: "lookup_result (dv_routing mgr) (upper meth) r scope st' M" by blast
  from l assms(3) have "sc_route scope = Some r" "sc_endpoint scope = Some (r_endpoint (heap (dv_routing mgr) r))"
    "st' = with_methods r M (dv_routing mgr)" "r_methods (heap (dv_routing mgr) r) \<subseteq> M"
    by (auto simp: lookup_result_def)
  with f show ?thesis
    by (cases "r_endpoint (heap (dv_routing mgr) r)") (auto simp: import_route_def resort_def Let_def)
qed

section \<open>Properties\<close>

text \<open>
  The comparison of cache and files. The pages to add are those with a file that is neither cached nor
  excluded, the pages to delete those that are cached with a file that is gone; in both, a page is
  identified by module and file, and entries without a file do not count.
\<close>

theorem diff_cache_and_fs_exact:
  assumes "env_ok e"
  shows "(dict_get (need_add (get_diff_cache_and_fs (set_order e) cache files exclude)) ep \<noteq> None \<longleftrightarrow>
      (\<exists>fs. fs \<noteq> EMPTY_FS_PATH \<and> (ep, fs) \<in> set (page_keys files) \<and> (ep, fs) \<notin> set (cache_keys cache) \<and> (ep, fs) \<notin> set (page_keys exclude))) \<and>
    (dict_get (need_delete (get_diff_cache_and_fs (set_order e) cache files exclude)) ep \<noteq> None \<longleftrightarrow>
      (\<exists>fs. fs \<noteq> EMPTY_FS_PATH \<and> (ep, fs) \<in> set (cache_keys cache) \<and> (ep, fs) \<notin> set (page_keys files)))"
  by (intro conjI diff_need_add [OF assms] diff_need_delete [OF assms])


text \<open>
  The first request to a page imports it: when the fake routes have a match for the request, the module
  of the first match is imported, the only other effects being method sets and the order of the table.
\<close>

theorem import_route_imports_page:
  assumes "routing_ok (dv_routing mgr)" and "fake_ok mgr"
    and "table_search m (dv_routing mgr) path (upper meth) (Some (fake_routes mgr)) ''/fake'' = Some r"
  shows "\<exists>M. import_route m e path meth mgr =
    Inr (resort (import_into e (fake_target mgr r) (mgr\<lparr>dv_routing := with_methods r M (dv_routing mgr)\<rparr>)))"
proof -
  have "r = route_spec m (dv_routing mgr) path (upper meth) (Some (fake_routes mgr)) ''/fake''"
    using assms(3) by (simp add: route_spec_def)
  moreover have "r \<in> set (fake_routes mgr)"
    using find_SomeD [OF assms(3) [unfolded table_search_def]] by (simp add: table_def)
  with assms(2) have "fake_route_ok mgr r" by (simp add: fake_ok_def)
  ultimately show ?thesis
    using import_route_effect [OF assms(1), of r m path meth e] by (auto simp: fake_route_ok_def Let_def)
qed

text \<open>
  A HEAD request imports nothing. The lookup for GET that a HEAD request falls back to drops the prefix
  \<open>/fake\<close>, so no fake route matches it, and the outcome is the same whatever importing a module would do.
\<close>

theorem head_imports_nothing:
  assumes "routing_ok (dv_routing mgr)" and "fake_ok mgr" and "starlette_matches pm m"
    and "\<forall>r \<in> set (fake_routes mgr). \<forall>q. pm (r_path (heap (dv_routing mgr) r)) q \<longrightarrow> starts_with q ''/fake''" and "\<not> starts_with (normalize_path path) ''/fake''"
    and "table_search m (dv_routing mgr) path ''HEAD'' (Some (fake_routes mgr)) ''/fake'' = None"
    and "\<forall>r \<in> fallback_refs (dv_routing mgr). snd (r_endpoint (heap (dv_routing mgr) r)) \<noteq> ''route_endpoint''"
  shows "import_route m e path ''HEAD'' mgr = import_route m (e\<lparr>import_module := f\<rparr>) path ''HEAD'' mgr"
proof -
  let ?st = "dv_routing mgr"
  have "table_search m ?st path ''GET'' (Some (fake_routes mgr)) [] = None"
  proof (rule ccontr)
    assume "table_search m ?st path ''GET'' (Some (fake_routes mgr)) [] \<noteq> None"
    then obtain r where "table_search m ?st path ''GET'' (Some (fake_routes mgr)) [] = Some r" by blast
    from find_SomeD [OF this [unfolded table_search_def]]
    have r: "r \<in> set (fake_routes mgr)" "full_match m (heap ?st) (normalize_path path) ''GET'' r" by (simp_all add: table_def)
    with assms(2) have ok: "fake_route_ok mgr r" by (simp add: fake_ok_def)
    then have "pm (r_path (heap ?st r)) (normalize_path path)"
      using full_match_path [OF assms(3) _ r(2)] by (simp add: fake_route_ok_def)
    with r(1) assms(4,5) show False by blast
  qed
  then have spec: "route_spec m ?st path ''HEAD'' (Some (fake_routes mgr)) ''/fake'' = fallback_spec m ?st (normalize_path path) ''GET''"
    using assms(6) by (simp add: route_spec_def)
  have "fallback_spec m ?st (normalize_path path) ''GET'' \<in> fallback_refs ?st"
    by (simp add: fallback_spec_def fallback_refs_def)
  with assms(7) have n: "snd (r_endpoint (heap ?st (fallback_spec m ?st (normalize_path path) ''GET''))) \<noteq> ''route_endpoint''" by blast
  from find_route_refines [OF assms(1), of m path "''HEAD''" "Some (fake_routes mgr)" "''/fake''"]
  obtain scope st' M where l: "find_route m ?st path ''HEAD'' (Some (fake_routes mgr)) ''/fake'' = Inr (scope, st')"
    "lookup_result ?st ''HEAD'' (fallback_spec m ?st (normalize_path path) ''GET'') scope st' M" unfolding spec by blast
  with fallback_spec_ok(1) [OF assms(1), of m "normalize_path path" "''GET''"]
  have "sc_endpoint scope = Some (r_endpoint (heap ?st (fallback_spec m ?st (normalize_path path) ''GET'')))"
    unfolding lookup_result_def by blast
  with n l(1) show ?thesis
    by (cases "r_endpoint (heap ?st (fallback_spec m ?st (normalize_path path) ''GET''))")
      (simp add: import_route_def Let_def split: option.split)
qed

section \<open>A concrete manager\<close>

definition sample_dev_env :: dev_env where
  "sample_dev_env = \<lparr>import_module = (\<lambda>name st. st\<lparr>router_ids := router_ids st @ [length name]\<rparr>),
     mk_route = (\<lambda>p ms ep. \<lparr>r_api = True, r_path = p, r_path_format = p, r_methods = ms, r_endpoint = ep\<rparr>),
     set_order = sorted_list_of_set, some_method = (\<lambda>_. Some ''GET''), find_spec = (\<lambda>_. True),
     iter_submodules = (\<lambda>_. []), walk = (\<lambda>_. []), frontik_path = ''/frontik''\<rparr>"

lemma sample_env_ok: "env_ok sample_dev_env"
  by (simp add: env_ok_def sample_dev_env_def)

definition sample_cache :: route_cache where
  "sample_cache = \<lparr>rc_endpoint = ''app.pages.a'', rc_method = ''get'', rc_path = ''/a'', rc_mtime = 1, rc_fs_path = ''/a.py''\<rparr>"

definition sample_manager :: dev_manager where
  "sample_manager = add_fake_route sample_dev_env sample_cache (new_dev_manager demo_routing None)"

lemma sample_manager_ok: "fake_ok sample_manager" "routing_ok (dv_routing sample_manager)"
  "table_search template_matcher (dv_routing sample_manager) ''/a'' ''GET'' (Some (fake_routes sample_manager)) ''/fake'' = Some 5"
  "table_search template_matcher (dv_routing sample_manager) ''/a'' ''HEAD'' (Some (fake_routes sample_manager)) ''/fake'' = None"
  "fake_target sample_manager 5 = ''app.pages.a''"
proof -
  show "fake_ok sample_manager"
    unfolding sample_manager_def by (rule add_fake_route_ok [OF sample_env_ok]) (simp add: fake_ok_def new_dev_manager_def)
  show "routing_ok (dv_routing sample_manager)"
    by (simp add: sample_manager_def add_fake_route_def Let_def new_dev_manager_def routing_ok_def demo_routing_def fallback_refs_def
        demo_heap_def get_route_def)
qed code_simp+

lemma sample_fake_paths:
  "\<forall>r \<in> set (fake_routes sample_manager). \<forall>q. template_match (r_path (heap (dv_routing sample_manager) r)) q \<longrightarrow> starts_with q ''/fake''"
proof (intro ballI allI impI)
  fix r q assume "r \<in> set (fake_routes sample_manager)" and q: "template_match (r_path (heap (dv_routing sample_manager) r)) q"
  then have "r = 5"
    by (simp add: sample_manager_def add_fake_route_def Let_def new_dev_manager_def demo_routing_def)
  moreover have "r_path (heap (dv_routing sample_manager) 5) = ''/fake/a''" by code_simp
  moreover have "split_on CHR ''/'' ''/fake/a'' = [[], ''fake'', ''a'']" by code_simp
  ultimately have "split_on CHR ''/'' q = [[], ''fake'', ''a'']"
    using q by (auto simp: template_match_def is_param_segment_def list_all2_Cons1)
  then have "q = join_with ''/'' [[], ''fake'', ''a'']" using join_split_on [of "CHR ''/''" q] by simp
  then show "starts_with q ''/fake''" by (simp add: starts_with_def)
qed

theorem diff_cache_and_fs_exact_witness:
  "dict_get (need_add (get_diff_cache_and_fs (set_order sample_dev_env) [sample_cache]
       [\<lparr>pm_endpoint = ''app.pages.b'', pm_mtime = 2, pm_fs_path = ''/b.py''\<rparr>] [])) ''app.pages.b'' \<noteq> None \<and>
   dict_get (need_delete (get_diff_cache_and_fs (set_order sample_dev_env) [sample_cache]
       [\<lparr>pm_endpoint = ''app.pages.b'', pm_mtime = 2, pm_fs_path = ''/b.py''\<rparr>] [])) ''app.pages.a'' \<noteq> None"
  using diff_cache_and_fs_exact [OF sample_env_ok, where cache = "[sample_cache]" and exclude = "[]" and ep = "''app.pages.a''"
      and files = "[\<lparr>pm_endpoint = ''app.pages.b'', pm_mtime = 2, pm_fs_path = ''/b.py''\<rparr>]"]
    diff_cache_and_fs_exact [OF sample_env_ok, where cache = "[sample_cache]" and exclude = "[]" and ep = "''app.pages.b''"
      and files = "[\<lparr>pm_endpoint = ''app.pages.b'', pm_mtime = 2, pm_fs_path = ''/b.py''\<rparr>]"]
  by (simp add: page_keys_def cache_keys_def sample_cache_def EMPTY_FS_PATH_def)


theorem import_route_imports_page_witness:
  "\<exists>mgr'. import_route template_matcher sample_dev_env ''/a'' ''get'' sample_manager = Inr mgr' \<and>
     router_ids (dv_routing mgr') = [0, length ''app.pages.a'']"
proof -
  have u: "upper ''get'' = ''GET''" by code_simp
  from import_route_imports_page [OF sample_manager_ok(2,1), where m = template_matcher and path = "''/a''" and meth = "''get''" and r = 5 and e = sample_dev_env]
  obtain M where "import_route template_matcher sample_dev_env ''/a'' ''get'' sample_manager =
    Inr (resort (import_into sample_dev_env ''app.pages.a'' (sample_manager\<lparr>dv_routing := with_methods 5 M (dv_routing sample_manager)\<rparr>)))"
    unfolding u using sample_manager_ok(3,5) by auto
  moreover have "router_ids (dv_routing sample_manager) = [0]" by code_simp
  ultimately show ?thesis
    by (simp add: resort_def import_into_def sample_dev_env_def Let_def with_methods_def)
qed

theorem head_imports_nothing_witness:
  "import_route template_matcher sample_dev_env ''/a'' ''HEAD'' sample_manager =
   import_route template_matcher (sample_dev_env\<lparr>import_module := \<lambda>_ st. st\<rparr>) ''/a'' ''HEAD'' sample_manager"
proof (rule head_imports_nothing [OF sample_manager_ok(2,1) template_matcher_ok sample_fake_paths _ sample_manager_ok(4)])
  show "\<not> starts_with (normalize_path ''/a'') ''/fake''" by code_simp
  show "\<forall>r \<in> fallback_refs (dv_routing sample_manager). snd (r_endpoint (heap (dv_routing sample_manager) r)) \<noteq> ''route_endpoint''"
    by code_simp
qed

end
