(* ===== verification/Logging.thy ===== *)
theory Logging
  imports Frontik_Prelude
begin

text \<open>
  Logging (\<open>frontik/loggers/__init__.py\<close>), the override of log levels at run time
  (\<open>loggers/logleveloverride\<close>) and the metrics of the garbage collector
  (\<open>app_integrations/gc_metrics_collector.py\<close>), which log through it. The tree of loggers is that of the
  standard library: a logger that nobody configured has no handlers, level 0 and hands on to its
  parent. A line is what a handler writes: where, the record as it was then, and the formatter.
\<close>

section \<open>Loggers and handlers\<close>

record log_record =
  rec_name :: string
  levelno :: nat
  levelname :: string
  rec_msg :: "string option"
  custom_json :: "(string \<times> string) list"
  exc_info :: "string option"
  exc_text :: "string option"
  stack_info :: "string option"

datatype sink = FileSink string | StderrSink | SyslogSink string | DebugSink

datatype formatter = JSON_FORMATTER | Text_Formatter | Stderr_Formatter | OtherFormatter nat

record handler =
  h_sink :: sink
  h_formatter :: "formatter option"
  h_context_filter :: bool
  h_level :: nat

record logger =
  lg_level :: nat
  lg_handlers :: "handler list"
  lg_propagate :: bool
  lg_appender :: "string option"

type_synonym loggers = "string \<Rightarrow> logger"

definition fresh_logger :: logger where
  "fresh_logger = \<lparr>lg_level = 0, lg_handlers = [], lg_propagate = True, lg_appender = None\<rparr>"

definition ROOT_LOGGER :: string where
  "ROOT_LOGGER = ''root''"

text \<open>\<open>logging.getLogger\<close>: the empty name is the root logger.\<close>

definition get_logger :: "string \<Rightarrow> string" where
  "get_logger name = (if name = [] then ROOT_LOGGER else name)"

text \<open>The logger and its ancestors, the root last; \<open>a.b\<close> is below \<open>a\<close>.\<close>

fun prefixes :: "string list \<Rightarrow> string list list" where
  "prefixes [] = []"
| "prefixes (w # ws) = map ((#) w) (prefixes ws) @ [[w]]"

definition ancestors :: "string \<Rightarrow> string list" where
  "ancestors name =
     (if name = ROOT_LOGGER then [ROOT_LOGGER] else map (join_with ''.'') (prefixes (split_on CHR ''.'' name)) @ [ROOT_LOGGER])"

definition effective_level :: "loggers \<Rightarrow> string \<Rightarrow> nat" where
  "effective_level lgs name =
     (case find (\<lambda>n. lg_level (lgs n) \<noteq> 0) (ancestors name) of Some n \<Rightarrow> lg_level (lgs n) | None \<Rightarrow> 0)"

text \<open>The handlers a record meets: those of the logger and its ancestors up to one that does not propagate.\<close>

fun reached :: "loggers \<Rightarrow> string list \<Rightarrow> handler list" where
  "reached lgs [] = []"
| "reached lgs (n # ns) = lg_handlers (lgs n) @ (if lg_propagate (lgs n) then reached lgs ns else [])"

section \<open>Filters and emission\<close>

text \<open>
  \<open>ContextFilter\<close> changes the name of the record itself; \<open>handler_name\<close> is the one of the request context.
  \<open>DebugLogHandler\<close> hands the record to the buffer of the request, if there is one, with no filter.
\<close>

definition context_filter :: "string option \<Rightarrow> log_record \<Rightarrow> log_record" where
  "context_filter hn r =
     r\<lparr>rec_name := join_with ''.'' (filter (\<lambda>s. s \<noteq> []) [rec_name r, case hn of Some s \<Rightarrow> s | None \<Rightarrow> []])\<rparr>"

type_synonym line = "sink \<times> log_record \<times> formatter option"

definition handle_one :: "string option \<Rightarrow> bool \<Rightarrow> handler \<Rightarrow> log_record \<Rightarrow> line list \<times> log_record" where
  "handle_one hn debug_buffer h r =
     (if levelno r < h_level h then ([], r)
      else case h_sink h of
        DebugSink \<Rightarrow> (if debug_buffer then [(DebugSink, r, None)] else [], r)
      | _ \<Rightarrow> (let r = (if h_context_filter h then context_filter hn r else r)
             in ([(h_sink h, r, h_formatter h)], r)))"

fun call_handlers :: "string option \<Rightarrow> bool \<Rightarrow> handler list \<Rightarrow> log_record \<Rightarrow> line list" where
  "call_handlers hn debug_buffer [] r = []"
| "call_handlers hn debug_buffer (h # hs) r =
     (case handle_one hn debug_buffer h r of (ls, r') \<Rightarrow> ls @ call_handlers hn debug_buffer hs r')"

text \<open>A call \<open>logger.log\<close>.\<close>

definition log_call :: "loggers \<Rightarrow> string option \<Rightarrow> bool \<Rightarrow> string \<Rightarrow> log_record \<Rightarrow> line list" where
  "log_call lgs hn debug_buffer name r =
     (if levelno r < effective_level lgs name then []
      else call_handlers hn debug_buffer (reached lgs (ancestors name)) (r\<lparr>rec_name := name\<rparr>))"

text \<open>\<open>BufferedHandler.handle\<close>.\<close>

definition buffer_handle :: "log_record \<Rightarrow> log_record list \<Rightarrow> log_record list" where
  "buffer_handle r records = records @ [r]"

section \<open>Formatting\<close>

text \<open>\<open>_get_logger_filename\<close>: the default is evaluated first, so the root logger must have its appender.\<close>

definition get_logger_filename :: "loggers \<Rightarrow> string \<Rightarrow> string py" where
  "get_logger_filename lgs name =
     (case lg_appender (lgs ROOT_LOGGER) of
        None \<Rightarrow> Inl (PyException ''AttributeError'')
      | Some d \<Rightarrow> Inr (case lg_appender (lgs name) of Some a \<Rightarrow> a | None \<Rightarrow> d))"

definition get_mdc :: "int \<Rightarrow> string option \<Rightarrow> string option \<Rightarrow> string option \<Rightarrow> (string, string) dict" where
  "get_mdc pid role hn rid =
     [(''thread'', str_of_int pid)] @ (case role of Some x \<Rightarrow> [(''role'', x)] | None \<Rightarrow> []) @
     (if truthy hn then [(''controller'', the hn)] else []) @ (if truthy rid then [(''rid'', the rid)] else [])"

text \<open>\<open>format_stack_trace\<close> also stores the text of the exception in the record.\<close>

definition format_stack_trace :: "log_record \<Rightarrow> string \<times> log_record" where
  "format_stack_trace r =
     (let r = (if truthy (exc_info r) \<and> \<not> truthy (exc_text r) then r\<lparr>exc_text := exc_info r\<rparr> else r);
          t = [];
          t = (if truthy (exc_text r) then (if take 1 (rev t) \<noteq> ''\<newline>'' then t @ ''\<newline>'' else t) @ the (exc_text r) else t);
          t = (if truthy (stack_info r) then (if take 1 (rev t) \<noteq> ''\<newline>'' then t @ ''\<newline>'' else t) @ the (stack_info r) else t)
      in (t, r))"

text \<open>The fields of a line of JSON; \<open>appender\<close> is \<open>None\<close> unless \<open>log_write_appender_name\<close> is set, \<open>ts\<close> the time stamp.\<close>

datatype json_field = FText string | FNone | FDict "(string, string) dict"

definition json_fields :: "string \<Rightarrow> string option \<Rightarrow> (string, string) dict \<Rightarrow> log_record \<Rightarrow> (string, json_field) dict" where
  "json_fields ts appender mdc r =
     (let stack_trace = fst (format_stack_trace r);
          d = [(''ts'', FText ts)];
          d = (case appender of Some a \<Rightarrow> dict_set d ''appender'' (FText a) | None \<Rightarrow> d)
      in if custom_json r \<noteq> [] then fold (\<lambda>(k, v) d. dict_set d k (FText v)) (custom_json r) d
         else let d = dict_set d ''lvl'' (FText (levelname r));
                  d = dict_set d ''logger'' (FText (rec_name r));
                  d = dict_set d ''mdc'' (FDict mdc);
                  d = dict_set d ''msg'' (case rec_msg r of Some m \<Rightarrow> FText m | None \<Rightarrow> FNone)
              in if stack_trace \<noteq> [] then dict_set d ''exception'' (FText stack_trace) else d)"

text \<open>The text formatters put the appender before the line; \<open>base\<close> is the format of the standard library or Tornado.\<close>

definition with_appender :: "bool \<Rightarrow> loggers \<Rightarrow> log_record \<Rightarrow> string \<Rightarrow> string py" where
  "with_appender write_appender lgs r line =
     (if write_appender
      then py_bind (get_logger_filename lgs (get_logger (rec_name r))) (\<lambda>a. Inr (''[\"appender\":\"'' @ a @ ''\"] '' @ line))
      else Inr line)"

definition text_format :: "(log_record \<Rightarrow> string) \<Rightarrow> bool \<Rightarrow> loggers \<Rightarrow> log_record \<Rightarrow> string py" where
  "text_format base write_appender lgs r = with_appender write_appender lgs r (base r)"

definition stderr_format :: "(log_record \<Rightarrow> string) \<Rightarrow> bool \<Rightarrow> loggers \<Rightarrow> log_record \<Rightarrow> string py" where
  "stderr_format base write_appender lgs r =
     (let r = (if truthy (rec_msg r) then r
               else r\<lparr>rec_msg := Some (join_with '', '' (map (\<lambda>(k, v). k @ ''='' @ v) (custom_json r)))\<rparr>)
      in with_appender write_appender lgs r (base r))"

section \<open>Configuration\<close>

record log_options =
  log_dir :: "string option"
  stderr_log :: bool
  syslog :: bool
  syslog_tag :: string
  syslog_reachable :: bool
  syslog_facility_known :: bool

definition set_format :: "bool \<Rightarrow> formatter option \<Rightarrow> formatter \<Rightarrow> handler \<Rightarrow> handler" where
  "set_format use_json custom plain h =
     (case custom of
        Some f \<Rightarrow> h\<lparr>h_formatter := Some f\<rparr>
      | None \<Rightarrow> if use_json then h\<lparr>h_formatter := Some JSON_FORMATTER\<rparr>
                else h\<lparr>h_formatter := Some plain, h_context_filter := True\<rparr>)"

definition new_handler :: "sink \<Rightarrow> handler" where
  "new_handler s = \<lparr>h_sink = s, h_formatter = None, h_context_filter = False, h_level = 0\<rparr>"

definition configure_file :: "log_options \<Rightarrow> loggers \<Rightarrow> string \<Rightarrow> bool \<Rightarrow> formatter option \<Rightarrow> handler list py" where
  "configure_file opts lgs name use_json custom =
     (case log_dir opts of
        None \<Rightarrow> Inl AssertionError
      | Some dir \<Rightarrow> py_bind (get_logger_filename lgs name) (\<lambda>filename.
          Inr [set_format use_json custom Text_Formatter (new_handler (FileSink (dir @ ''/'' @ filename)))]))"

definition configure_stderr :: "bool \<Rightarrow> formatter option \<Rightarrow> handler list" where
  "configure_stderr use_json custom = [set_format use_json custom Stderr_Formatter (new_handler StderrSink)]"

definition configure_syslog :: "log_options \<Rightarrow> loggers \<Rightarrow> string \<Rightarrow> bool \<Rightarrow> formatter option \<Rightarrow> handler list py" where
  "configure_syslog opts lgs name use_json custom =
     py_bind (get_logger_filename lgs name) (\<lambda>filename.
       if \<not> syslog_facility_known opts then Inl KeyError
       else Inr (if syslog_reachable opts
            then [set_format use_json custom Text_Formatter (new_handler (SyslogSink (syslog_tag opts @ ''/'' @ filename @ ''/: '')))]
            else []))"

definition sink_handlers :: "log_options \<Rightarrow> loggers \<Rightarrow> string \<Rightarrow> bool \<Rightarrow> formatter option \<Rightarrow> handler list py" where
  "sink_handlers opts lgs name use_json custom =
     py_bind (if truthy (log_dir opts) then configure_file opts lgs name use_json custom else Inr []) (\<lambda>files.
     py_bind (if syslog opts then configure_syslog opts lgs name use_json custom else Inr []) (\<lambda>sys.
       Inr (files @ (if stderr_log opts then configure_stderr use_json custom else []) @ sys)))"

text \<open>\<open>logger_name\<close> gives the file name; the logger itself is \<open>name\<close>.\<close>

definition bootstrap_logger :: "log_options \<Rightarrow> string \<Rightarrow> string \<Rightarrow> nat \<Rightarrow> bool \<Rightarrow> formatter option \<Rightarrow> loggers \<Rightarrow> loggers py" where
  "bootstrap_logger opts name logger_name level use_json custom lgs =
     (let lgs = lgs(name := (lgs name)\<lparr>lg_appender := Some (logger_name @ (if use_json then ''.slog'' else ''.log''))\<rparr>)
      in py_bind (sink_handlers opts lgs name use_json custom) (\<lambda>hs.
           Inr (lgs(name := (lgs name)
             \<lparr>lg_handlers := lg_handlers (lgs name) @ map (\<lambda>h. h\<lparr>h_level := level\<rparr>) hs @ [new_handler DebugSink], lg_propagate := False\<rparr>))))"

definition level_of_name :: "string \<Rightarrow> nat option" where
  "level_of_name s = map_of [(''CRITICAL'', 50), (''FATAL'', 50), (''ERROR'', 40), (''WARNING'', 30), (''WARN'', 30), (''INFO'', 20), (''DEBUG'', 10), (''NOTSET'', 0)] s"

definition set_level :: "string \<Rightarrow> nat \<Rightarrow> loggers \<Rightarrow> loggers" where
  "set_level name l lgs = lgs(name := (lgs name)\<lparr>lg_level := l\<rparr>)"

definition bootstrap_core_logging :: "log_options \<Rightarrow> string \<Rightarrow> bool \<Rightarrow> string list \<Rightarrow> loggers \<Rightarrow> loggers py" where
  "bootstrap_core_logging opts log_level use_json suppressed lgs =
     (case level_of_name (upper log_level) of
        None \<Rightarrow> Inl (PyException ''AttributeError'')
      | Some level \<Rightarrow>
          let lgs = set_level ROOT_LOGGER 0 lgs
          in py_bind (bootstrap_logger opts ROOT_LOGGER ''service'' level use_json None lgs) (\<lambda>lgs.
             py_bind (bootstrap_logger opts ''server'' ''server'' level use_json None lgs) (\<lambda>lgs.
             py_bind (if use_json then bootstrap_logger opts ''requests'' ''requests'' level True None lgs else Inr lgs) (\<lambda>lgs.
               Inr (fold (\<lambda>n. set_level (get_logger n) 30) suppressed lgs)))))"

section \<open>Log levels at run time\<close>

definition LOG_LEVEL_MAPPING :: "(string, nat) dict" where
  "LOG_LEVEL_MAPPING = [(''TRACE'', 10), (''DEBUG'', 10), (''INFO'', 20), (''WARN'', 30), (''ERROR'', 40)]"

text \<open>The answer of the server of overrides: pairs of logger and level; \<open>None\<close> when there is no body.\<close>

definition parse_result_to_log_level_overrides_dto :: "(string \<times> string) list option \<Rightarrow> (string \<times> nat) list" where
  "parse_result_to_log_level_overrides_dto data =
     (case data of
        None \<Rightarrow> []
      | Some overrides \<Rightarrow> map (\<lambda>(n, l). (n, case dict_get LOG_LEVEL_MAPPING l of Some v \<Rightarrow> v | None \<Rightarrow> 20)) overrides)"

definition load_log_level_overrides :: "int option \<Rightarrow> (string \<times> string) list option \<Rightarrow> (string \<times> nat) list py" where
  "load_log_level_overrides failed_status data =
     (case failed_status of
        Some code \<Rightarrow> Inl (HTTPException code)
      | None \<Rightarrow> Inr (parse_result_to_log_level_overrides_dto data))"

type_synonym level_store = "(string, nat) dict"

definition reset_log_level :: "string \<Rightarrow> string \<Rightarrow> loggers \<Rightarrow> loggers py" where
  "reset_log_level base_level logger_name lgs =
     (case level_of_name (upper base_level) of
        None \<Rightarrow> Inl ValueError
      | Some l \<Rightarrow>
          let n = get_logger logger_name
          in Inr (lgs(n := (lgs n)\<lparr>lg_level := l, lg_handlers := map (\<lambda>h. h\<lparr>h_level := l\<rparr>) (lg_handlers (lgs n))\<rparr>)))"

fun rollback_names :: "string \<Rightarrow> string list \<Rightarrow> level_store \<times> loggers \<Rightarrow> (level_store \<times> loggers) py" where
  "rollback_names base_level [] s = Inr s"
| "rollback_names base_level (n # ns) (store, lgs) =
     py_bind (reset_log_level base_level n lgs) (\<lambda>lgs'. rollback_names base_level ns (dict_del store n, lgs'))"

definition rollback_overrides :: "string \<Rightarrow> (string \<times> nat) list \<Rightarrow> level_store \<times> loggers \<Rightarrow> (level_store \<times> loggers) py" where
  "rollback_overrides base_level overrides s =
     rollback_names base_level (filter (\<lambda>n. n \<notin> fst ` set overrides) (dict_keys (fst s))) s"

definition apply_override :: "string \<times> nat \<Rightarrow> level_store \<times> loggers \<Rightarrow> level_store \<times> loggers" where
  "apply_override ov s =
     (case (ov, s) of ((name, level), (store, lgs)) \<Rightarrow>
        if dict_get store name = Some level then s
        else let n = get_logger name;
                 lg = (lgs n)\<lparr>lg_level := level\<rparr>;
                 lg = (if lg_handlers lg \<noteq> [] then lg\<lparr>lg_handlers := map (\<lambda>h. h\<lparr>h_level := level\<rparr>) (lg_handlers lg)\<rparr>
                       else lg\<lparr>lg_handlers := map (\<lambda>h. h\<lparr>h_level := level\<rparr>) (lg_handlers ((lgs(n := lg)) ROOT_LOGGER))\<rparr>)
             in (dict_set store n (lg_level lg), lgs(n := lg)))"

definition update_log_level :: "string \<Rightarrow> (string \<times> nat) list py \<Rightarrow> level_store \<times> loggers \<Rightarrow> (level_store \<times> loggers) py" where
  "update_log_level base_level loaded s =
     py_bind loaded (\<lambda>overrides.
     py_bind (rollback_overrides base_level overrides s) (\<lambda>s. Inr (fold apply_override overrides s)))"

section \<open>Metrics of the garbage collector\<close>

record gc_stats =
  gc_start :: rat
  duration :: rat
  gc_count :: nat
  max_stw :: rat

definition new_gc_stats :: gc_stats where
  "new_gc_stats = \<lparr>gc_start = 0, duration = 0, gc_count = 0, max_stw = 0\<rparr>"

definition on_gc_start :: "rat \<Rightarrow> gc_stats \<Rightarrow> gc_stats" where
  "on_gc_start now s = s\<lparr>gc_start := now\<rparr>"

definition on_gc_stop :: "rat \<Rightarrow> gc_stats \<Rightarrow> gc_stats" where
  "on_gc_stop now s =
     (let d = now - gc_start s
      in s\<lparr>duration := duration s + d, gc_count := gc_count s + 1, max_stw := max (max_stw s) d\<rparr>)"

definition clear_gc_stats :: "gc_stats \<Rightarrow> gc_stats" where
  "clear_gc_stats s = s\<lparr>duration := 0, gc_count := 0, max_stw := 0\<rparr>"

datatype gc_phase = GcStart | GcStop

text \<open>The record of a debug message.\<close>

definition debug_record :: "string \<Rightarrow> log_record" where
  "debug_record msg = \<lparr>rec_name = [], levelno = 10, levelname = ''DEBUG'', rec_msg = Some msg, custom_json = [],
     exc_info = None, exc_text = None, stack_info = None\<rparr>"

text \<open>\<open>long_gc_log\<close> tells whether the logger \<open>gc_stat\<close> was set up; the result is the lines written in the context
  that the collection interrupts.\<close>

definition gc_metrics_collector ::
  "loggers \<Rightarrow> string option \<Rightarrow> bool \<Rightarrow> bool \<Rightarrow> rat \<Rightarrow> gc_phase \<Rightarrow> rat \<Rightarrow> gc_stats \<Rightarrow> line list \<times> gc_stats" where
  "gc_metrics_collector lgs hn debug_buffer long_gc_log threshold phase now s =
     (case phase of
        GcStart \<Rightarrow> ([], on_gc_start now s)
      | GcStop \<Rightarrow>
          let s = on_gc_stop now s
          in (if long_gc_log \<and> duration s > threshold
              then log_call lgs hn debug_buffer ''gc_stat'' (debug_record (''GC took '' @ str_of_int \<lfloor>duration s * 1000\<rfloor> @ '' ms'')) else [], s))"

datatype metric = Time string int | Counter string int

definition send_metrics :: "gc_stats \<Rightarrow> metric list \<times> gc_stats" where
  "send_metrics s =
     (if gc_count s = 0 then ([Time ''gc.duration'' 0, Counter ''gc.count'' 0, Time ''gc.max_duration'' 0], s)
      else ([Time ''gc.duration'' \<lfloor>duration s * 1000\<rfloor>, Counter ''gc.count'' (int (gc_count s)), Time ''gc.max_duration'' \<lfloor>max_stw s * 1000\<rfloor>],
            clear_gc_stats s))"

text \<open>\<open>GCMetricsCollectorIntegration.initialize_app\<close>: the logger, and whether the callback and the timer are installed.\<close>

definition gc_initialize_app :: "log_options \<Rightarrow> bool \<Rightarrow> int option \<Rightarrow> loggers \<Rightarrow> (bool \<times> bool \<times> loggers) py" where
  "gc_initialize_app opts long_gc_log_enabled interval lgs =
     py_bind (if long_gc_log_enabled then bootstrap_logger opts ''gc_stat'' ''gc_stat'' 30 True None lgs else Inr lgs) (\<lambda>lgs.
       Inr (long_gc_log_enabled, case interval of None \<Rightarrow> False | Some i \<Rightarrow> i > 0, lgs))"

section \<open>Lemmas\<close>

lemma ancestors_last: "ancestors name = butlast (ancestors name) @ [ROOT_LOGGER]"
  by (simp add: ancestors_def)

lemma reached_fresh:
  "\<forall>n \<in> set ns. lg_handlers (lgs n) = [] \<and> lg_propagate (lgs n) \<Longrightarrow> reached lgs (ns @ ms) = reached lgs ms"
  by (induction ns) auto

lemma reached_root:
  assumes "\<forall>n \<in> set (butlast (ancestors name)). lg_handlers (lgs n) = [] \<and> lg_propagate (lgs n)"
  shows "reached lgs (ancestors name) = lg_handlers (lgs ROOT_LOGGER)"
  using reached_fresh [OF assms, of "[ROOT_LOGGER]"] by (subst ancestors_last) simp

lemma prefixes_hd: "ws \<noteq> [] \<Longrightarrow> hd (prefixes ws) = ws \<and> prefixes ws \<noteq> []"
proof (induction ws)
  case (Cons w ws)
  then show ?case by (cases "ws = []") (simp_all add: hd_append hd_map)
qed simp

lemma ancestors_hd: "\<exists>ns. ancestors name = name # ns"
proof (cases "name = ROOT_LOGGER")
  case False
  from prefixes_hd [of "split_on CHR ''.'' name"] have
    "\<exists>ps. prefixes (split_on CHR ''.'' name) = split_on CHR ''.'' name # ps" by (metis list.collapse split_on_not_Nil)
  with False show ?thesis by (auto simp: ancestors_def join_split_on)
qed (simp add: ancestors_def)

text \<open>The sinks that a level admits.\<close>

definition admitted :: "nat \<Rightarrow> bool \<Rightarrow> handler list \<Rightarrow> sink list" where
  "admitted l debug_buffer hs =
     map h_sink (filter (\<lambda>h. h_level h \<le> l \<and> (h_sink h = DebugSink \<longrightarrow> debug_buffer)) hs)"

lemma handle_one_keeps_level: "levelno (snd (handle_one hn dbg h r)) = levelno r"
  by (auto simp: handle_one_def context_filter_def Let_def split: sink.split)

lemma call_handlers_sinks: "map fst (call_handlers hn dbg hs r) = admitted (levelno r) dbg hs"
proof (induction hs arbitrary: r)
  case (Cons h hs)
  obtain ls r' where h: "handle_one hn dbg h r = (ls, r')" by fastforce
  then have "levelno r' = levelno r" using handle_one_keeps_level [of hn dbg h r] by simp
  moreover have "map fst ls = admitted (levelno r) dbg [h]"
    using h by (auto simp: handle_one_def admitted_def Let_def split: if_splits sink.splits)
  ultimately show ?case using Cons.IH h by (auto simp: admitted_def)
qed (simp add: admitted_def)

lemma effective_level_fresh:
  assumes "\<forall>n \<in> set (ancestors name). lg_level (lgs n) = 0"
  shows "effective_level lgs name = 0"
proof -
  have "find (\<lambda>n. lg_level (lgs n) \<noteq> 0) (ancestors name) = None"
    using assms by (auto simp: find_None_iff)
  then show ?thesis by (simp add: effective_level_def)
qed

text \<open>What \<open>bootstrap_logger\<close> leaves behind: the handlers of the enabled sinks with the level, the debug handler, and no propagation.\<close>

definition enabled_sinks :: "log_options \<Rightarrow> string \<Rightarrow> sink list" where
  "enabled_sinks opts filename =
     (if truthy (log_dir opts) then [FileSink (the (log_dir opts) @ ''/'' @ filename)] else []) @
     (if stderr_log opts then [StderrSink] else []) @
     (if syslog opts \<and> syslog_reachable opts then [SyslogSink (syslog_tag opts @ ''/'' @ filename @ ''/: '')] else [])"

definition sink_handler :: "bool \<Rightarrow> nat \<Rightarrow> sink \<Rightarrow> handler" where
  "sink_handler use_json level s =
     \<lparr>h_sink = s, h_formatter = Some (if use_json then JSON_FORMATTER else if s = StderrSink then Stderr_Formatter else Text_Formatter),
      h_context_filter = \<not> use_json, h_level = level\<rparr>"

lemma bootstrap_logger_result:
  assumes "bootstrap_logger opts name logger_name level use_json None lgs = Inr lgs'" and "lg_handlers (lgs name) = []"
  defines "filename \<equiv> logger_name @ (if use_json then ''.slog'' else ''.log'')"
  shows "lg_handlers (lgs' name) = map (sink_handler use_json level) (enabled_sinks opts filename) @ [new_handler DebugSink]"
    and "\<not> lg_propagate (lgs' name)" and "lg_level (lgs' name) = lg_level (lgs name)" and "lg_appender (lgs' name) = Some filename"
    and "n \<noteq> name \<Longrightarrow> lgs' n = lgs n"
proof -
  let ?lgs = "lgs(name := (lgs name)\<lparr>lg_appender := Some filename\<rparr>)"
  from assms(1,2) obtain hs where hs: "sink_handlers opts ?lgs name use_json None = Inr hs"
    and res: "lgs' = ?lgs(name := (?lgs name)\<lparr>lg_handlers := map (\<lambda>h. h\<lparr>h_level := level\<rparr>) hs @ [new_handler DebugSink], lg_propagate := False\<rparr>)"
    by (auto simp: bootstrap_logger_def Let_def py_bind_Inr_conv filename_def)
  have name: "get_logger_filename ?lgs name = Inr f \<Longrightarrow> f = filename" for f
    by (auto simp: get_logger_filename_def split: option.splits if_splits)
  have "map (\<lambda>h. h\<lparr>h_level := level\<rparr>) hs = map (sink_handler use_json level) (enabled_sinks opts filename)"
    using hs name by (auto simp: sink_handlers_def py_bind_Inr_conv configure_file_def configure_syslog_def configure_stderr_def
        set_format_def new_handler_def sink_handler_def enabled_sinks_def split: if_splits option.splits)
  then show "lg_handlers (lgs' name) = map (sink_handler use_json level) (enabled_sinks opts filename) @ [new_handler DebugSink]"
    by (simp add: res)
  show "\<not> lg_propagate (lgs' name)" "lg_level (lgs' name) = lg_level (lgs name)" "lg_appender (lgs' name) = Some filename"
    "n \<noteq> name \<Longrightarrow> lgs' n = lgs n"
    by (simp_all add: res)
qed

lemma admitted_sinks:
  "admitted l dbg (map (sink_handler use_json level) (enabled_sinks opts f) @ [new_handler DebugSink]) =
     (if level \<le> l then enabled_sinks opts f else []) @ (if dbg then [DebugSink] else [])"
  by (auto simp: admitted_def enabled_sinks_def sink_handler_def new_handler_def)

definition core_ok :: "log_options \<Rightarrow> bool \<Rightarrow> nat \<Rightarrow> loggers \<Rightarrow> bool" where
  "core_ok opts use_json level lgs \<longleftrightarrow>
     lg_handlers (lgs ROOT_LOGGER) = map (sink_handler use_json level)
       (enabled_sinks opts (if use_json then ''service.slog'' else ''service.log'')) @ [new_handler DebugSink] \<and>
     lg_level (lgs ROOT_LOGGER) = 0 \<and> (\<forall>n. n \<notin> {ROOT_LOGGER, ''server'', ''requests''} \<longrightarrow> lgs n = fresh_logger)"

lemma bootstrap_core_ok:
  assumes "bootstrap_core_logging opts log_level use_json [] (\<lambda>_. fresh_logger) = Inr lgs"
  shows "\<exists>level. level_of_name (upper log_level) = Some level \<and> core_ok opts use_json level lgs"
proof -
  let ?l0 = "set_level ROOT_LOGGER 0 (\<lambda>_. fresh_logger)"
  from assms obtain level l1 l2 where level: "level_of_name (upper log_level) = Some level"
    and l1: "bootstrap_logger opts ROOT_LOGGER ''service'' level use_json None ?l0 = Inr l1"
    and l2: "bootstrap_logger opts ''server'' ''server'' level use_json None l1 = Inr l2"
    and l3: "(if use_json then bootstrap_logger opts ''requests'' ''requests'' level True None l2 else Inr l2) = Inr lgs"
    by (auto simp: bootstrap_core_logging_def Let_def py_bind_Inr_conv split: option.splits)
  have r: "ROOT_LOGGER \<noteq> ''server''" "ROOT_LOGGER \<noteq> ''requests''" by (simp_all add: ROOT_LOGGER_def)
  have fresh0: "lg_handlers (?l0 ROOT_LOGGER) = []" "?l0 = (\<lambda>_. fresh_logger)"
    by (auto simp: set_level_def fresh_logger_def)
  note b1 = bootstrap_logger_result [OF l1 fresh0(1)]
  have "lg_handlers (l1 ''server'') = []" using b1(5) [of "''server''"] r by (simp add: set_level_def fresh_logger_def)
  note b2 = bootstrap_logger_result [OF l2 this]
  have "lg_handlers (l2 ''requests'') = []" using b1(5) [of "''requests''"] b2(5) [of "''requests''"] r
    by (simp add: set_level_def fresh_logger_def)
  then have l3': "n \<noteq> ''requests'' \<Longrightarrow> lgs n = l2 n" for n
    using l3 bootstrap_logger_result(5) [of opts "''requests''" "''requests''" level True l2 lgs n] by (auto split: if_splits)
  have root_same: "lgs ROOT_LOGGER = l1 ROOT_LOGGER" using l3' [OF r(2)] b2(5) [OF r(1)] by simp
  have "lgs n = fresh_logger" if "n \<notin> {ROOT_LOGGER, ''server'', ''requests''}" for n
    using that l3' [of n] b2(5) [of n] b1(5) [of n] by (simp add: fresh0(2))
  with level root_same b1(1,3) show ?thesis by (auto simp: core_ok_def set_level_def fresh_logger_def)
qed

text \<open>Names whose loggers the bootstrap leaves alone.\<close>

definition ordinary :: "string \<Rightarrow> bool" where
  "ordinary name \<longleftrightarrow> name \<notin> {[], ROOT_LOGGER} \<and> (\<forall>n \<in> set (butlast (ancestors name)). n \<notin> {ROOT_LOGGER, ''server'', ''requests''})"

lemma ordinary_reached:
  assumes "core_ok opts use_json level lgs" and "ordinary name"
  shows "reached lgs (ancestors name) = lg_handlers (lgs ROOT_LOGGER)" and "effective_level lgs name = 0"
proof -
  have fresh: "lgs n = fresh_logger" if "n \<in> set (butlast (ancestors name))" for n
    using that assms by (auto simp: ordinary_def core_ok_def)
  then show "reached lgs (ancestors name) = lg_handlers (lgs ROOT_LOGGER)"
    by (intro reached_root) (simp add: fresh_logger_def)
  have "\<forall>n \<in> set (ancestors name). lg_level (lgs n) = 0"
    using fresh assms(1) by (subst ancestors_last) (auto simp: fresh_logger_def core_ok_def)
  then show "effective_level lgs name = 0" by (rule effective_level_fresh)
qed

text \<open>Every ancestor has a shorter name, so a logger is not its own ancestor.\<close>

lemma prefixes_shorter:
  "ws \<noteq> [] \<Longrightarrow> \<exists>ps. prefixes ws = ws # ps \<and> (\<forall>p \<in> set ps. p \<noteq> [] \<and> length (join_with ''.'' p) < length (join_with ''.'' ws))"
proof (induction ws)
  case (Cons w ws)
  show ?case
  proof (cases "ws = []")
    case False
    with Cons.IH obtain ps where "prefixes ws = ws # ps" "\<forall>p \<in> set ps. p \<noteq> [] \<and> length (join_with ''.'' p) < length (join_with ''.'' ws)"
      by blast
    with False show ?thesis by (auto simp: join_with_Cons)
  qed simp
qed simp

lemma ancestors_Cons:
  assumes "name \<noteq> ROOT_LOGGER"
  shows "\<exists>ns. ancestors name = name # ns @ [ROOT_LOGGER] \<and> name \<notin> set ns"
proof -
  obtain ps where "prefixes (split_on CHR ''.'' name) = split_on CHR ''.'' name # ps"
    "\<forall>p \<in> set ps. p \<noteq> [] \<and> length (join_with ''.'' p) < length (join_with ''.'' (split_on CHR ''.'' name))"
    using prefixes_shorter [OF split_on_not_Nil] by blast
  with assms show ?thesis by (auto simp: ancestors_def join_split_on)
qed

text \<open>The store of the overrides and the levels agree.\<close>

definition store_ok :: "level_store \<Rightarrow> loggers \<Rightarrow> bool" where
  "store_ok st lgs \<longleftrightarrow> (\<forall>n l. dict_get st n = Some l \<longrightarrow> lg_level (lgs n) = l \<and> n \<noteq> [])"

lemma rollback_names_result:
  assumes "rollback_names base ns (st, lgs) = Inr (st', lgs')" and "[] \<notin> set ns" and "level_of_name (upper base) = Some b"
  shows "dict_get st' n = (if n \<in> set ns then None else dict_get st n) \<and>
    lg_level (lgs' n) = (if n \<in> set ns then b else lg_level (lgs n))"
  using assms
proof (induction ns arbitrary: st lgs)
  case (Cons x ns)
  let ?lgs = "lgs(x := (lgs x)\<lparr>lg_level := b, lg_handlers := map (\<lambda>h. h\<lparr>h_level := b\<rparr>) (lg_handlers (lgs x))\<rparr>)"
  have "get_logger x = x" using Cons.prems(2) by (auto simp: get_logger_def)
  with Cons.prems(1,3) have "rollback_names base ns (dict_del st x, ?lgs) = Inr (st', lgs')"
    by (simp add: reset_log_level_def Let_def)
  from Cons.IH [OF this] Cons.prems(2,3) show ?case by auto
qed simp

lemma rollback_names_succeeds:
  "level_of_name (upper base) = Some b \<Longrightarrow> \<exists>s'. rollback_names base ns s = Inr s'"
  by (induction base ns s rule: rollback_names.induct) (simp_all add: reset_log_level_def Let_def)

lemma apply_override_result:
  assumes "apply_override (n, l) (st, lgs) = (st', lgs')" and "n \<noteq> []" and "store_ok st lgs"
  shows "dict_get st' k = (if k = n then Some l else dict_get st k) \<and> lg_level (lgs' k) = (if k = n then l else lg_level (lgs k))"
  using assms by (auto simp: apply_override_def get_logger_def Let_def store_ok_def split: if_splits)

lemma apply_overrides_result:
  assumes "fold apply_override ovs (st, lgs) = (st', lgs')" and "[] \<notin> fst ` set ovs" and "store_ok st lgs" and "distinct (map fst ovs)"
  shows "dict_get st' k = (case map_of ovs k of Some l \<Rightarrow> Some l | None \<Rightarrow> dict_get st k) \<and>
    lg_level (lgs' k) = (case map_of ovs k of Some l \<Rightarrow> l | None \<Rightarrow> lg_level (lgs k))"
  using assms
proof (induction ovs arbitrary: st lgs)
  case (Cons ov ovs)
  obtain n l where ov: "ov = (n, l)" by fastforce
  obtain st1 lgs1 where s1: "apply_override (n, l) (st, lgs) = (st1, lgs1)" by fastforce
  have n: "n \<noteq> []" "n \<notin> fst ` set ovs" using Cons.prems(2,4) ov by auto
  note r = apply_override_result [OF s1 n(1) Cons.prems(3)]
  have ok: "store_ok st1 lgs1" using r n(1) Cons.prems(3) by (auto simp: store_ok_def)
  have "fold apply_override ovs (st1, lgs1) = (st', lgs')" "[] \<notin> fst ` set ovs" "distinct (map fst ovs)"
    using Cons.prems s1 ov by simp_all
  note IH = Cons.IH [OF this(1,2) ok this(3)]
  have "map_of ovs n = None" using n(2) by (simp add: map_of_eq_None_iff)
  with IH r [of k] show ?case by (cases "k = n") (simp_all add: ov split: option.splits)
qed simp

text \<open>A sample: a log directory and standard error, level info.\<close>

definition sample_log_options :: log_options where
  "sample_log_options = \<lparr>log_dir = Some ''/var/log'', stderr_log = True, syslog = False, syslog_tag = [], syslog_reachable = False, syslog_facility_known = True\<rparr>"

definition sample_record :: log_record where
  "sample_record = \<lparr>rec_name = [], levelno = 20, levelname = ''INFO'', rec_msg = Some ''hello'', custom_json = [],
     exc_info = None, exc_text = None, stack_info = None\<rparr>"

lemma sample_bootstrap_logger:
  assumes "n = ROOT_LOGGER \<or> lg_appender (lgs ROOT_LOGGER) \<noteq> None"
  shows "\<exists>lgs'. bootstrap_logger sample_log_options n f l j None lgs = Inr lgs' \<and> lg_appender (lgs' ROOT_LOGGER) \<noteq> None"
proof -
  let ?lgs = "lgs(n := (lgs n)\<lparr>lg_appender := Some (f @ (if j then ''.slog'' else ''.log''))\<rparr>)"
  have app: "lg_appender (?lgs ROOT_LOGGER) \<noteq> None" using assms by auto
  then obtain hs where "sink_handlers sample_log_options ?lgs n j None = Inr hs"
    by (cases "lg_appender (?lgs ROOT_LOGGER)")
      (simp_all add: sink_handlers_def sample_log_options_def configure_file_def get_logger_filename_def)
  with app show ?thesis by (auto simp: bootstrap_logger_def Let_def)
qed

lemma sample_bootstrap: "\<exists>lgs. bootstrap_core_logging sample_log_options ''info'' use_json [] (\<lambda>_. fresh_logger) = Inr lgs"
proof -
  let ?l0 = "set_level ROOT_LOGGER 0 (\<lambda>_. fresh_logger)"
  obtain l1 where l1: "bootstrap_logger sample_log_options ROOT_LOGGER ''service'' 20 use_json None ?l0 = Inr l1" "lg_appender (l1 ROOT_LOGGER) \<noteq> None"
    using sample_bootstrap_logger [of ROOT_LOGGER ?l0] by blast
  obtain l2 where l2: "bootstrap_logger sample_log_options ''server'' ''server'' 20 use_json None l1 = Inr l2" "lg_appender (l2 ROOT_LOGGER) \<noteq> None"
    using sample_bootstrap_logger [of "''server''" l1] l1(2) by blast
  obtain l3 where l3: "bootstrap_logger sample_log_options ''requests'' ''requests'' 20 True None l2 = Inr l3"
    using sample_bootstrap_logger [of "''requests''" l2] l2(2) by blast
  have "level_of_name (upper ''info'') = Some 20" by code_simp
  with l1(1) l2(1) l3 show ?thesis by (simp add: bootstrap_core_logging_def Let_def)
qed

lemma sample_ordinary: "ordinary ''app.pages''" "level_of_name (upper ''info'') = Some 20"
  by code_simp+

section \<open>Properties\<close>



text \<open>
  In text mode the name of the handler is added once per sink: the filter changes the record that all
  handlers share, so the second sink writes it twice.
\<close>

theorem context_name_repeated:
  assumes "bootstrap_core_logging opts log_level False [] (\<lambda>_. fresh_logger) = Inr lgs" and "ordinary name"
    and "log_dir opts = Some dir" and "dir \<noteq> []" and "stderr_log opts" and "hn \<noteq> []"
    and "level_of_name (upper log_level) = Some level" and "level \<le> levelno r"
  shows "map (\<lambda>(s, r, f). rec_name r) (take 2 (log_call lgs (Some hn) debug_buffer name r)) =
    [name @ ''.'' @ hn, name @ ''.'' @ hn @ ''.'' @ hn]"
proof -
  from bootstrap_core_ok [OF assms(1)] assms(7) have core: "core_ok opts False level lgs" by auto
  obtain ss where "enabled_sinks opts ''service.log'' = FileSink (dir @ ''/'' @ ''service.log'') # StderrSink # ss"
    using assms(3-5) by (simp add: enabled_sinks_def)
  with core obtain hs where "lg_handlers (lgs ROOT_LOGGER) =
      sink_handler False level (FileSink (dir @ ''/'' @ ''service.log'')) # sink_handler False level StderrSink # hs"
    by (auto simp: core_ok_def)
  with assms(2,6,8) show ?thesis
    by (simp add: log_call_def ordinary_reached [OF core assms(2)] handle_one_def sink_handler_def context_filter_def Let_def ordinary_def)
qed

theorem context_name_repeated_witness:
  "\<exists>lgs. bootstrap_core_logging sample_log_options ''info'' False [] (\<lambda>_. fresh_logger) = Inr lgs \<and>
     map (\<lambda>(s, r, f). rec_name r) (take 2 (log_call lgs (Some ''page'') False ''app.pages'' sample_record)) =
       [''app.pages.page'', ''app.pages.page.page'']"
proof -
  from sample_bootstrap [of False] obtain lgs where b: "bootstrap_core_logging sample_log_options ''info'' False [] (\<lambda>_. fresh_logger) = Inr lgs" ..
  from context_name_repeated [OF b sample_ordinary(1), where hn = "''page''" and level = 20 and r = sample_record and dir = "''/var/log''"] b show ?thesis
    by (simp add: sample_ordinary(2) sample_record_def sample_log_options_def)
qed

text \<open>
  Overriding the level of a logger without handlers of its own duplicates its records: the handlers of
  the root logger are copied to it, and its records still propagate to the root logger.
\<close>

theorem override_duplicates_lines:
  assumes "bootstrap_core_logging opts log_level use_json [] (\<lambda>_. fresh_logger) = Inr lgs" and "ordinary name"
    and "level_of_name (upper log_level) = Some level" and "new_level \<le> level" and "level \<le> levelno r" and "0 < new_level"
  shows "\<exists>store' lgs'. update_log_level log_level (Inr [(name, new_level)]) ([], lgs) = Inr (store', lgs') \<and>
    map fst (log_call lgs' hn False name r) =
      enabled_sinks opts (if use_json then ''service.slog'' else ''service.log'') @
      enabled_sinks opts (if use_json then ''service.slog'' else ''service.log'')"
proof -
  from bootstrap_core_ok [OF assms(1)] assms(3) have core: "core_ok opts use_json level lgs" by auto
  have nr: "name \<noteq> ROOT_LOGGER" "name \<noteq> []" using assms(2) by (simp_all add: ordinary_def)
  from ancestors_Cons [OF nr(1)] obtain ns where ns: "ancestors name = name # ns @ [ROOT_LOGGER]" "name \<notin> set ns" by blast
  with assms(2) have "name \<notin> {''server'', ''requests''}" by (simp add: ordinary_def)
  with nr core have name_fresh: "lgs name = fresh_logger" by (simp add: core_ok_def)
  define copies where "copies = map (\<lambda>h. h\<lparr>h_level := new_level\<rparr>) (lg_handlers (lgs ROOT_LOGGER))"
  define lgs' where "lgs' = lgs(name := fresh_logger\<lparr>lg_level := new_level, lg_handlers := copies\<rparr>)"
  have upd: "update_log_level log_level (Inr [(name, new_level)]) ([], lgs) = Inr ([(name, new_level)], lgs')"
    using nr by (simp add: update_log_level_def rollback_overrides_def dict_keys_def apply_override_def get_logger_def Let_def
        name_fresh fresh_logger_def lgs'_def copies_def dict_set_def)
  have "\<forall>n \<in> set ns. lg_handlers (lgs' n) = [] \<and> lg_propagate (lgs' n)"
    using assms(2) ns core by (auto simp: ordinary_def core_ok_def fresh_logger_def lgs'_def)
  then have "reached lgs' (ancestors name) = copies @ lg_handlers (lgs ROOT_LOGGER)"
    using reached_fresh [of ns lgs' "[ROOT_LOGGER]"] nr(1) by (simp add: ns lgs'_def fresh_logger_def)
  moreover have "effective_level lgs' name = new_level"
    using assms(6) by (simp add: effective_level_def ns lgs'_def)
  moreover have "admitted (levelno r) False copies = enabled_sinks opts (if use_json then ''service.slog'' else ''service.log'')"
    using core assms(4,5) by (auto simp: core_ok_def copies_def admitted_def sink_handler_def new_handler_def enabled_sinks_def)
  moreover have "admitted (levelno r) False (lg_handlers (lgs ROOT_LOGGER)) = enabled_sinks opts (if use_json then ''service.slog'' else ''service.log'')"
    using core assms(5) admitted_sinks [of "levelno r" False use_json level opts] by (auto simp: core_ok_def)
  moreover have "admitted l dbg (xs @ ys) = admitted l dbg xs @ admitted l dbg ys" for l dbg xs ys by (simp add: admitted_def)
  ultimately have "map fst (log_call lgs' hn False name r) =
      enabled_sinks opts (if use_json then ''service.slog'' else ''service.log'') @
      enabled_sinks opts (if use_json then ''service.slog'' else ''service.log'')"
    using assms(4,5) by (simp add: log_call_def call_handlers_sinks)
  with upd show ?thesis by blast
qed

theorem override_duplicates_lines_witness:
  "\<exists>lgs store' lgs'. bootstrap_core_logging sample_log_options ''info'' True [] (\<lambda>_. fresh_logger) = Inr lgs \<and>
     update_log_level ''info'' (Inr [(''app.pages'', 10)]) ([], lgs) = Inr (store', lgs') \<and>
     map fst (log_call lgs' None False ''app.pages'' sample_record) =
       [FileSink ''/var/log/service.slog'', StderrSink, FileSink ''/var/log/service.slog'', StderrSink]"
proof -
  from sample_bootstrap [of True] obtain lgs where b: "bootstrap_core_logging sample_log_options ''info'' True [] (\<lambda>_. fresh_logger) = Inr lgs" ..
  from override_duplicates_lines [OF b sample_ordinary, where new_level = 10 and r = sample_record and hn = None] b show ?thesis
    by (auto simp: sample_record_def enabled_sinks_def sample_log_options_def)
qed

text \<open>C36. 
  The configurator keeps levels and overrides in step: when the answer was loaded, exactly the loggers in
  it are recorded, each has the level asked for, a logger whose override was withdrawn is back at the
  configured level, and every other logger keeps its level.
\<close>

theorem configurator_in_step:
  assumes "store_ok st lgs" and "level_of_name (upper base) = Some b" and "distinct (map fst overrides)" and "[] \<notin> fst ` set overrides"
  shows "\<exists>st' lgs'. update_log_level base (Inr overrides) (st, lgs) = Inr (st', lgs') \<and> store_ok st' lgs' \<and>
    (\<forall>n. dict_get st' n = map_of overrides n \<and>
      lg_level (lgs' n) = (case map_of overrides n of Some l \<Rightarrow> l | None \<Rightarrow> if dict_get st n \<noteq> None then b else lg_level (lgs n)))"
proof -
  let ?ns = "filter (\<lambda>n. n \<notin> fst ` set overrides) (dict_keys st)"
  from rollback_names_succeeds [OF assms(2), of ?ns "(st, lgs)"] obtain st1 lgs1 where
    rb: "rollback_names base ?ns (st, lgs) = Inr (st1, lgs1)" by auto
  have "[] \<notin> set ?ns" using assms(1) by (cases "dict_get st []") (auto simp: dict_keys_iff store_ok_def)
  note r1 = rollback_names_result [OF rb this assms(2)]
  obtain st' lgs' where f: "fold apply_override overrides (st1, lgs1) = (st', lgs')" by fastforce
  have s1: "store_ok st1 lgs1" using r1 assms(1) by (auto simp: store_ok_def)
  note r2 = apply_overrides_result [OF f assms(4) s1 assms(3)]
  have final: "dict_get st' n = map_of overrides n \<and>
      lg_level (lgs' n) = (case map_of overrides n of Some l \<Rightarrow> l | None \<Rightarrow> if dict_get st n \<noteq> None then b else lg_level (lgs n))" for n
  proof (cases "map_of overrides n")
    case None
    then have "n \<in> set ?ns \<longleftrightarrow> dict_get st n \<noteq> None" by (simp add: map_of_eq_None_iff dict_keys_iff)
    with None r1 [of n] r2 [of n] show ?thesis by (cases "dict_get st n") auto
  next
    case (Some l)
    with r2 [of n] show ?thesis by simp
  qed
  have "n \<noteq> []" if "map_of overrides n = Some l" for n l
    using that assms(4) by (auto dest!: map_of_SomeD simp: image_iff)
  with final have "store_ok st' lgs'" by (auto simp: store_ok_def)
  with final rb f show ?thesis by (auto simp: update_log_level_def rollback_overrides_def)
qed

theorem configurator_in_step_witness:
  "\<exists>st' lgs'. update_log_level ''info'' (Inr [(''b'', 10)]) ([(''a'', 40)], (\<lambda>_. fresh_logger)(''a'' := fresh_logger\<lparr>lg_level := 40\<rparr>)) = Inr (st', lgs') \<and>
     lg_level (lgs' ''a'') = 20 \<and> lg_level (lgs' ''b'') = 10 \<and> dict_get st' ''a'' = None"
proof -
  have "store_ok [(''a'', 40)] ((\<lambda>_. fresh_logger)(''a'' := fresh_logger\<lparr>lg_level := 40\<rparr>))"
    by (auto simp: store_ok_def dict_get_def)
  from configurator_in_step [OF this sample_ordinary(2), of "[(''b'', 10)]"] show ?thesis
    by (force simp: dict_get_def)
qed

text \<open>
  A long collection is never logged: the message has the level of debugging, and the logger it goes to
  is set up for warnings, so no sink but the debug buffer of a request gets it.
\<close>

theorem long_gc_never_logged:
  assumes "gc_initialize_app opts True interval lgs = Inr (long_gc_log, callback, lgs')" and "lg_handlers (lgs ''gc_stat'') = []"
  shows "set (map fst (fst (gc_metrics_collector lgs' hn debug_buffer long_gc_log threshold phase now s))) \<subseteq> {DebugSink}"
proof -
  from assms(1) have "bootstrap_logger opts ''gc_stat'' ''gc_stat'' 30 True None lgs = Inr lgs'"
    by (auto simp: gc_initialize_app_def py_bind_Inr_conv)
  note b = bootstrap_logger_result [OF this assms(2)]
  obtain ns where ns: "ancestors ''gc_stat'' = ''gc_stat'' # ns" using ancestors_hd by blast
  have "reached lgs' (ancestors ''gc_stat'') = lg_handlers (lgs' ''gc_stat'')" using b(2) by (simp add: ns)
  then have "set (map fst (log_call lgs' hn debug_buffer ''gc_stat'' (debug_record msg))) \<subseteq> {DebugSink}" for msg
    using call_handlers_sinks [of hn debug_buffer "reached lgs' (ancestors ''gc_stat'')" "(debug_record msg)\<lparr>rec_name := ''gc_stat''\<rparr>"]
    unfolding log_call_def by (auto simp: b(1) admitted_sinks debug_record_def simp del: set_map map_append split: if_splits)
  then show ?thesis by (simp add: gc_metrics_collector_def Let_def split: gc_phase.split del: set_map)
qed

theorem long_gc_never_logged_witness:
  "\<exists>callback lgs'. gc_initialize_app sample_log_options True (Some 1000) (\<lambda>_. fresh_logger\<lparr>lg_appender := Some ''service.slog''\<rparr>) = Inr (True, callback, lgs') \<and>
     set (map fst (fst (gc_metrics_collector lgs' None True True 0 GcStop 5 new_gc_stats))) \<subseteq> {DebugSink}"
proof -
  obtain callback lgs' where g: "gc_initialize_app sample_log_options True (Some 1000) (\<lambda>_. fresh_logger\<lparr>lg_appender := Some ''service.slog''\<rparr>) = Inr (True, callback, lgs')"
    using sample_bootstrap_logger [of "''gc_stat''" "\<lambda>_. fresh_logger\<lparr>lg_appender := Some ''service.slog''\<rparr>" "''gc_stat''" 30 True]
    by (auto simp: gc_initialize_app_def)
  from long_gc_never_logged [OF g, of None True 0 GcStop 5 new_gc_stats] g show ?thesis by (auto simp: fresh_logger_def)
qed

text \<open>
  The metrics sent add up: of the collections since the last report, the sum of the durations, their
  number and the longest one are sent, rounded down to milliseconds, and the next period starts from zero.
\<close>

theorem gc_metrics_sum_up:
  assumes "cycles \<noteq> []" and "\<forall>(a, b) \<in> set cycles. a \<le> b"
  defines "s \<equiv> fold (\<lambda>(a, b) s. on_gc_stop b (on_gc_start a s)) cycles new_gc_stats"
  shows "fst (send_metrics s) = [Time ''gc.duration'' \<lfloor>sum_list (map (\<lambda>(a, b). b - a) cycles) * 1000\<rfloor>,
      Counter ''gc.count'' (int (length cycles)), Time ''gc.max_duration'' \<lfloor>Max ((\<lambda>(a, b). b - a) ` set cycles) * 1000\<rfloor>] \<and>
    fst (send_metrics (snd (send_metrics s))) = [Time ''gc.duration'' 0, Counter ''gc.count'' 0, Time ''gc.max_duration'' 0]"
proof -
  have acc: "duration (fold (\<lambda>(a, b) s. on_gc_stop b (on_gc_start a s)) cs s0) = duration s0 + sum_list (map (\<lambda>(a, b). b - a) cs)"
    "gc_count (fold (\<lambda>(a, b) s. on_gc_stop b (on_gc_start a s)) cs s0) = gc_count s0 + length cs"
    "max_stw (fold (\<lambda>(a, b) s. on_gc_stop b (on_gc_start a s)) cs s0) = fold max (map (\<lambda>(a, b). b - a) cs) (max_stw s0)" for cs s0
    by (induction cs arbitrary: s0) (auto simp: on_gc_stop_def on_gc_start_def Let_def max.commute)
  let ?d = "map (\<lambda>(a, b). b - a) cycles"
  have "fold max ?d 0 = Max (set (0 # ?d))" by (simp only: Max.set_eq_fold)
  also have "\<dots> = Max (set ?d)"
  proof -
    obtain a b where "(a, b) \<in> set cycles" using assms(1) by (metis list.set_intros(1) neq_Nil_conv surj_pair)
    with assms(2) have "0 \<le> b - a" "b - a \<in> set ?d" by force+
    then have "0 \<le> Max (set ?d)" by (meson List.finite_set Max_ge order_trans)
    then show ?thesis using assms(1) by (simp add: max_def)
  qed
  finally show ?thesis using assms(1) by (simp add: s_def acc new_gc_stats_def send_metrics_def clear_gc_stats_def)
qed

theorem gc_metrics_sum_up_witness:
  "fst (send_metrics (fold (\<lambda>(a, b) s. on_gc_stop b (on_gc_start a s)) [(0, 1), (2, 5)] new_gc_stats)) =
     [Time ''gc.duration'' 4000, Counter ''gc.count'' 2, Time ''gc.max_duration'' 3000]"
  using gc_metrics_sum_up [of "[(0, 1), (2, 5)]"] by simp

end
