(* ===== verification/Debug_Log.thy ===== *)
theory Debug_Log
  imports Debug_Auth Util
begin

text \<open>
  The debug page of \<open>frontik/debug.py\<close>: the XML that describes outgoing requests, their results, log
  records and the response of a page, and the curl command line. Standard functions that only print a
  value are arguments: \<open>py_repr\<close> for \<open>repr\<close>, \<open>fmt4\<close> for four decimals, the pretty printers and the parser of
  cookies. \<open>valid_text\<close> tells which texts lxml accepts.
\<close>

section \<open>XML nodes\<close>

datatype xnode = Node (xtag: string) (xattrs: "(string \<times> string) list") (xtext: string) (xkids: "xnode list")

definition E_text :: "string \<Rightarrow> string \<Rightarrow> xnode" where
  "E_text t s = Node t [] s []"

definition E_kids :: "string \<Rightarrow> xnode list \<Rightarrow> xnode" where
  "E_kids t ks = Node t [] [] ks"

section \<open>Helpers\<close>

text \<open>A body: text, or bytes that could not be decoded (given by their code points).\<close>

datatype body_value = BText string | BBytes string

record print_env =
  py_repr :: "body_value \<Rightarrow> string"
  fmt4 :: "rat \<Rightarrow> string"
  valid_text :: "string \<Rightarrow> bool"
  decode :: "string \<Rightarrow> string \<Rightarrow> string option"
  pretty_xml :: "string \<Rightarrow> string option"
  pretty_json :: "string \<Rightarrow> string option"
  parse_cookies :: "string \<Rightarrow> (string \<times> string) list"

text \<open>\<open>parse_qs(query, keep_blank_values=True)\<close> on ASCII texts: the values of every name, in order.\<close>

definition parse_qs :: "string \<Rightarrow> (string, string list) dict" where
  "parse_qs q = fold (\<lambda>(k, v) d. dict_set d k ((case dict_get d k of Some vs \<Rightarrow> vs | None \<Rightarrow> []) @ [v]))
     (map parse_item (filter (\<lambda>s. s \<noteq> []) (split_on CHR ''&'' q))) []"

text \<open>The query of a URL: after the first question mark and before the fragment; a missing scheme changes nothing.\<close>

definition url_query :: "string \<Rightarrow> string" where
  "url_query url = drop 1 (dropWhile (\<lambda>c. c \<noteq> CHR ''?'') (takeWhile (\<lambda>c. c \<noteq> CHR ''#'') url))"

definition get_query_parameters :: "string \<Rightarrow> (string, string list) dict" where
  "get_query_parameters url = parse_qs (url_query url)"

definition flatten_params :: "(string, string list) dict \<Rightarrow> (string \<times> string) list" where
  "flatten_params d = concat (map (\<lambda>(n, vs). map (Pair n) vs) d)"

definition param_node :: "print_env \<Rightarrow> string \<times> string \<Rightarrow> xnode" where
  "param_node e p =
     (case p of (n, v) \<Rightarrow>
        if valid_text e v \<and> valid_text e n then Node ''param'' [(''name'', n)] v []
        else Node ''param'' [(''name'', py_repr e (BText n))] (py_repr e (BText v)) [])"

definition params_to_xml :: "print_env \<Rightarrow> string \<Rightarrow> xnode" where
  "params_to_xml e url = E_kids ''params'' (map (param_node e) (flatten_params (get_query_parameters url)))"

text \<open>An invalid header raises \<open>ValueError\<close>.\<close>

definition header_node :: "print_env \<Rightarrow> string \<times> string \<Rightarrow> xnode py" where
  "header_node e h =
     (case h of (n, v) \<Rightarrow> if valid_text e n \<and> valid_text e v then Inr (Node ''header'' [(''name'', n)] v []) else Inl ValueError)"

fun collect_nodes :: "('a \<Rightarrow> xnode py) \<Rightarrow> 'a list \<Rightarrow> xnode list py" where
  "collect_nodes f [] = Inr []"
| "collect_nodes f (x # xs) = py_bind (f x) (\<lambda>n. py_bind (collect_nodes f xs) (\<lambda>ns. Inr (n # ns)))"

definition headers_to_xml :: "print_env \<Rightarrow> (string \<times> string) list \<Rightarrow> xnode py" where
  "headers_to_xml e hs =
     py_bind (collect_nodes (header_node e) (filter (\<lambda>(n, v). n \<noteq> ''Cookie'') hs)) (\<lambda>ns. Inr (E_kids ''headers'' ns))"

definition cookie_node :: "print_env \<Rightarrow> string \<times> string \<Rightarrow> xnode py" where
  "cookie_node e c =
     (case c of (n, v) \<Rightarrow> if valid_text e n \<and> valid_text e v then Inr (Node ''cookie'' [(''name'', n)] v []) else Inl ValueError)"

definition cookies_to_xml :: "print_env \<Rightarrow> (string \<times> string) list \<Rightarrow> xnode py" where
  "cookies_to_xml e hs =
     (case map_of hs ''Cookie'' of
        None \<Rightarrow> Inr (E_kids ''cookies'' [])
      | Some c \<Rightarrow> py_bind (collect_nodes (cookie_node e) (parse_cookies e c)) (\<lambda>ns. Inr (E_kids ''cookies'' ns)))"

section \<open>Results of outgoing requests\<close>

record request_result =
  rr_headers :: "(string \<times> string) list"
  raw_body :: "string option"
  rr_status :: int
  rr_error :: string
  elapsed_time :: rat

definition content_charset :: "string \<Rightarrow> string" where
  "content_charset content_type =
     (if contains content_type ''charset'' then snd (snd (partition_at CHR ''='' content_type)) else ''utf-8'')"

text \<open>\<open>decode_string_from_charset\<close> of \<open>util\<close>, over bytes given as code points.\<close>

definition decode_body :: "print_env \<Rightarrow> string list \<Rightarrow> string \<Rightarrow> string option" where
  "decode_body e charsets raw = List.find (\<lambda>_. True) (List.map_filter (\<lambda>c. decode e c raw) charsets)"

text \<open>Mode and body by content type; \<open>None\<close> is the exception that falls back to the raw body, keeping the mode.\<close>

definition body_mode :: "print_env \<Rightarrow> string \<Rightarrow> string \<Rightarrow> string \<times> body_value option" where
  "body_mode e content_type raw =
     (let charsets = [content_charset content_type, ''cp1251'']
      in if raw = [] then ([], Some (BText []))
         else if contains content_type ''text/html'' then (''html'', map_option BText (decode_body e charsets raw))
         else if contains content_type ''protobuf'' then ([], Some (BBytes raw))
         else if contains content_type ''xml'' then (''xml'', map_option BText (pretty_xml e raw))
         else if contains content_type ''json'' then (''javascript'', map_option BText (pretty_json e raw))
         else (if contains content_type ''javascript'' then ''javascript'' else [], map_option BText (decode_body e charsets raw)))"

text \<open>\<open>re.sub\<close> of the two characters backslash and n by a line break, in what \<open>repr\<close> prints without its quotes.\<close>

fun unescape_newlines :: "string \<Rightarrow> string" where
  "unescape_newlines [] = []"
| "unescape_newlines [c] = [c]"
| "unescape_newlines (c # d # s) =
     (if of_char c = (92 :: nat) \<and> d = CHR ''n'' then CHR ''\<newline>'' # unescape_newlines s else c # unescape_newlines (d # s))"

definition escaped_body :: "print_env \<Rightarrow> body_value \<Rightarrow> string" where
  "escaped_body e b = unescape_newlines (butlast (drop 1 (py_repr e b)))"

definition text_node :: "print_env \<Rightarrow> string \<Rightarrow> string \<Rightarrow> xnode py" where
  "text_node e t s = (if valid_text e s then Inr (E_text t s) else Inl ValueError)"

definition response_node :: "print_env \<Rightarrow> request_result \<Rightarrow> string \<Rightarrow> string \<Rightarrow> body_value \<Rightarrow> xnode py" where
  "response_node e r content_type mode b =
     (if \<not> valid_text e (escaped_body e b) \<or> \<not> valid_text e content_type \<or> \<not> valid_text e mode then Inl ValueError
      else py_bind (text_node e ''error'' (rr_error r)) (\<lambda>err.
           py_bind (headers_to_xml e (rr_headers r)) (\<lambda>hs.
           py_bind (cookies_to_xml e (rr_headers r)) (\<lambda>cs.
             Inr (E_kids ''response''
               [Node ''body'' [(''content_type'', content_type), (''mode'', mode)] (escaped_body e b) [],
                E_text ''code'' (str_of_int (rr_status r)), err,
                E_text ''size'' (case raw_body r of Some b \<Rightarrow> str_of_int (int (length b)) | None \<Rightarrow> ''0''),
                E_text ''request_time'' (fmt4 e (elapsed_time r * 1000)), hs, cs, E_kids ''time_info'' []])))))"

definition response_to_xml :: "print_env \<Rightarrow> request_result \<Rightarrow> xnode" where
  "response_to_xml e r =
     (let content_type = (case map_of (rr_headers r) ''Content-Type'' of Some c \<Rightarrow> c | None \<Rightarrow> []);
          raw = (case raw_body r of Some b \<Rightarrow> b | None \<Rightarrow> []);
          (mode, parsed) = body_mode e content_type raw;
          b = (case parsed of Some b \<Rightarrow> b | None \<Rightarrow> BBytes raw)
      in case response_node e r content_type mode b of
           Inr n \<Rightarrow> n
         | Inl _ \<Rightarrow> E_kids ''response'' [E_text ''body'' ''Cannot log response info''])"

section \<open>Outgoing requests\<close>

record out_request =
  or_method :: string
  or_url :: string
  or_headers :: "(string \<times> string) list"
  or_body :: "string option"
  or_start_time :: rat
  or_upstream :: string
  or_host :: string

definition is_ascii :: "string \<Rightarrow> bool" where
  "is_ascii s \<longleftrightarrow> list_all (\<lambda>c. (of_char c :: nat) < 128) s"

definition apos :: char where
  "apos = CHR 0x27"

text \<open>An apostrophe inside single quotes: close them, an apostrophe in double quotes, open them again.\<close>

definition escape_apos :: "string \<Rightarrow> string" where
  "escape_apos s = concat (map (\<lambda>c. if c = apos then [apos, CHR 0x22, apos, CHR 0x22, apos] else [c]) s)"

definition quoted :: "string \<Rightarrow> string" where
  "quoted s = [apos] @ s @ [apos]"

text \<open>The headers in the order of their names; the length is added when there is a body and no such header.\<close>

definition curl_headers :: "out_request \<Rightarrow> (string \<times> string) list" where
  "curl_headers r = sort_key fst
     (if truthy (or_body r) \<and> map_of (or_headers r) ''Content-Length'' = None
      then or_headers r @ [(''Content-Length'', str_of_int (int (length (the (or_body r)))))] else or_headers r)"

definition format_header :: "string \<times> string \<Rightarrow> string" where
  "format_header h = ''-H '' @ quoted (fst h @ '': '' @ escape_apos (snd h))"

definition request_to_curl_string :: "print_env \<Rightarrow> out_request \<Rightarrow> string" where
  "request_to_curl_string e r =
     (let binary = (truthy (or_body r) \<and> \<not> is_ascii (the (or_body r)));
          echo = (if binary then ''echo -e '' @ rstrip_char CHR ''b'' (lstrip_char CHR ''b'' (py_repr e (BBytes (the (or_body r))))) @ '' |'' else []);
          data = (if binary then ''--data-binary @-''
                  else if truthy (or_body r) then ''--data '' @ quoted (escape_apos (the (or_body r))) else [])
      in strip (echo @ '' curl -X '' @ or_method r @ '' '' @ quoted (or_url r) @ '' '' @
           join_with '' '' (map format_header (curl_headers r)) @ '' '' @ data))"

definition body_node :: "print_env \<Rightarrow> out_request \<Rightarrow> xnode" where
  "body_node e r =
     (let content_type = (case map_of (or_headers r) ''Content-Type'' of Some c \<Rightarrow> c | None \<Rightarrow> []);
          attrs = [(''content_type'', content_type)];
          raw = (case or_body r of Some b \<Rightarrow> b | None \<Rightarrow> [])
      in if raw = [] then Node ''body'' attrs [] []
         else if contains content_type ''json'' then
           Node ''body'' attrs (case pretty_json e raw of Some s \<Rightarrow> if valid_text e s then s else py_repr e (BBytes raw) | None \<Rightarrow> py_repr e (BBytes raw)) []
         else if contains content_type ''protobuf'' then Node ''body'' attrs (py_repr e (BBytes raw)) []
         else let ps = flatten_params (parse_qs (py_repr e (BBytes raw)))
              in if list_all (\<lambda>(n, v). valid_text e n \<and> valid_text e v) ps
                 then Node ''body'' attrs [] (map (\<lambda>(n, v). Node ''param'' [(''name'', n)] v []) ps)
                 else Node ''body'' attrs (py_repr e (BBytes raw))
                   (map (\<lambda>(n, v). Node ''param'' [(''name'', n)] v []) (takeWhile (\<lambda>(n, v). valid_text e n \<and> valid_text e v) ps)))"

definition request_to_xml :: "print_env \<Rightarrow> out_request \<Rightarrow> xnode" where
  "request_to_xml e r =
     (let b = body_node e r;
          parts = py_bind (text_node e ''method'' (or_method r)) (\<lambda>me.
            py_bind (text_node e ''url'' (or_url r)) (\<lambda>u.
            py_bind (headers_to_xml e (or_headers r)) (\<lambda>hs.
            py_bind (cookies_to_xml e (or_headers r)) (\<lambda>cs.
            py_bind (text_node e ''curl'' (request_to_curl_string e r)) (\<lambda>cu.
              Inr [b, E_text ''start_time'' (fmt4 e (or_start_time r)), me, u, params_to_xml e (or_url r), hs, cs, cu])))))
      in case parts of
           Inr ks \<Rightarrow> E_kids ''request'' ks
         | Inl _ \<Rightarrow> E_kids ''request'' [Node ''body'' (xattrs b) (case or_body r of Some x \<Rightarrow> py_repr e (BBytes x) | None \<Rightarrow> ''None'') (xkids b)])"

definition balanced_request_to_xml :: "out_request \<Rightarrow> int \<Rightarrow> string \<Rightarrow> xnode" where
  "balanced_request_to_xml r retry datacenter =
     E_kids ''meta-info''
       ((if or_upstream r \<noteq> or_host r
         then [Node ''upstream'' [(''name'', upper (or_upstream r))] [] [],
               Node ''server'' (if datacenter \<noteq> [] then [(''datacenter'', datacenter)] else []) [] []] else []) @
        (if retry > 0 then [Node ''retry'' [(''count'', str_of_int retry)] [] []] else []))"

section \<open>Reading a command line\<close>

text \<open>
  How a POSIX shell splits a simple command into words, the reference for the quoting: quotes are
  removed, adjacent parts join. Characters that mean something else to it, outside single quotes, are refused.
\<close>

datatype quoting = Plain | Single | Double

definition shell_special :: "char \<Rightarrow> bool" where
  "shell_special c \<longleftrightarrow> c \<in> set ''|&;<>()$`*?[]#~=%!{}'' \<or> of_char c = (92 :: nat) \<or> (is_space c \<and> c \<noteq> CHR '' '')"

fun shell_words :: "quoting \<Rightarrow> string option \<Rightarrow> string \<Rightarrow> string list option" where
  "shell_words Plain cur [] = Some (case cur of None \<Rightarrow> [] | Some w \<Rightarrow> [w])"
| "shell_words Single cur [] = None"
| "shell_words Double cur [] = None"
| "shell_words Plain cur (c # s) =
     (if c = CHR '' '' then (case cur of None \<Rightarrow> shell_words Plain None s | Some w \<Rightarrow> map_option ((#) w) (shell_words Plain None s))
      else if c = apos then shell_words Single (Some (case cur of None \<Rightarrow> [] | Some w \<Rightarrow> w)) s
      else if c = CHR 0x22 then shell_words Double (Some (case cur of None \<Rightarrow> [] | Some w \<Rightarrow> w)) s
      else if shell_special c then None
      else shell_words Plain (Some ((case cur of None \<Rightarrow> [] | Some w \<Rightarrow> w) @ [c])) s)"
| "shell_words Single cur (c # s) =
     (if c = apos then shell_words Plain cur s
      else shell_words Single (Some ((case cur of None \<Rightarrow> [] | Some w \<Rightarrow> w) @ [c])) s)"
| "shell_words Double cur (c # s) =
     (if c = CHR 0x22 then shell_words Plain cur s
      else if c \<in> set ''$`'' \<or> of_char c = (92 :: nat) then None
      else shell_words Double (Some ((case cur of None \<Rightarrow> [] | Some w \<Rightarrow> w) @ [c])) s)"

definition plain_word :: "string \<Rightarrow> bool" where
  "plain_word w \<longleftrightarrow> w \<noteq> [] \<and> list_all (\<lambda>c. c \<noteq> CHR '' '' \<and> c \<noteq> apos \<and> c \<noteq> CHR 0x22 \<and> \<not> shell_special c) w"

lemma apos_not:
  "apos \<noteq> CHR '' ''" "apos \<noteq> CHR 0x22" "CHR 0x22 \<noteq> apos" "apos \<noteq> CHR ''$''" "apos \<noteq> CHR 0x60" "of_char apos = (39 :: nat)" "\<not> is_space apos"
  by (simp_all add: apos_def is_space_def)

lemma words_plain:
  "list_all (\<lambda>c. c \<noteq> CHR '' '' \<and> c \<noteq> apos \<and> c \<noteq> CHR 0x22 \<and> \<not> shell_special c) w \<Longrightarrow>
   shell_words Plain (Some v) (w @ s) = shell_words Plain (Some (v @ w)) s"
  by (induction w arbitrary: v) auto

lemma words_plain_word: "plain_word w \<Longrightarrow> shell_words Plain None (w @ s) = shell_words Plain (Some w) s"
  by (cases w) (auto simp: plain_word_def words_plain)

lemma words_single: "apos \<notin> set w \<Longrightarrow> shell_words Single (Some v) (w @ apos # s) = shell_words Plain (Some (v @ w)) s"
  by (induction w arbitrary: v) auto

lemma words_escaped: "shell_words Single (Some v) (escape_apos w @ apos # s) = shell_words Plain (Some (v @ w)) s"
proof (induction w arbitrary: v)
  case (Cons c w)
  then show ?case by (cases "c = apos") (simp_all add: escape_apos_def apos_not)
qed (simp add: escape_apos_def)

lemma escape_free: "apos \<notin> set w \<Longrightarrow> escape_apos w = w"
  by (induction w) (auto simp: escape_apos_def)

lemma escape_append: "escape_apos (v @ w) = escape_apos v @ escape_apos w"
  by (simp add: escape_apos_def)

text \<open>One quoted word, then a space or the end.\<close>

lemma words_quoted:
  "shell_words Plain None (quoted (escape_apos w) @ CHR '' '' # s) = map_option ((#) w) (shell_words Plain None s)"
  "shell_words Plain None (quoted (escape_apos w)) = Some [w]"
  using words_escaped [of "[]" w "CHR '' '' # s"] words_escaped [of "[]" w "[]"] by (simp_all add: quoted_def apos_not)

lemma words_plain_space: "plain_word w \<Longrightarrow> shell_words Plain None (w @ CHR '' '' # s) = map_option ((#) w) (shell_words Plain None s)"
  by (simp add: words_plain_word)

lemma strip_spaces:
  assumes "u \<noteq> []" and "\<not> is_space (hd u)" and "\<not> is_space (last u)"
  shows "strip (CHR '' '' # u @ replicate k CHR '' '') = u"
proof -
  have sp: "is_space CHR '' ''" by (simp add: is_space_def)
  have "dropWhile is_space (CHR '' '' # u @ replicate k CHR '' '') = u @ replicate k CHR '' ''"
    using assms sp by (cases u) simp_all
  moreover have "dropWhile is_space (rev (u @ replicate k CHR '' '')) = rev u"
  proof -
    have "dropWhile is_space (replicate k CHR '' '' @ xs) = dropWhile is_space xs" for xs
      using sp by (induction k) simp_all
    moreover have "dropWhile is_space (rev u) = rev u" using assms(1,3) by (cases u rule: rev_cases) simp_all
    ultimately show ?thesis by simp
  qed
  ultimately show ?thesis by (simp add: strip_def)
qed

text \<open>The words of the headers, before what follows them.\<close>

definition header_words :: "(string \<times> string) list \<Rightarrow> string list" where
  "header_words hs = concat (map (\<lambda>(n, v). [''-H'', n @ '': '' @ v]) hs)"

lemma plain_words: "plain_word ''curl''" "plain_word ''-X''" "plain_word ''-H''" "plain_word ''--data''"
  by (simp_all add: plain_word_def shell_special_def is_space_def apos_def)

lemma words_header:
  assumes "apos \<notin> set n"
  shows "shell_words Plain None (format_header (n, v) @ CHR '' '' # s) = map_option (\<lambda>ws. ''-H'' # (n @ '': '' @ v) # ws) (shell_words Plain None s)"
    and "shell_words Plain None (format_header (n, v)) = Some [''-H'', n @ '': '' @ v]"
proof -
  have q: "n @ '': '' @ escape_apos v = escape_apos (n @ '': '' @ v)"
    using assms by (simp add: escape_append escape_free) (simp add: escape_apos_def apos_def)
  show "shell_words Plain None (format_header (n, v) @ CHR '' '' # s) = map_option (\<lambda>ws. ''-H'' # (n @ '': '' @ v) # ws) (shell_words Plain None s)"
    using words_plain_space [OF plain_words(3), of "quoted (escape_apos (n @ '': '' @ v)) @ CHR '' '' # s"]
    unfolding format_header_def fst_conv snd_conv q by (simp add: words_quoted option.map_comp comp_def)
  show "shell_words Plain None (format_header (n, v)) = Some [''-H'', n @ '': '' @ v]"
    using words_plain_space [OF plain_words(3), of "quoted (escape_apos (n @ '': '' @ v))"]
    unfolding format_header_def fst_conv snd_conv q by (simp add: words_quoted)
qed

lemma words_headers:
  "\<forall>(n, v) \<in> set hs. apos \<notin> set n \<Longrightarrow> shell_words Plain None (join_with '' '' (map format_header hs) @ CHR '' '' # s) =
     map_option ((@) (header_words hs)) (shell_words Plain None s)"
proof (induction hs)
  case Nil
  then show ?case by (simp add: header_words_def option.map_id [unfolded id_def])
next
  case (Cons h hs)
  obtain n v where h: "h = (n, v)" by fastforce
  with Cons.prems have n: "apos \<notin> set n" by simp
  show ?case
  proof (cases "hs = []")
    case True
    with h n show ?thesis by (simp add: words_header(1) header_words_def)
  next
    case False
    with Cons h n words_header(1) [OF n, of v "join_with '' '' (map format_header hs) @ CHR '' '' # s"] show ?thesis
      by (simp add: join_with_Cons header_words_def option.map_comp comp_def)
  qed
qed

lemma words_headers_end:
  "hs \<noteq> [] \<Longrightarrow> \<forall>(n, v) \<in> set hs. apos \<notin> set n \<Longrightarrow>
   shell_words Plain None (join_with '' '' (map format_header hs)) = Some (header_words hs)"
proof (induction hs)
  case (Cons h hs)
  obtain n v where h: "h = (n, v)" by fastforce
  with Cons.prems have n: "apos \<notin> set n" by simp
  show ?case
  proof (cases "hs = []")
    case True
    with h n show ?thesis by (simp add: words_header(2) header_words_def)
  next
    case False
    with Cons h n words_header(1) [OF n, of v "join_with '' '' (map format_header hs)"] show ?thesis
      by (simp add: join_with_Cons header_words_def)
  qed
qed simp

lemma headers_last: "hs \<noteq> [] \<Longrightarrow> join_with '' '' (map format_header hs) \<noteq> [] \<and> last (join_with '' '' (map format_header hs)) = apos"
proof (induction hs)
  case (Cons h hs)
  then show ?case by (cases "hs = []") (auto simp: join_with_Cons format_header_def quoted_def)
qed simp

definition data_words :: "out_request \<Rightarrow> string list" where
  "data_words r = (if truthy (or_body r) then [''--data'', the (or_body r)] else [])"

lemma words_start:
  assumes "plain_word me" and "apos \<notin> set url"
  shows "shell_words Plain None (''curl -X '' @ me @ '' '' @ quoted url @ CHR '' '' # s) =
      map_option (\<lambda>ws. [''curl'', ''-X'', me, url] @ ws) (shell_words Plain None s)"
    and "shell_words Plain None (''curl -X '' @ me @ '' '' @ quoted url) = Some [''curl'', ''-X'', me, url]"
proof -
  have q: "shell_words Plain None (quoted url @ CHR '' '' # s) = map_option ((#) url) (shell_words Plain None s)"
    "shell_words Plain None (quoted url) = Some [url]" for s
    using words_quoted [of url] by (simp_all add: escape_free assms(2) del: shell_words.simps)
  have w: "shell_words Plain None (''curl -X '' @ me @ '' '' @ s) =
      map_option (\<lambda>ws. [''curl'', ''-X'', me] @ ws) (shell_words Plain None s)" for s
  proof -
    have "''curl -X '' @ me @ '' '' @ s = ''curl'' @ CHR '' '' # (''-X'' @ CHR '' '' # (me @ CHR '' '' # s))" by simp
    then show ?thesis
      by (simp only: words_plain_space [OF plain_words(1)] words_plain_space [OF plain_words(2)] words_plain_space [OF assms(1)])
        (simp add: option.map_comp comp_def)
  qed
  show "shell_words Plain None (''curl -X '' @ me @ '' '' @ quoted url @ CHR '' '' # s) =
      map_option (\<lambda>ws. [''curl'', ''-X'', me, url] @ ws) (shell_words Plain None s)"
    unfolding w q by (simp add: option.map_comp comp_def)
  show "shell_words Plain None (''curl -X '' @ me @ '' '' @ quoted url) = Some [''curl'', ''-X'', me, url]"
    unfolding w q by simp
qed

lemma words_data: "shell_words Plain None (''--data '' @ quoted (escape_apos b)) = Some [''--data'', b]"
proof -
  have "''--data '' @ quoted (escape_apos b) = ''--data'' @ CHR '' '' # quoted (escape_apos b)" by simp
  then show ?thesis by (simp only: words_plain_space [OF plain_words(4)] words_quoted) simp
qed

section \<open>Log records\<close>

text \<open>
  \<open>_exception_to_xml\<close>: the frames of a traceback with their source lines (none when the source is not
  available) and the line they stopped at. An error while the trace is built leaves it out.
\<close>

record frame =
  fr_source :: "(string list \<times> nat) option"
  fr_lineno :: nat
  fr_file :: string
  fr_locals :: string

definition line_node :: "nat \<Rightarrow> nat \<Rightarrow> nat \<times> string \<Rightarrow> xnode" where
  "line_node start lineno l =
     (case l of (i, s) \<Rightarrow> Node ''line'' (if start + i = lineno then [(''selected'', ''true'')] else []) []
        [E_text ''text'' s, E_text ''number'' (str_of_int (int (start + i)))])"

definition frame_node :: "frame \<Rightarrow> xnode" where
  "frame_node fr =
     (case (case fr_source fr of Some p \<Rightarrow> p | None \<Rightarrow> ([], 0)) of (src, start) \<Rightarrow>
        E_kids ''step'' [E_kids ''lines'' (map (line_node start (fr_lineno fr)) (enumerate 0 src)),
          E_text ''file'' (fr_file fr), E_text ''locals'' (fr_locals fr)])"

definition frame_valid :: "print_env \<Rightarrow> frame \<Rightarrow> bool" where
  "frame_valid e fr \<longleftrightarrow> list_all (valid_text e) (case fr_source fr of Some (src, _) \<Rightarrow> src | None \<Rightarrow> []) \<and>
     valid_text e (fr_file fr) \<and> valid_text e (fr_locals fr)"

definition exception_to_xml :: "print_env \<Rightarrow> frame list \<Rightarrow> string \<Rightarrow> xnode py" where
  "exception_to_xml e frames formatted =
     (if \<not> valid_text e formatted then Inl ValueError
      else Inr (E_kids ''exception''
        ((if list_all (frame_valid e) frames then [E_kids ''trace'' (map frame_node frames)] else []) @ [E_text ''text'' formatted])))"

text \<open>A log record: the attributes of \<open>FIELDS\<close> that are not \<open>None\<close>, the message, and the parts the debug page shows.\<close>

record debug_record =
  dr_fields :: "(string \<times> string) list"
  dr_msg :: string
  dr_asctime :: string
  dr_exc :: "(frame list \<times> string) option"
  dr_response :: "request_result option"
  dr_request :: "(out_request \<times> int \<times> string) option"
  dr_debug_response :: "xnode option"
  dr_xslt_profile :: "xnode option"
  dr_texts :: "string list"
  dr_stage :: "(string \<times> rat \<times> rat) option"

definition opt_node :: "('a \<Rightarrow> xnode list) \<Rightarrow> 'a option \<Rightarrow> xnode list" where
  "opt_node f x = (case x of Some v \<Rightarrow> f v | None \<Rightarrow> [])"

text \<open>\<open>dr_texts\<close> are the texts of \<open>_xml\<close>, \<open>_protobuf\<close> and \<open>_text\<close>, as far as the record has them.\<close>

definition produce_one :: "print_env \<Rightarrow> debug_record \<Rightarrow> xnode py" where
  "produce_one e r =
     (let attrs = dr_fields r @ [(''msg'', dr_msg r)];
          attrs = (if list_all (\<lambda>(k, v). valid_text e v) attrs then attrs else [])
      in py_bind (case dr_exc r of Some (fs, s) \<Rightarrow> py_bind (exception_to_xml e fs s) (\<lambda>n. Inr [n]) | None \<Rightarrow> Inr []) (\<lambda>exc.
         py_bind (collect_nodes (text_node e ''text'') (dr_texts r)) (\<lambda>texts.
           Inr (Node ''entry'' (attrs @ [(''asctime'', dr_asctime r)]) []
             (exc @ opt_node (\<lambda>x. [response_to_xml e x]) (dr_response r) @
              opt_node (\<lambda>(q, retry, dc). [request_to_xml e q, balanced_request_to_xml q retry dc]) (dr_request r) @
              opt_node (\<lambda>x. [E_kids ''debug'' [x]]) (dr_debug_response r) @ opt_node (\<lambda>x. [x]) (dr_xslt_profile r) @ texts @
              opt_node (\<lambda>(n, d, sd). [E_kids ''stage'' [E_text ''name'' n, E_text ''delta'' (fmt4 e d), E_text ''start_delta'' (fmt4 e sd)]])
                (dr_stage r))))))"

definition produce_all :: "print_env \<Rightarrow> debug_record list \<Rightarrow> xnode py" where
  "produce_all e records = py_bind (collect_nodes (produce_one e) records) (\<lambda>ns. Inr (E_kids ''log'' ns))"

section \<open>Colours and chunks\<close>

text \<open>\<open>_string_to_color\<close>; \<open>crc\<close> is the checksum of the text. The brightness is compared exactly.\<close>

definition hex2 :: "nat \<Rightarrow> string" where
  "hex2 n = hex_padded 2 n"

definition string_to_color :: "nat \<Rightarrow> string \<times> string" where
  "string_to_color crc =
     (let value_hash = crc mod 0xFFFFFFFF;
          r = (value_hash div 2 ^ 16) mod 2 ^ 8;
          g = (value_hash div 2 ^ 8) mod 2 ^ 8;
          b = value_hash mod 2 ^ 8
      in (''#'' @ hex2 r @ hex2 g @ hex2 b,
          if (2126 * of_nat r + 7152 * of_nat g + 722 * of_nat b) / 10000 > (255 / 2 :: rat) then ''black'' else ''white''))"

datatype chunk_data = CNone | CStr string | CDict string | CBytes string | COther

text \<open>
  \<open>_data_to_chunk\<close>: \<open>CDict\<close> carries what \<open>json.dumps\<close> prints; \<open>utf8\<close> encodes. In the JSON every \<open></\<close> becomes
  \<open><\/\<close>.
\<close>

fun escape_slashes :: "string \<Rightarrow> string" where
  "escape_slashes (c # d # s) =
     (if c = CHR ''<'' \<and> d = CHR ''/'' then [CHR ''<'', char_of (92 :: nat), CHR ''/''] @ escape_slashes s else c # escape_slashes (d # s))"
| "escape_slashes s = s"

definition data_to_chunk :: "(string \<Rightarrow> string) \<Rightarrow> chunk_data \<Rightarrow> string py" where
  "data_to_chunk utf8 d =
     (case d of
        CNone \<Rightarrow> Inr []
      | CStr s \<Rightarrow> Inr (utf8 s)
      | CDict s \<Rightarrow> Inr (utf8 (escape_slashes s))
      | CBytes b \<Rightarrow> Inr b
      | COther \<Rightarrow> Inl TypeError)"

section \<open>The debug document\<close>

text \<open>
  \<open>original_response\<close> in \<open>transform_chunk\<close>: body (base64), headers and status code of the response, as XML
  by \<open>dict_to_xml\<close>; it is how a calling frontik gets the response back.
\<close>

definition original_response :: "string \<Rightarrow> (string \<times> string) list \<Rightarrow> int \<Rightarrow> xml_dict" where
  "original_response chunk headers code =
     XDict [(''buffer'', XText (b64encode chunk)), (''headers'', XDict (map (\<lambda>(k, v). (k, XText v)) headers)), (''code'', XText (str_of_int code))]"

definition debug_chunk :: "bool \<Rightarrow> string \<Rightarrow> string" where
  "debug_chunk headers_written response_body = (if headers_written then ''Streamable response'' else response_body)"

definition original_response_xml ::
  "(string \<Rightarrow> bool) \<Rightarrow> (string \<Rightarrow> bool) \<Rightarrow> bool \<Rightarrow> string \<Rightarrow> (string \<times> string) list \<Rightarrow> int \<Rightarrow> element py" where
  "original_response_xml valid_tag valid_txt headers_written response_body headers code =
     dict_to_xml valid_tag valid_txt ''original-response'' (original_response (debug_chunk headers_written response_body) headers code)"

text \<open>The reading of it by the caller.\<close>

definition read_original :: "xml_dict \<Rightarrow> (string \<times> (string \<times> string) list \<times> int) option" where
  "read_original d =
     (case d of
        XDict kvs \<Rightarrow>
          (case (dict_get kvs ''buffer'', dict_get kvs ''headers'', dict_get kvs ''code'') of
             (Some (XText b), Some (XDict hs), Some (XText c)) \<Rightarrow>
               (case (b64decode b, py_int 10 c) of
                  (Some body, Some code) \<Rightarrow> Some (body, map (\<lambda>(k, v). (k, case v of XText s \<Rightarrow> s | XDict _ \<Rightarrow> [])) hs, code)
                | _ \<Rightarrow> None)
           | _ \<Rightarrow> None)
      | XText _ \<Rightarrow> None)"

section \<open>Properties\<close>


text \<open>
  An apostrophe in the URL breaks out of the quotes, since the URL is not escaped: the shell then reads
  other words than the URL, here a second command.
\<close>

definition sample_print_env :: print_env where
  "sample_print_env = \<lparr>py_repr = (\<lambda>b. case b of BText s \<Rightarrow> [apos] @ s @ [apos] | BBytes s \<Rightarrow> [CHR ''b'', apos] @ s @ [apos]), fmt4 = (\<lambda>_. ''0.0000''),
     valid_text = (\<lambda>_. True), decode = (\<lambda>_ s. Some s), pretty_xml = (\<lambda>s. Some s), pretty_json = (\<lambda>s. Some s), parse_cookies = (\<lambda>_. [])\<rparr>"

definition sample_request :: "string \<Rightarrow> string option \<Rightarrow> out_request" where
  "sample_request url b = \<lparr>or_method = ''GET'', or_url = url, or_headers = [(''X-A'', ''it'' @ [apos] @ ''s'')], or_body = b, or_start_time = 0,
     or_upstream = ''up'', or_host = ''up''\<rparr>"


theorem curl_url_not_escaped:
  "shell_words Plain None (request_to_curl_string sample_print_env (sample_request (''/a'' @ [apos] @ '' b '' @ [apos]) None)) =
     Some [''curl'', ''-X'', ''GET'', ''/a'', ''b'', [], ''-H'', ''X-A: it'' @ [apos] @ ''s'']"
  by code_simp

text \<open>
  The body of a form is shown with the quotes of a bytes literal: the first name begins with \<open>b'\<close> and the
  last value ends with an apostrophe, because \<open>str\<close> of bytes is parsed.
\<close>

theorem form_body_shows_bytes_literal:
  "xkids (body_node sample_print_env (sample_request ''/a'' (Some ''x=1&y=2''))) =
     [Node ''param'' [(''name'', [CHR ''b'', apos] @ ''x'')] ''1'' [], Node ''param'' [(''name'', ''y'')] (''2'' @ [apos]) []]"
  by code_simp

lemma read_original_xml:
  assumes "original_response_xml valid_tag valid_txt False response_body headers code = Inr e" and "headers \<noteq> []" and "distinct (map fst headers)"
  shows "read_original (xml_to_dict e) = Some (response_body, headers, code)"
proof -
  have "xml_dict_ok (original_response response_body headers code)"
    using assms(2,3) by (auto simp: original_response_def list_all_iff comp_def case_prod_unfold)
  with xml_round_trip(1) assms(1) have "xml_to_dict e = original_response response_body headers code"
    by (fastforce simp: original_response_xml_def debug_chunk_def)
  moreover have "map (\<lambda>(k, v). (k, case v of XText s \<Rightarrow> s | XDict _ \<Rightarrow> [])) (map (\<lambda>(k, v). (k, XText v)) headers) = headers"
    by (induction headers) auto
  ultimately show ?thesis
    by (simp add: read_original_def original_response_def dict_get_def b64decode_encode py_int_str_of_int)
qed

text \<open>
  The original response can be read back from the debug document: when the XML could be built, reading it
  gives the status code, the headers and exactly the bytes of the body.
\<close>

theorem original_response_recovered:
  assumes "original_response_xml valid_tag valid_txt False response_body headers code = Inr e" and "headers \<noteq> []" and "distinct (map fst headers)"
  shows "read_original (xml_to_dict e) = Some (response_body, headers, code)"
  using assms by (rule read_original_xml)

theorem original_response_recovered_witness:
  "\<exists>e. original_response_xml (\<lambda>_. True) (\<lambda>_. True) False ''hello'' [(''Content-Type'', ''text/html'')] 200 = Inr e \<and>
     read_original (xml_to_dict e) = Some (''hello'', [(''Content-Type'', ''text/html'')], 200)"
proof -
  obtain e where e: "original_response_xml (\<lambda>_. True) (\<lambda>_. True) False ''hello'' [(''Content-Type'', ''text/html'')] 200 = Inr e"
    by (simp add: original_response_xml_def original_response_def)
  from original_response_recovered [OF this] e show ?thesis by auto
qed

text \<open>
  Colours are well formed: a hash sign and six hexadecimal digits, and the text is black exactly on
  bright backgrounds.
\<close>

theorem color_format:
  "\<exists>r g b. r < 256 \<and> g < 256 \<and> b < 256 \<and> fst (string_to_color crc) = ''#'' @ hex2 r @ hex2 g @ hex2 b \<and>
     length (fst (string_to_color crc)) = 7 \<and>
     (snd (string_to_color crc) = ''black'' \<longleftrightarrow> 2 * (2126 * r + 7152 * g + 722 * b) > 255 * 10000)"
proof -
  define h where "h = crc mod 0xFFFFFFFF"
  let ?r = "(h div 2 ^ 16) mod 2 ^ 8" and ?g = "(h div 2 ^ 8) mod 2 ^ 8" and ?b = "h mod 2 ^ 8"
  have bounds: "?r < 256" "?g < 256" "?b < 256" by simp_all
  have "(2126 * of_nat r + 7152 * of_nat g + 722 * of_nat b) / 10000 > (255 / 2 :: rat) \<longleftrightarrow> 2 * (2126 * r + 7152 * g + 722 * b) > 255 * 10000" for r g b :: nat
  proof -
    have "(2126 * of_nat r + 7152 * of_nat g + 722 * of_nat b) / 10000 > (255 / 2 :: rat) \<longleftrightarrow>
        (of_nat (2 * (2126 * r + 7152 * g + 722 * b)) :: rat) > of_nat (255 * 10000)" by (auto simp: field_simps)
    then show ?thesis by (simp only: of_nat_less_iff)
  qed
  note bright = this [of ?r ?g ?b]
  have f: "fst (string_to_color crc) = ''#'' @ hex2 ?r @ hex2 ?g @ hex2 ?b"
    by (simp add: string_to_color_def Let_def h_def)
  have len: "length (hex2 n) = 2" for n by (simp add: hex2_def numeral_2_eq_2)
  have s: "snd (string_to_color crc) = ''black'' \<longleftrightarrow> 2 * (2126 * ?r + 7152 * ?g + 722 * ?b) > 255 * 10000"
    using bright by (simp add: string_to_color_def Let_def h_def)
  show ?thesis
  proof (intro exI conjI)
    show "fst (string_to_color crc) = ''#'' @ hex2 ?r @ hex2 ?g @ hex2 ?b" by (rule f)
    show "length (fst (string_to_color crc)) = 7" unfolding f by (simp add: len)
    show "snd (string_to_color crc) = ''black'' \<longleftrightarrow> 2 * (2126 * ?r + 7152 * ?g + 722 * ?b) > 255 * 10000" by (rule s)
  qed (rule bounds)+
qed

end
