(* ===== verification/App.thy ===== *)
theory App
  imports Timeouts Workers
begin

text \<open>
  The application and the life of its processes: \<open>frontik/app.py\<close>, \<open>frontik/server.py\<close>,
  \<open>frontik/dependencies/__init__.py\<close>, \<open>app_integrations/__init__.py\<close>, \<open>app_integrations/statsd.py\<close>
  and \<open>util/gc.py\<close>. What start-up and shutdown do is given by
  the sequence of their effects; what an integration or a third-party client does is whether it raises.
\<close>

section \<open>Application\<close>

text \<open>\<open>'{:.2f}'\<close> of a number that is not negative.\<close>

definition fmt2 :: "rat \<Rightarrow> string" where
  "fmt2 x = (let n = round_half_even (x * 100)
     in str_of_int (n div 100) @ ''.'' @ [char_of (48 + nat (n div 10 mod 10)), char_of (48 + nat (n mod 10))])"

text \<open>\<open>cur_uptime % 3600\<close>.\<close>

definition rat_mod :: "rat \<Rightarrow> rat \<Rightarrow> rat" where
  "rat_mod x m = x - m * of_int \<lfloor>x / m\<rfloor>"

definition uptime_value :: "rat \<Rightarrow> string" where
  "uptime_value u =
     (if u < 60 then fmt2 u @ '' seconds''
      else if u < 3600 then fmt2 (u / 60) @ '' minutes''
      else fmt2 (u / 3600) @ '' hours and '' @ fmt2 (rat_mod u 3600 / 60) @ '' minutes'')"

text \<open>The state that master and workers share, from the constructor of the application.\<close>

record shared_state =
  init_workers_count_down :: int
  master_done :: bool

definition new_shared_state :: "nat \<Rightarrow> shared_state" where
  "new_shared_state workers = \<lparr>init_workers_count_down = int workers, master_done = False\<rparr>"

definition get_current_status :: "shared_state \<Rightarrow> rat \<Rightarrow> string \<Rightarrow> string \<Rightarrow> (string, string) dict py" where
  "get_current_status sh uptime datacenter version =
     (if init_workers_count_down sh > 0 \<or> \<not> master_done sh then Inl (HTTPException 500)
      else Inr [(''uptime'', uptime_value uptime), (''datacenter'', datacenter), (''app_version'', version)])"

definition service_name :: "string option \<Rightarrow> string \<Rightarrow> string" where
  "service_name configured app_module_name =
     (case configured of Some s \<Rightarrow> s | None \<Rightarrow> last (split_on CHR ''.'' app_module_name))"

datatype discovery_kind = MasterDiscovery | WorkerDiscovery

definition make_service_discovery :: "bool \<Rightarrow> bool \<Rightarrow> discovery_kind" where
  "make_service_discovery master consul_enabled = (if master \<and> consul_enabled then MasterDiscovery else WorkerDiscovery)"

text \<open>The producer of the client metrics: \<open>None\<close> without a configured cluster that exists.\<close>

definition metrics_producer :: "string option \<Rightarrow> string list \<Rightarrow> (string \<Rightarrow> 'p option) \<Rightarrow> 'p option" where
  "metrics_producer kafka_cluster kafka_clusters get_kafka_producer =
     (if truthy kafka_cluster \<and> the kafka_cluster \<in> set kafka_clusters then get_kafka_producer (the kafka_cluster) else None)"

datatype statsd_client = StatsDClientStub | StatsDClient string int int int string

definition create_statsd_client :: "string option \<Rightarrow> int option \<Rightarrow> int \<Rightarrow> int option \<Rightarrow> string \<Rightarrow> statsd_client py" where
  "create_statsd_client host port interval max_udp_size app_name =
     (case (host, port) of
        (Some h, Some p) \<Rightarrow>
          (case max_udp_size of Some k \<Rightarrow> Inr (StatsDClient h p interval k app_name) | None \<Rightarrow> Inl AssertionError)
      | _ \<Rightarrow> Inr StatsDClientStub)"

section \<open>Default answers\<close>

record answer =
  ans_status :: int
  ans_headers :: "(string \<times> string) list"

definition default_404 :: answer where
  "default_404 = \<lparr>ans_status = 404, ans_headers = []\<rparr>"

definition default_405 :: "string list \<Rightarrow> answer" where
  "default_405 allowed_methods = \<lparr>ans_status = 405, ans_headers = [(''Allow'', join_with '', '' allowed_methods)]\<rparr>"

definition default_preflight_options :: answer where
  "default_preflight_options = \<lparr>ans_status = 204, ans_headers = []\<rparr>"

definition client_disconnect_error_handler :: "(int \<Rightarrow> string option) \<Rightarrow> plain_response" where
  "client_disconnect_error_handler reasons = make_plain_response reasons 499 None"

definition default_exception_handler :: "(int \<Rightarrow> string option) \<Rightarrow> plain_response" where
  "default_exception_handler reasons = make_plain_response reasons 500 None"

text \<open>\<open>FrontikMiddleware\<close>: an HTTP request runs inside \<open>set_extra_client_params\<close>, anything else directly.\<close>

definition frontik_middleware ::
  "bool \<Rightarrow> nat \<Rightarrow> 'hook \<Rightarrow> debug_mode \<Rightarrow> ((nat \<Rightarrow> 'hook \<times> bool) \<Rightarrow> 'r \<times> (nat \<Rightarrow> 'hook \<times> bool)) \<Rightarrow> (nat \<Rightarrow> 'hook \<times> bool) \<Rightarrow> 'r \<times> (nat \<Rightarrow> 'hook \<times> bool)" where
  "frontik_middleware is_http task hook dm app vars =
     (if \<not> is_http then app vars
      else case set_extra_client_params_enter task hook dm vars of (token, vars) \<Rightarrow>
           (case app vars of (r, vars) \<Rightarrow> (r, set_extra_client_params_exit task token vars)))"

section \<open>Dependencies\<close>

definition get_app :: "'app option \<Rightarrow> 'app py" where
  "get_app app_instance = (case app_instance of Some a \<Rightarrow> Inr a | None \<Rightarrow> Inl AssertionError)"

definition set_app :: "'app \<Rightarrow> 'app option \<Rightarrow> 'app option" where
  "set_app app app_instance = Some app"

definition get_http_client :: "('app \<Rightarrow> 'client option) \<Rightarrow> 'app option \<Rightarrow> 'client py" where
  "get_http_client http_client app_instance =
     py_bind (get_app app_instance) (\<lambda>a. case http_client a of Some c \<Rightarrow> Inr c | None \<Rightarrow> Inl AssertionError)"

section \<open>Start and stop\<close>

datatype effect =
    ImportModule string
  | SetApp
  | MakeDiscovery discovery_kind
  | InitIntegration string
  | AwaitFutures
  | MakeHttpClient
  | BeforeForkAction
  | MasterDone
  | OpenPort
  | StartAutoreload
  | CountDown
  | Register
  | SetHook
  | SendUpdates
  | Deregister
  | Delay int
  | CloseClient
  | DeinitIntegration string
  | LogException
  | StopServer
  | StopLoop

text \<open>A run is the effects so far and whether it goes on; \<open>False\<close> is an exception on its way.\<close>

type_synonym run = "effect list \<times> bool"

definition and_then :: "run \<Rightarrow> run \<Rightarrow> run" where
  "and_then r1 r2 = (if snd r1 then (fst r1 @ fst r2, snd r2) else r1)"

definition does :: "effect \<Rightarrow> run" where
  "does e = ([e], True)"

definition only_if :: "bool \<Rightarrow> run \<Rightarrow> run" where
  "only_if b r = (if b then r else ([], True))"

fun in_sequence :: "('a \<Rightarrow> run) \<Rightarrow> 'a list \<Rightarrow> run" where
  "in_sequence f [] = ([], True)"
| "in_sequence f (x # xs) = and_then (f x) (in_sequence f xs)"

text \<open>
  An integration: its \<open>initialize_app\<close> raises, is done, or returns a future and whether that fails; its
  \<open>deinitialize_app\<close> may raise.
\<close>

datatype init_outcome = InitRaises | Ready | Pending bool

record integration =
  iname :: string
  initialize_app :: init_outcome
  deinitialize_raises :: bool

definition load_integrations :: "(string \<times> bool) list \<Rightarrow> integration list \<Rightarrow> run" where
  "load_integrations modules ints = and_then
     (in_sequence (\<lambda>(n, raises). ([ImportModule n], \<not> raises)) modules)
     (in_sequence (\<lambda>i. ([InitIntegration (iname i)], initialize_app i \<noteq> InitRaises)) ints)"

text \<open>What a process meets: the modules, the integrations, and whether the calls to Consul raise.\<close>

record surroundings =
  modules :: "(string \<times> bool) list"
  integrations :: "integration list"
  consul_on :: bool
  register_raises :: bool
  deregister_raises :: bool
  close_raises :: bool

definition install_integrations :: "bool \<Rightarrow> surroundings \<Rightarrow> run" where
  "install_integrations master e =
     and_then (does SetApp)
     (and_then (does (MakeDiscovery (make_service_discovery master (consul_on e))))
     (and_then (load_integrations (modules e) (integrations e))
     (and_then ([AwaitFutures], \<forall>i\<in>set (integrations e). initialize_app i \<noteq> Pending True)
     (does MakeHttpClient))))"

definition app_init :: "bool \<Rightarrow> surroundings \<Rightarrow> run" where
  "app_init master e = and_then (install_integrations master e) (only_if master (does MasterDone))"

definition run_server :: "bool \<Rightarrow> run" where
  "run_server autoreload = and_then (does OpenPort) (only_if autoreload (does StartAutoreload))"

text \<open>Registration: the service discovery of a worker does nothing, the other one calls Consul.\<close>

definition discovery_register :: "discovery_kind \<Rightarrow> surroundings \<Rightarrow> run" where
  "discovery_register d e = only_if (d = MasterDiscovery) ([Register], \<not> register_raises e)"

definition discovery_deregister :: "discovery_kind \<Rightarrow> surroundings \<Rightarrow> run" where
  "discovery_deregister d e = only_if (d = MasterDiscovery) ([Deregister], \<not> deregister_raises e)"

definition init_app :: "bool \<Rightarrow> bool \<Rightarrow> surroundings \<Rightarrow> run" where
  "init_app master autoreload e =
     and_then (app_init master e)
     (and_then (run_server autoreload)
     (and_then (does CountDown)
     (discovery_register (make_service_discovery master (consul_on e)) e)))"

text \<open>\<open>_run_worker\<close>: when \<open>_init_app\<close> raises, its callback stops the loop and \<open>result()\<close> raises again.\<close>

definition run_worker :: "bool \<Rightarrow> bool \<Rightarrow> surroundings \<Rightarrow> run" where
  "run_worker master autoreload e =
     (case init_app master autoreload e of (es, ok) \<Rightarrow> if ok then (es, True) else (es @ [StopLoop], False))"

definition deinit :: "surroundings \<Rightarrow> run" where
  "deinit e = and_then ([CloseClient], \<not> close_raises e)
     (in_sequence (\<lambda>i. ([DeinitIntegration (iname i)], \<not> deinitialize_raises i)) (integrations e))"

definition logged_deinit :: "surroundings \<Rightarrow> effect list" where
  "logged_deinit e = (case deinit e of (es, ok) \<Rightarrow> es @ (if ok then [] else [LogException]))"

definition deinit_app :: "discovery_kind \<Rightarrow> int \<Rightarrow> bool \<Rightarrow> surroundings \<Rightarrow> run" where
  "deinit_app d stop_timeout with_delay e =
     and_then (discovery_deregister d e)
     (and_then (only_if with_delay (does (Delay stop_timeout)))
     (logged_deinit e, True))"

text \<open>
  The event loop of a worker that shuts down. \<open>worker_sigterm_handler\<close> schedules \<open>server_stop\<close>, which stops
  the server and schedules the task of \<open>_deinit_app\<close>; the task sleeps and goes on at its timer; when it
  is done, with an exception or without, its callback stops the loop. Other handles do not matter here.
  An iteration of the loop runs the handles that are ready and those of the timers that are due; what
  they schedule waits for the next iteration. Closing the client is part of the handle that starts it.
\<close>

datatype handle = ServerStop | DeinitTask | DeinitResumed | IoloopStop | OtherHandle

record loop =
  ready_handles :: "handle list"
  timers :: "rat list"
  stopping :: bool
  trace :: "effect list"

definition worker_sigterm_handler :: "loop \<Rightarrow> loop" where
  "worker_sigterm_handler l = l\<lparr>ready_handles := ready_handles l @ [ServerStop]\<rparr>"

definition server_stop :: "loop \<Rightarrow> loop" where
  "server_stop l = l\<lparr>ready_handles := ready_handles l @ [DeinitTask], trace := trace l @ [StopServer]\<rparr>"

definition ioloop_stop :: "loop \<Rightarrow> loop" where
  "ioloop_stop l = l\<lparr>stopping := True, trace := trace l @ [StopLoop]\<rparr>"

definition begin_deinit :: "discovery_kind \<Rightarrow> int \<Rightarrow> surroundings \<Rightarrow> rat \<Rightarrow> loop \<Rightarrow> loop" where
  "begin_deinit d stop_timeout e now l =
     (case discovery_deregister d e of (es, ok) \<Rightarrow>
        if \<not> ok then l\<lparr>trace := trace l @ es, ready_handles := ready_handles l @ [IoloopStop]\<rparr>
        else if stop_timeout \<le> 0 then l\<lparr>trace := trace l @ es @ [Delay stop_timeout], ready_handles := ready_handles l @ [DeinitResumed]\<rparr>
        else l\<lparr>trace := trace l @ es @ [Delay stop_timeout], timers := timers l @ [now + of_int stop_timeout]\<rparr>)"

fun run_handle :: "discovery_kind \<Rightarrow> int \<Rightarrow> surroundings \<Rightarrow> rat \<Rightarrow> handle \<Rightarrow> loop \<Rightarrow> loop" where
  "run_handle d st e now ServerStop l = server_stop l"
| "run_handle d st e now DeinitTask l = begin_deinit d st e now l"
| "run_handle d st e now DeinitResumed l = l\<lparr>trace := trace l @ logged_deinit e, ready_handles := ready_handles l @ [IoloopStop]\<rparr>"
| "run_handle d st e now IoloopStop l = ioloop_stop l"
| "run_handle d st e now OtherHandle l = l"

definition loop_iteration :: "discovery_kind \<Rightarrow> int \<Rightarrow> surroundings \<Rightarrow> rat \<Rightarrow> handle list \<Rightarrow> loop \<Rightarrow> loop" where
  "loop_iteration d st e now arrived l =
     fold (run_handle d st e now) (ready_handles l @ arrived @ map (\<lambda>_. DeinitResumed) (filter (\<lambda>t. t \<le> now) (timers l)))
       (l\<lparr>ready_handles := [], timers := filter (\<lambda>t. now < t) (timers l)\<rparr>)"

primrec loop_after :: "discovery_kind \<Rightarrow> int \<Rightarrow> surroundings \<Rightarrow> (nat \<Rightarrow> rat) \<Rightarrow> (nat \<Rightarrow> handle list) \<Rightarrow> nat \<Rightarrow> loop \<Rightarrow> loop" where
  "loop_after d st e clock arrivals 0 l = l"
| "loop_after d st e clock arrivals (Suc k) l =
     (let l' = loop_after d st e clock arrivals k l
      in if stopping l' then l' else loop_iteration d st e (clock k) (arrivals k) l')"

definition master_before_fork_action :: "surroundings \<Rightarrow> bool option \<Rightarrow> run" where
  "master_before_fork_action e before_fork_action =
     and_then (install_integrations True e)
     (case before_fork_action of None \<Rightarrow> ([], True) | Some raises \<Rightarrow> ([BeforeForkAction], \<not> raises))"

definition master_after_fork_action :: "discovery_kind \<Rightarrow> surroundings \<Rightarrow> run" where
  "master_after_fork_action d e =
     only_if (d \<noteq> WorkerDiscovery) (and_then (does SetHook) (and_then (does SendUpdates) (discovery_register d e)))"

definition master_before_shutdown_action :: "discovery_kind \<Rightarrow> int \<Rightarrow> surroundings \<Rightarrow> run" where
  "master_before_shutdown_action d stop_timeout e = deinit_app d stop_timeout False e"

text \<open>
  \<open>main\<close> after the configuration was read: \<open>import_module\<close>, \<open>getattr\<close> and the constructor are arguments.
\<close>

datatype start_mode = SingleProcess | ForkWorkers int

definition main :: "string option \<Rightarrow> (string \<Rightarrow> 'm option) \<Rightarrow> ('m \<Rightarrow> string \<Rightarrow> 'c option) \<Rightarrow> ('c \<Rightarrow> bool) \<Rightarrow> int \<Rightarrow> (start_mode \<Rightarrow> py_exc option) \<Rightarrow> unit py" where
  "main app_class import_module getattr constructs workers run =
     (case app_class of
        None \<Rightarrow> Inl (SystemExit 1)
      | Some s \<Rightarrow>
          (case rsplit_dot s of
             None \<Rightarrow> Inl (SystemExit 1)
           | Some (m, c) \<Rightarrow>
               (case import_module m of
                  None \<Rightarrow> Inl (SystemExit 1)
                | Some md \<Rightarrow>
                    (case getattr md c of
                       None \<Rightarrow> Inl (PyException ''AttributeError'')
                     | Some cl \<Rightarrow>
                         if \<not> constructs cl then Inl (SystemExit 1)
                         else (case run (if workers \<noteq> 1 then ForkWorkers workers else SingleProcess) of
                                 None \<Rightarrow> Inr ()
                               | Some (SystemExit n) \<Rightarrow> Inl (SystemExit n)
                               | Some _ \<Rightarrow> Inl (SystemExit 1))))))"

text \<open>\<open>enable_gc\<close>: the thresholds set, or an error of \<open>int\<close>.\<close>

definition enable_gc :: "string option \<Rightarrow> int list option py" where
  "enable_gc gc_custom_thresholds =
     (case gc_custom_thresholds of
        None \<Rightarrow> Inr None
      | Some s \<Rightarrow>
          (let ts = map (py_int 10) (split_on CHR '','' s)
           in if None \<in> set ts then Inl ValueError
              else if length ts > 3 then Inl TypeError else Inr (Some (map the ts))))"

section \<open>Lemmas\<close>

named_theorems run_simps

lemma and_then_simps [run_simps]:
  "fst (and_then r1 r2) = fst r1 @ (if snd r1 then fst r2 else [])"
  "snd (and_then r1 r2) \<longleftrightarrow> snd r1 \<and> snd r2"
  by (simp_all add: and_then_def)

lemma does_simps [run_simps]: "fst (does e) = [e]" "snd (does e)"
  by (simp_all add: does_def)

lemma only_if_simps [run_simps]:
  "fst (only_if b r) = (if b then fst r else [])" "snd (only_if b r) \<longleftrightarrow> (b \<longrightarrow> snd r)"
  by (simp_all add: only_if_def)

lemma in_sequence_ok: "snd (in_sequence f xs) \<longleftrightarrow> (\<forall>x\<in>set xs. snd (f x))"
  by (induction xs) (auto simp: run_simps)

lemma in_sequence_effects: "snd (in_sequence f xs) \<Longrightarrow> fst (in_sequence f xs) = concat (map (\<lambda>x. fst (f x)) xs)"
  by (induction xs) (auto simp: run_simps)

lemma in_sequence_only: "set (fst (in_sequence f xs)) \<subseteq> (\<Union>x\<in>set xs. set (fst (f x)))"
  by (induction xs) (auto simp: run_simps)

lemma load_integrations_only:
  "set (fst (load_integrations ms is)) \<subseteq> range ImportModule \<union> range InitIntegration"
  using in_sequence_only [of "\<lambda>(n, raises). ([ImportModule n], \<not> raises)" ms]
    in_sequence_only [of "\<lambda>i. ([InitIntegration (iname i)], initialize_app i \<noteq> InitRaises)" "is"]
  by (auto simp: load_integrations_def run_simps split: if_splits prod.splits)

lemma install_integrations_quiet:
  "MasterDone \<notin> set (fst (install_integrations m e))" "CountDown \<notin> set (fst (install_integrations m e))"
  using load_integrations_only [of "modules e" "integrations e"] by (auto simp: install_integrations_def run_simps)

lemma run_worker_simps [run_simps]:
  "fst (run_worker m a e) = fst (init_app m a e) @ (if snd (init_app m a e) then [] else [StopLoop])"
  "snd (run_worker m a e) \<longleftrightarrow> snd (init_app m a e)"
  by (simp_all add: run_worker_def split: prod.splits)

lemma install_integrations_ok:
  "snd (install_integrations m e) \<longleftrightarrow> (\<forall>x\<in>set (modules e). \<not> snd x) \<and>
     (\<forall>i\<in>set (integrations e). initialize_app i \<noteq> InitRaises \<and> initialize_app i \<noteq> Pending True)"
  by (auto simp: install_integrations_def load_integrations_def run_simps in_sequence_ok case_prod_beta)

lemma install_integrations_no_listen: "OpenPort \<notin> set (fst (install_integrations m e))"
  using load_integrations_only [of "modules e" "integrations e"] by (auto simp: install_integrations_def run_simps)

lemma install_integrations_order:
  assumes "snd (install_integrations m e)"
  shows "filter (\<lambda>x. x \<in> range InitIntegration) (fst (install_integrations m e)) = map (\<lambda>i. InitIntegration (iname i)) (integrations e)"
proof -
  have ok: "snd (in_sequence (\<lambda>(n, raises). ([ImportModule n], \<not> raises)) (modules e))"
    "snd (in_sequence (\<lambda>i. ([InitIntegration (iname i)], initialize_app i \<noteq> InitRaises)) (integrations e))"
    using assms by (simp_all add: install_integrations_def load_integrations_def run_simps)
  have "filter (\<lambda>x. x \<in> range InitIntegration) (fst (in_sequence (\<lambda>(n, raises). ([ImportModule n], \<not> raises)) (modules e))) = []"
    using in_sequence_only [of "\<lambda>(n, raises). ([ImportModule n], \<not> raises)" "modules e"] by (auto simp: filter_empty_conv)
  moreover have "concat (map (\<lambda>i. [InitIntegration (iname i)]) is) = map (\<lambda>i. InitIntegration (iname i)) is" for "is"
    by (induction "is") auto
  ultimately show ?thesis using assms ok in_sequence_effects [OF ok(2)]
    by (auto simp: install_integrations_def load_integrations_def run_simps filter_map comp_def)
qed

lemmas start_defs = init_app_def app_init_def run_server_def discovery_register_def

text \<open>What a run changes of the state that the processes share.\<close>

fun apply_effect :: "shared_state \<Rightarrow> effect \<Rightarrow> shared_state" where
  "apply_effect sh CountDown = sh\<lparr>init_workers_count_down := init_workers_count_down sh - 1\<rparr>"
| "apply_effect sh MasterDone = sh\<lparr>master_done := True\<rparr>"
| "apply_effect sh e = sh"

definition after_run :: "shared_state \<Rightarrow> run \<Rightarrow> shared_state" where
  "after_run sh r = foldl apply_effect sh (fst r)"

lemma foldl_apply_quiet: "MasterDone \<notin> set es \<Longrightarrow> CountDown \<notin> set es \<Longrightarrow> foldl apply_effect sh es = sh"
proof (induction es)
  case (Cons e es)
  then show ?case by (cases e) auto
qed simp

lemma after_install [simp]: "foldl apply_effect sh (fst (install_integrations m e)) = sh"
  by (rule foldl_apply_quiet) (fact install_integrations_quiet)+

lemma after_worker_run:
  "snd (run_worker False autoreload e) \<Longrightarrow>
    after_run sh (run_worker False autoreload e) = sh\<lparr>init_workers_count_down := init_workers_count_down sh - 1\<rparr>"
  "\<not> snd (run_worker False autoreload e) \<Longrightarrow> after_run sh (run_worker False autoreload e) = sh"
  by (auto simp: after_run_def start_defs make_service_discovery_def run_simps)

text \<open>
  A server of \<open>n\<close> workers: each worker process runs \<open>_run_worker\<close> to its end or dies; the master, which
  waits in \<open>fork_workers\<close> until the counter is used up, sets \<open>master_done\<close> and only then restarts workers.
\<close>

datatype proc = Starting | Up | Dead

record boot =
  shared :: shared_state
  procs :: "nat \<Rightarrow> proc"
  inited :: "nat set"

definition boot_start :: "nat \<Rightarrow> boot" where
  "boot_start n = \<lparr>shared = new_shared_state n, procs = (\<lambda>_. Starting), inited = {}\<rparr>"

inductive boot_step :: "nat \<Rightarrow> boot \<Rightarrow> boot \<Rightarrow> bool" for n where
  up: "i < n \<Longrightarrow> procs b i = Starting \<Longrightarrow> snd (run_worker False autoreload e) \<Longrightarrow>
    boot_step n b (b\<lparr>shared := after_run (shared b) (run_worker False autoreload e), procs := (procs b)(i := Up),
      inited := insert i (inited b)\<rparr>)"
| init_fails: "i < n \<Longrightarrow> procs b i = Starting \<Longrightarrow> \<not> snd (run_worker False autoreload e) \<Longrightarrow>
    boot_step n b (b\<lparr>shared := after_run (shared b) (run_worker False autoreload e), procs := (procs b)(i := Dead)\<rparr>)"
| dies: "boot_step n b (b\<lparr>procs := (procs b)(i := Dead)\<rparr>)"
| finished: "init_workers_count_down (shared b) \<le> 0 \<Longrightarrow> boot_step n b (b\<lparr>shared := apply_effect (shared b) MasterDone\<rparr>)"
| restarts: "master_done (shared b) \<Longrightarrow> procs b i = Dead \<Longrightarrow> boot_step n b (b\<lparr>procs := (procs b)(i := Starting)\<rparr>)"

definition boot_inv :: "nat \<Rightarrow> boot \<Rightarrow> bool" where
  "boot_inv n b \<longleftrightarrow> inited b \<subseteq> {..<n} \<and>
     (if master_done (shared b) then inited b = {..<n}
      else init_workers_count_down (shared b) = int n - int (card (inited b)) \<and> (\<forall>i. procs b i = Starting \<longrightarrow> i \<notin> inited b))"

lemma boot_step_inv:
  assumes "boot_step n b b'" and "boot_inv n b"
  shows "boot_inv n b'"
  using assms
proof (induction rule: boot_step.induct)
  case (up i b autoreload e)
  have "finite (inited b)" using up.prems finite_subset by (auto simp: boot_inv_def)
  with up show ?case by (auto simp: boot_inv_def after_worker_run card_insert_if split: if_splits)
next
  case (init_fails i b autoreload e)
  then show ?case by (auto simp: boot_inv_def after_worker_run)
next
  case (dies b i)
  then show ?case by (auto simp: boot_inv_def)
next
  case (finished b)
  have "inited b = {..<n}" if "\<not> master_done (shared b)"
    using finished that by (intro card_seteq) (auto simp: boot_inv_def)
  with finished show ?case by (auto simp: boot_inv_def split: if_splits)
next
  case (restarts b i)
  then show ?case by (auto simp: boot_inv_def)
qed

lemma boot_start_inv: "boot_inv n (boot_start n)"
  by (simp add: boot_inv_def boot_start_def new_shared_state_def)

lemma boot_reachable_inv: "(boot_step n)\<^sup>*\<^sup>* (boot_start n) b \<Longrightarrow> boot_inv n b"
  by (induction rule: rtranclp_induct) (auto intro: boot_start_inv boot_step_inv)

section \<open>Properties\<close>

text \<open>C17. 
  The status page answers only when every worker of the server has completed its initialisation at
  least once, whatever workers failed, died and were restarted before.
\<close>

theorem status_means_all_inited:
  assumes "(boot_step n)\<^sup>*\<^sup>* (boot_start n) b" and "get_current_status (shared b) uptime dc version = Inr status"
  shows "inited b = {..<n} \<and> dict_get status ''app_version'' = Some version"
proof -
  from assms(2) have ready: "master_done (shared b)" and status: "dict_get status ''app_version'' = Some version"
    by (auto simp: get_current_status_def dict_get_def split: if_splits)
  from boot_reachable_inv [OF assms(1)] ready have "inited b = {..<n}" by (simp add: boot_inv_def)
  with status show ?thesis by simp
qed

definition calm :: surroundings where
  "calm = \<lparr>modules = [(''statsd'', False)], integrations = [\<lparr>iname = ''StatsdIntegration'', initialize_app = Ready,
     deinitialize_raises = False\<rparr>, \<lparr>iname = ''KafkaIntegration'', initialize_app = Pending False, deinitialize_raises = True\<rparr>],
     consul_on = True, register_raises = False, deregister_raises = False, close_raises = False\<rparr>"

lemma calm_up: "snd (run_worker False False calm)"
  by code_simp

theorem status_means_all_inited_witness:
  "\<exists>b. (boot_step 1)\<^sup>*\<^sup>* (boot_start 1) b \<and> inited b = {..<1} \<and>
     get_current_status (shared b) 5 ''dc1'' ''1.0'' = Inr [(''uptime'', ''5.00 seconds''), (''datacenter'', ''dc1''), (''app_version'', ''1.0'')]"
proof -
  let ?b1 = "boot_start 1\<lparr>shared := after_run (shared (boot_start 1)) (run_worker False False calm),
    procs := (procs (boot_start 1))(0 := Up), inited := insert 0 (inited (boot_start 1))\<rparr>"
  let ?b2 = "?b1\<lparr>shared := apply_effect (shared ?b1) MasterDone\<rparr>"
  have s: "shared ?b1 = \<lparr>init_workers_count_down = 0, master_done = False\<rparr>"
    by (simp add: after_worker_run(1) [OF calm_up] boot_start_def new_shared_state_def)
  have "boot_step 1 (boot_start 1) ?b1" by (rule boot_step.up) (simp_all add: calm_up boot_start_def)
  moreover have "boot_step 1 ?b1 ?b2" by (rule boot_step.finished) (unfold s, simp)
  ultimately have r: "(boot_step 1)\<^sup>*\<^sup>* (boot_start 1) ?b2" by (meson rtranclp.rtrancl_into_rtrancl rtranclp.rtrancl_refl)
  have u: "uptime_value 5 = ''5.00 seconds''" by code_simp
  have st: "get_current_status (shared ?b2) 5 ''dc1'' ''1.0'' = Inr [(''uptime'', ''5.00 seconds''), (''datacenter'', ''dc1''), (''app_version'', ''1.0'')]"
    unfolding get_current_status_def u using s by simp
  from status_means_all_inited [OF r st] r st show ?thesis by blast
qed

text \<open>
  A worker opens its port exactly when all modules could be imported and every integration was
  initialised, and then only after each of them was initialised once, in their order.
\<close>

theorem listens_after_initialisation:
  "(OpenPort \<in> set (fst (run_worker master autoreload e)) \<longleftrightarrow>
      (\<forall>m\<in>set (modules e). \<not> snd m) \<and>
      (\<forall>i\<in>set (integrations e). initialize_app i \<noteq> InitRaises \<and> initialize_app i \<noteq> Pending True)) \<and>
   (OpenPort \<in> set (fst (run_worker master autoreload e)) \<longrightarrow>
      filter (\<lambda>x. x \<in> range InitIntegration) (takeWhile (\<lambda>x. x \<noteq> OpenPort) (fst (run_worker master autoreload e))) =
        map (\<lambda>i. InitIntegration (iname i)) (integrations e))"
proof -
  have "\<exists>post. fst (run_worker master autoreload e) = fst (install_integrations master e) @
      (if snd (install_integrations master e) then (if master then [MasterDone] else []) @ OpenPort # post else [StopLoop])"
    by (cases "snd (install_integrations master e)") (simp_all add: run_simps start_defs)
  then obtain post where trace: "fst (run_worker master autoreload e) = fst (install_integrations master e) @
      (if snd (install_integrations master e) then (if master then [MasterDone] else []) @ OpenPort # post else [StopLoop])" ..
  show ?thesis
  proof (cases "snd (install_integrations master e)")
    case True
    have "takeWhile (\<lambda>x. x \<noteq> OpenPort) (fst (run_worker master autoreload e)) =
        fst (install_integrations master e) @ (if master then [MasterDone] else [])"
      using True install_integrations_no_listen [of master e] by (auto simp: trace takeWhile_append2 intro!: takeWhile_append2 [THEN trans])
    with True install_integrations_order [OF True] True [unfolded install_integrations_ok] show ?thesis
      by (simp add: trace image_iff)
  next
    case False
    with install_integrations_no_listen [of master e] False [unfolded install_integrations_ok] show ?thesis
      by (simp add: trace)
  qed
qed

theorem listens_after_initialisation_witness:
  "filter (\<lambda>x. x \<in> range InitIntegration) (takeWhile (\<lambda>x. x \<noteq> OpenPort) (fst (run_worker False False calm))) =
     [InitIntegration ''StatsdIntegration'', InitIntegration ''KafkaIntegration'']"
proof -
  have open_port: "OpenPort \<in> set (fst (run_worker False False calm))"
    using listens_after_initialisation [of False False calm] by (simp add: calm_def)
  then show ?thesis
    using listens_after_initialisation [of False False calm] by (simp add: calm_def)
qed



text \<open>What a handle scheduled or set stays while the others run.\<close>

lemma run_handle_keeps:
  "h \<in> set (ready_handles l) \<Longrightarrow> h \<in> set (ready_handles (run_handle d st e now g l))"
  "t \<in> set (timers l) \<Longrightarrow> t \<in> set (timers (run_handle d st e now g l))"
  "stopping l \<Longrightarrow> stopping (run_handle d st e now g l)"
  by (cases g; auto simp: server_stop_def begin_deinit_def ioloop_stop_def split: prod.splits)+

lemma fold_stable:
  assumes "\<And>g l. P l \<Longrightarrow> P (f g l)" and "h \<in> set hs" and "\<And>l. P (f h l)"
  shows "P (fold f hs l)"
  using assms(2)
proof (induction hs arbitrary: l)
  case (Cons g hs)
  have keep: "P l \<Longrightarrow> P (fold f hs l)" for l using assms(1) by (induction hs arbitrary: l) auto
  show ?case
  proof (cases "g = h")
    case True
    then show ?thesis using keep [OF assms(3)] by simp
  next
    case False
    with Cons.prems Cons.IH show ?thesis by simp
  qed
qed simp

lemma iteration_runs:
  assumes "h \<in> set (ready_handles l) \<or> h = DeinitResumed \<and> (\<exists>t\<in>set (timers l). t \<le> now)"
    and "\<And>g l. P l \<Longrightarrow> P (run_handle d st e now g l)" and "\<And>l. P (run_handle d st e now h l)"
  shows "P (loop_iteration d st e now arrived l)"
  unfolding loop_iteration_def
proof (rule fold_stable [where h = h])
  show "h \<in> set (ready_handles l @ arrived @ map (\<lambda>_. DeinitResumed) (filter (\<lambda>t. t \<le> now) (timers l)))"
    using assms(1) by auto
qed (fact assms(2,3))+

lemma iteration_keeps_timer:
  assumes "t \<in> set (timers l)" and "now < t"
  shows "t \<in> set (timers (loop_iteration d st e now arrived l))"
proof -
  have keep: "t \<in> set (timers l) \<Longrightarrow> t \<in> set (timers (fold (run_handle d st e now) hs l))" for hs l
    by (induction hs arbitrary: l) (auto intro: run_handle_keeps)
  show ?thesis unfolding loop_iteration_def using assms by (intro keep) auto
qed

lemma loop_after_Suc_running: "\<not> stopping (loop_after d st e clock arrivals k l) \<Longrightarrow>
  loop_after d st e clock arrivals (Suc k) l = loop_iteration d st e (clock k) (arrivals k) (loop_after d st e clock arrivals k l)"
  by simp

text \<open>The stages of the shutdown, each reached from the one before.\<close>

lemma stage_stop:
  assumes "IoloopStop \<in> set (ready_handles (loop_after d st e clock arrivals k l))"
  shows "\<exists>k. stopping (loop_after d st e clock arrivals k l)"
proof (cases "stopping (loop_after d st e clock arrivals k l)")
  case False
  have "stopping (loop_after d st e clock arrivals (Suc k) l)"
    unfolding loop_after_Suc_running [OF False]
    by (rule iteration_runs [where h = IoloopStop]) (use assms in \<open>auto simp: ioloop_stop_def intro: run_handle_keeps\<close>)
  then show ?thesis ..
qed blast

lemma stage_resumed:
  assumes "DeinitResumed \<in> set (ready_handles (loop_after d st e clock arrivals k l)) \<or>
    (\<exists>t\<in>set (timers (loop_after d st e clock arrivals k l)). t \<le> clock k)"
  shows "\<exists>k. stopping (loop_after d st e clock arrivals k l)"
proof (cases "stopping (loop_after d st e clock arrivals k l)")
  case False
  have "IoloopStop \<in> set (ready_handles (loop_after d st e clock arrivals (Suc k) l))"
    unfolding loop_after_Suc_running [OF False]
    by (rule iteration_runs [where h = DeinitResumed]) (use assms in \<open>auto intro: run_handle_keeps\<close>)
  then show ?thesis by (rule stage_stop)
qed blast

lemma stage_timer:
  assumes "t \<in> set (timers (loop_after d st e clock arrivals k l))" and "t \<le> clock (k + n)"
  shows "\<exists>k. stopping (loop_after d st e clock arrivals k l)"
  using assms
proof (induction n arbitrary: k)
  case 0
  then show ?case by (intro stage_resumed [of d st e clock arrivals k l]) auto
next
  case (Suc n)
  consider "stopping (loop_after d st e clock arrivals k l)" | "t \<le> clock k"
    | "\<not> stopping (loop_after d st e clock arrivals k l)" "clock k < t" by linarith
  then show ?case
  proof cases
    case 2
    with Suc.prems(1) show ?thesis by (intro stage_resumed [of d st e clock arrivals k l]) auto
  next
    case 3
    have "t \<in> set (timers (loop_after d st e clock arrivals (Suc k) l))"
      unfolding loop_after_Suc_running [OF 3(1)] using Suc.prems(1) 3(2) by (rule iteration_keeps_timer)
    with Suc.IH [of "Suc k"] Suc.prems(2) show ?thesis by simp
  qed blast
qed

lemma stage_task:
  assumes "DeinitTask \<in> set (ready_handles (loop_after d st e clock arrivals k l))"
    and "\<And>t n. \<exists>k\<ge>n. t \<le> clock k"
  shows "\<exists>k. stopping (loop_after d st e clock arrivals k l)"
proof (cases "stopping (loop_after d st e clock arrivals k l)")
  case False
  let ?due = "clock k + of_int st"
  let ?P = "\<lambda>l. IoloopStop \<in> set (ready_handles l) \<or> DeinitResumed \<in> set (ready_handles l) \<or> ?due \<in> set (timers l)"
  have "?P (loop_after d st e clock arrivals (Suc k) l)"
    unfolding loop_after_Suc_running [OF False]
    by (rule iteration_runs [where h = DeinitTask and P = ?P])
      (use assms(1) in \<open>auto simp: begin_deinit_def intro: run_handle_keeps split: prod.splits\<close>)
  moreover obtain n where "?due \<le> clock (Suc k + n)" using assms(2) [where t = ?due and n = "Suc k"] by (metis le_Suc_ex)
  ultimately show ?thesis
    using stage_stop [of d st e clock arrivals "Suc k" l] stage_resumed [of d st e clock arrivals "Suc k" l]
      stage_timer [of ?due d st e clock arrivals "Suc k" l n] by blast
qed blast

text \<open>C16. 
  After a termination signal the event loop of a worker stops, whatever else it has to run, whatever
  signals follow, and whether or not deregistration, the client and the integrations raise, as long as
  its clock goes on.
\<close>

theorem worker_shutdown_ends:
  assumes "\<And>t n. \<exists>k\<ge>n. t \<le> clock k"
  shows "\<exists>k. stopping (loop_after d stop_timeout e clock arrivals k (worker_sigterm_handler l))"
proof (cases "stopping l")
  case True
  then have "stopping (loop_after d stop_timeout e clock arrivals 0 (worker_sigterm_handler l))"
    by (simp add: worker_sigterm_handler_def)
  then show ?thesis ..
next
  case False
  have "DeinitTask \<in> set (ready_handles (loop_iteration d stop_timeout e (clock 0) (arrivals 0) (worker_sigterm_handler l)))"
    by (rule iteration_runs [where h = ServerStop])
      (auto simp: worker_sigterm_handler_def server_stop_def intro: run_handle_keeps)
  then have "DeinitTask \<in> set (ready_handles (loop_after d stop_timeout e clock arrivals (Suc 0) (worker_sigterm_handler l)))"
    using False by (simp add: worker_sigterm_handler_def)
  then show ?thesis using assms by (rule stage_task)
qed

theorem worker_shutdown_ends_witness:
  "\<exists>k. stopping (loop_after MasterDiscovery 3 calm of_nat (\<lambda>_. [OtherHandle, ServerStop]) k
     (worker_sigterm_handler \<lparr>ready_handles = [OtherHandle], timers = [], stopping = False, trace = []\<rparr>))"
proof (rule worker_shutdown_ends)
  fix t :: rat and n :: nat
  obtain k where "t \<le> of_nat k" using real_arch_simple by blast
  then have "t \<le> of_nat (max n k)" by (simp add: max_def of_nat_mono)
  then show "\<exists>k\<ge>n. t \<le> of_nat k" by (intro exI [of _ "max n k"]) simp
qed

text \<open>The hours of the uptime are not cut: an hour and a half is shown as one and a half hours and 30 minutes.\<close>

lemma uptime_shows_fraction_twice: "uptime_value 5400 = ''1.50 hours and 30.00 minutes''"
  by code_simp

text \<open>The variable that holds the hook of the client is what it was before a request, whatever the application left in it.\<close>

lemma middleware_restores:
  assumes "frontik_middleware True task hook dm app vars = (r, vars')"
  shows "vars' task = vars task"
  using assms by (auto simp: frontik_middleware_def set_extra_client_params_enter_def set_extra_client_params_exit_def split: prod.splits)

end
