(* ===== verification/Consul_Client.thy ===== *)
theory Consul_Client
  imports Discovery
begin

text \<open>
  The HTTP clients of Consul, \<open>frontik/consul_client.py\<close>: an asynchronous one on aiohttp and a synchronous one
  on requests, which report each request to a \<open>ClientEventCallback\<close>. What the network answers and what
  the callback of the caller makes of an answer are arguments; exceptions carry the name of their type.
\<close>

section \<open>Requests\<close>

text \<open>\<open>base.ConsulException\<close> and its subtypes, other subtypes of \<open>Exception\<close>, and the rest, such as a cancellation.\<close>

datatype client_exc = ConsulException string | OtherException string | NoException string

fun exc_name :: "client_exc \<Rightarrow> string" where
  "exc_name (ConsulException n) = n"
| "exc_name (OtherException n) = n"
| "exc_name (NoException n) = n"

fun is_exception :: "client_exc \<Rightarrow> bool" where
  "is_exception (NoException _) = False"
| "is_exception _ = True"

fun is_consul_exception :: "client_exc \<Rightarrow> bool" where
  "is_consul_exception (ConsulException _) = True"
| "is_consul_exception _ = False"

record consul_response =
  code :: int
  resp_hdrs :: "(string \<times> string) list"
  resp_text :: string

text \<open>The calls of the event callback.\<close>

datatype client_event =
    RequestSuccess string string int
  | RequestFailure string string client_exc
  | RequestInvalid string string int

text \<open>The two inner handlers of \<open>_request\<close>, which both clients have, around the callback of the caller.\<close>

definition handle_response ::
    "(consul_response \<Rightarrow> client_exc + 'a) \<Rightarrow> string \<Rightarrow> string \<Rightarrow> consul_response \<Rightarrow> client_event list \<times> (client_exc + 'a)" where
  "handle_response callback meth path r =
     (case callback r of
        Inr x \<Rightarrow> ([RequestSuccess meth path (code r)], Inr x)
      | Inl ex \<Rightarrow> (if is_consul_exception ex then [RequestInvalid meth path (code r)] else [], Inl ex))"

definition report_failure :: "string \<Rightarrow> string \<Rightarrow> client_event list \<times> (client_exc + 'a) \<Rightarrow> client_event list \<times> (client_exc + 'a)" where
  "report_failure meth path res =
     (case res of
        (evs, Inr x) \<Rightarrow> (evs, Inr x)
      | (evs, Inl ex) \<Rightarrow> (evs @ (if is_exception ex then [RequestFailure meth path ex] else []), Inl ex))"

definition async_request ::
    "client_exc + consul_response \<Rightarrow> (consul_response \<Rightarrow> client_exc + 'a) \<Rightarrow> string \<Rightarrow> string \<Rightarrow> client_event list \<times> (client_exc + 'a)" where
  "async_request answer callback meth path = report_failure meth path
     (case answer of
        Inl ex \<Rightarrow> ([], Inl ex)
      | Inr r \<Rightarrow> handle_response (if code r = 599 then (\<lambda>_. Inl (ConsulException ''Timeout'')) else callback) meth path r)"

definition sync_request ::
    "client_exc + consul_response \<Rightarrow> (consul_response \<Rightarrow> client_exc + 'a) \<Rightarrow> string \<Rightarrow> string \<Rightarrow> client_event list \<times> (client_exc + 'a)" where
  "sync_request answer callback meth path = report_failure meth path
     (case answer of Inl ex \<Rightarrow> ([], Inl ex) | Inr r \<Rightarrow> handle_response callback meth path r)"

text \<open>
  What a client sends: \<open>uri\<close> is the method of the base class. The timeout is that of the call for the
  asynchronous client, and that of the connection for the other, which ignores the one of the call.
\<close>

record http_call =
  call_method :: string
  call_uri :: string
  call_data :: "string option"
  call_headers :: "(string \<times> string) list option"
  call_timeout :: "rat option"

definition async_call :: "(string \<Rightarrow> (string \<times> string) list option \<Rightarrow> string) \<Rightarrow> string \<Rightarrow> string \<Rightarrow>
    (string \<times> string) list option \<Rightarrow> string option \<Rightarrow> (string \<times> string) list option \<Rightarrow> rat option \<Rightarrow> http_call" where
  "async_call uri meth path params data headers total_timeout =
     \<lparr>call_method = meth, call_uri = uri path params, call_data = data, call_headers = headers, call_timeout = total_timeout\<rparr>"

definition sync_call :: "(string \<Rightarrow> (string \<times> string) list option \<Rightarrow> string) \<Rightarrow> rat option \<Rightarrow> string \<Rightarrow> string \<Rightarrow>
    (string \<times> string) list option \<Rightarrow> string option \<Rightarrow> (string \<times> string) list option \<Rightarrow> rat option \<Rightarrow> http_call" where
  "sync_call uri own_timeout meth path params data headers total_timeout =
     \<lparr>call_method = meth, call_uri = uri path params, call_data = data, call_headers = headers, call_timeout = own_timeout\<rparr>"

text \<open>The verbs; only \<open>get\<close> sends no body and only it has a timeout.\<close>

datatype verb =
    VGet "rat option"
  | VPut string
  | VDelete string
  | VPost string

fun verb_arguments :: "verb \<Rightarrow> string \<times> string option \<times> rat option" where
  "verb_arguments (VGet total_timeout) = (''GET'', None, total_timeout)"
| "verb_arguments (VPut data) = (''PUT'', Some data, None)"
| "verb_arguments (VDelete data) = (''DELETE'', Some data, None)"
| "verb_arguments (VPost data) = (''POST'', Some data, None)"

definition async_verb where
  "async_verb uri net callback v path params headers =
     (case verb_arguments v of (meth, data, total_timeout) \<Rightarrow>
        async_request (net (async_call uri meth path params data headers total_timeout)) callback meth path)"

definition sync_verb where
  "sync_verb uri own_timeout net callback v path params headers =
     (case verb_arguments v of (meth, data, total_timeout) \<Rightarrow>
        sync_request (net (sync_call uri own_timeout meth path params data headers total_timeout)) callback meth path)"

text \<open>\<open>ConsulMetricsTracker\<close> counts every event.\<close>

fun tracker_count :: "client_event \<Rightarrow> statsd_count" where
  "tracker_count (RequestSuccess meth path c) = on_http_request_success c"
| "tracker_count (RequestFailure meth path ex) = on_http_request_failure (exc_name ex)"
| "tracker_count (RequestInvalid meth path c) = on_http_request_invalid c"

definition counted :: "string \<Rightarrow> client_event list \<Rightarrow> nat" where
  "counted res evs = length (filter (\<lambda>e. result (tracker_count e) = res) evs)"

section \<open>Properties\<close>

lemmas request_defs = sync_request_def async_request_def handle_response_def report_failure_def



end
