(* ===== verification/App_Integrations.thy ===== *)
theory App_Integrations
  imports Timeouts
begin

text \<open>
  Integrations of the application: Scylla clusters and the metrics of their sessions, Kafka producers,
  the set-up and the event hook of Sentry and the tracker of slow callbacks (\<open>app_integrations/scylla.py\<close>,
  \<open>kafka.py\<close>, \<open>sentry.py\<close>, \<open>slow_callback_tracker.py\<close>), and the delegating wrapper of \<open>util/abc.py\<close>. The drivers
  are arguments; times are rational seconds.
\<close>

section \<open>Delegation\<close>

text \<open>
  An attribute of a wrapped object is a value, a function or a coroutine function. \<open>__getattr__\<close> runs only
  for a name that the wrapper's class does not define (\<open>own\<close>), and wraps what can be called.
\<close>

datatype ('v, 'a) attr = PlainAttr 'v | SyncMethod "'a \<Rightarrow> 'v py" | AsyncMethod "'a \<Rightarrow> 'v py"

definition delegator_getattr :: "(string \<Rightarrow> ('v, 'a) attr option) \<Rightarrow> string \<Rightarrow> ('v, 'a) attr py" where
  "delegator_getattr native name =
     (case native name of
        None \<Rightarrow> Inl (PyException ''AttributeError'')
      | Some (AsyncMethod f) \<Rightarrow> Inr (AsyncMethod (\<lambda>args. f args))
      | Some (SyncMethod f) \<Rightarrow> Inr (SyncMethod (\<lambda>args. f args))
      | Some (PlainAttr v) \<Rightarrow> Inr (PlainAttr v))"

definition wrapper_attr :: "(string \<Rightarrow> ('v, 'a) attr option) \<Rightarrow> (string \<Rightarrow> ('v, 'a) attr option) \<Rightarrow> string \<Rightarrow> ('v, 'a) attr py" where
  "wrapper_attr own native name = (case own name of Some a \<Rightarrow> Inr a | None \<Rightarrow> delegator_getattr native name)"


section \<open>Scylla\<close>

text \<open>A server of an upstream is its address; \<open>None\<close> marks a removed one.\<close>

record scylla_config =
  contact_points :: "string list"
  scylla_port :: int
  load_balance_dc_aware :: "string option"

definition address_part :: "string \<Rightarrow> nat \<Rightarrow> string py" where
  "address_part address i = (let ws = split_on CHR '':'' address in if i < length ws then Inr (ws ! i) else Inl IndexError)"

definition create_monitored_cluster :: "bool \<Rightarrow> string option \<Rightarrow> string \<Rightarrow> string option list \<Rightarrow> scylla_config py" where
  "create_monitored_cluster cross_dc datacenter cluster_name servers =
     (let scylla_servers = List.map_filter id servers;
          scylla_servers_address = map (\<lambda>s. hd (split_on CHR '':'' s)) scylla_servers
      in case scylla_servers of
           [] \<Rightarrow> Inl IndexError
         | upstream_server # _ \<Rightarrow>
             py_bind (address_part upstream_server 1) (\<lambda>port.
               case py_int 10 port of
                 None \<Rightarrow> Inl ValueError
               | Some p \<Rightarrow> Inr \<lparr>contact_points = scylla_servers_address, scylla_port = p,
                   load_balance_dc_aware = (if cross_dc then None else datacenter)\<rparr>))"

text \<open>\<open>initialize_app\<close>: the clusters registered, in order, and the exception that ended the loop, if any.\<close>

fun create_clusters :: "bool \<Rightarrow> string option \<Rightarrow> (string \<Rightarrow> string option list option) \<Rightarrow> string list \<Rightarrow>
    (string, scylla_config) dict \<Rightarrow> (string, scylla_config) dict py" where
  "create_clusters cross_dc datacenter upstreams [] clusters = Inr clusters"
| "create_clusters cross_dc datacenter upstreams (c # cs) clusters =
     (case upstreams (''scylla-'' @ c) of
        None \<Rightarrow> create_clusters cross_dc datacenter upstreams cs clusters
      | Some servers \<Rightarrow>
          py_bind (create_monitored_cluster cross_dc datacenter c servers)
            (\<lambda>cfg. create_clusters cross_dc datacenter upstreams cs (dict_set clusters c cfg)))"

definition scylla_initialize_app :: "bool \<Rightarrow> bool \<Rightarrow> string option \<Rightarrow> (string \<Rightarrow> string option list option) \<Rightarrow> string list \<Rightarrow>
    (string, scylla_config) dict py" where
  "scylla_initialize_app imported cross_dc datacenter upstreams scylla_clusters =
     (if scylla_clusters = [] then Inr []
      else if \<not> imported then Inl (PyException ''ImportError'')
      else if datacenter = None then Inl AssertionError
      else create_clusters cross_dc datacenter upstreams scylla_clusters [])"

definition get_scylla_cluster :: "(string, scylla_config) dict \<Rightarrow> string \<Rightarrow> scylla_config option" where
  "get_scylla_cluster clusters cluster_name = dict_get clusters cluster_name"

text \<open>The sessions a decorated cluster knows, by identity, and those whose native session was closed.\<close>

record cluster_sessions =
  sessions :: "nat list"
  native_closed :: "nat list"

definition create_session :: "nat \<Rightarrow> bool \<Rightarrow> cluster_sessions \<Rightarrow> cluster_sessions py" where
  "create_session s native_ok c =
     (if native_ok then Inr (c\<lparr>sessions := (if s \<in> set (sessions c) then sessions c else sessions c @ [s])\<rparr>)
      else Inl (PyException ''CassException''))"

definition close_session :: "nat \<Rightarrow> cluster_sessions \<Rightarrow> cluster_sessions" where
  "close_session s c = c\<lparr>sessions := removeAll s (sessions c), native_closed := native_closed c @ [s]\<rparr>"

text \<open>
  \<open>report_metrics\<close>: \<open>metrics\<close> gives the fields of the metrics of a session, or \<open>None\<close> when it raises; a field
  without a value is one that \<open>float\<close> or the client refuses.
\<close>

definition report_fields :: "string list \<Rightarrow> (string \<times> rat option) list \<Rightarrow> (string \<times> rat) list" where
  "report_fields allowed fs = List.map_filter (\<lambda>(f, v). if f \<in> set allowed then map_option (Pair f) v else None) fs"

fun report_metrics :: "string list \<Rightarrow> (nat \<Rightarrow> (string \<times> rat option) list option) \<Rightarrow> nat list \<Rightarrow> (nat \<times> string \<times> rat) list" where
  "report_metrics allowed metrics [] = []"
| "report_metrics allowed metrics (s # ss) =
     (case metrics s of
        None \<Rightarrow> report_metrics allowed metrics ss
      | Some fs \<Rightarrow> map (Pair s) (report_fields allowed fs) @ report_metrics allowed metrics ss)"

section \<open>Kafka\<close>

text \<open>Settings of a producer are a dict; a cluster with empty settings gets no producer.\<close>

fun kafka_producers :: "(string \<Rightarrow> string option list option) \<Rightarrow> (string \<times> (string, string) dict) list \<Rightarrow>
    (string, (string, string) dict) dict \<Rightarrow> (string, (string, string) dict) dict py" where
  "kafka_producers upstreams [] ps = Inr ps"
| "kafka_producers upstreams ((cluster_name, settings) # cs) ps =
     (if settings = [] then kafka_producers upstreams cs ps
      else case upstreams (''kafka-'' @ cluster_name) of
             None \<Rightarrow> Inl (PyException ''AttributeError'')
           | Some servers \<Rightarrow>
               kafka_producers upstreams cs
                 (dict_set ps cluster_name (dict_set settings ''bootstrap_servers'' (join_with '','' (List.map_filter id servers)))))"

text \<open>The lookup that the integration installs as \<open>app.get_kafka_producer\<close>.\<close>

definition get_kafka_producer :: "(string, 'p) dict \<Rightarrow> string \<Rightarrow> 'p option" where
  "get_kafka_producer producers producer_name = dict_get producers producer_name"

section \<open>Sentry\<close>

record sentry_options =
  so_dsn :: "string option"
  sentry_max_breadcrumbs :: int
  sentry_sample_rate :: rat
  sentry_enable_tracing :: "bool option"
  sentry_traces_sample_rate :: "rat option"
  sentry_in_app_include :: string
  sentry_exception_integration :: bool
  sentry_logging_integration :: bool
  sentry_profiles_sample_rate :: "rat option"

text \<open>The arguments of \<open>sentry_sdk.init\<close>; its integrations and the ignored exceptions are named by their classes.\<close>

record sentry_settings =
  ss_dsn :: string
  max_breadcrumbs :: int
  default_integrations :: bool
  auto_enabling_integrations :: bool
  sdk_integrations :: "string list"
  sample_rate :: rat
  enable_tracing :: "bool option"
  traces_sample_rate :: "rat option"
  in_app_include :: "string list"
  profiles_sample_rate :: "rat option"
  ignore_errors :: "string list"

text \<open>\<open>ignored\<close> is the result of the application's \<open>get_sentry_ignored_exceptions\<close>, if it has that method.\<close>

definition sentry_initialize_app :: "sentry_options \<Rightarrow> string list option \<Rightarrow> sentry_settings option" where
  "sentry_initialize_app opts ignored =
     (if \<not> truthy (so_dsn opts) then None
      else Some \<lparr>ss_dsn = the (so_dsn opts), max_breadcrumbs = sentry_max_breadcrumbs opts,
        default_integrations = False, auto_enabling_integrations = False,
        sdk_integrations =
          [''AioHttpIntegration'', ''FastApiIntegration'', ''StarletteIntegration'', ''AtexitIntegration'',
           ''ModulesIntegration'', ''StdlibIntegration''] @
          (if sentry_exception_integration opts then [''ExcepthookIntegration''] else []) @
          (if sentry_logging_integration opts then [''LoggingIntegration''] else []),
        sample_rate = sentry_sample_rate opts, enable_tracing = sentry_enable_tracing opts,
        traces_sample_rate = sentry_traces_sample_rate opts,
        in_app_include = filter (\<lambda>s. s \<noteq> []) (split_on CHR '','' (sentry_in_app_include opts)),
        profiles_sample_rate = sentry_profiles_sample_rate opts,
        ignore_errors = [''HTTPException'', ''FailFastError'', ''OutOfRequestTime'', ''ClientDisconnect''] @
          (case ignored of Some es \<Rightarrow> es | None \<Rightarrow> [])\<rparr>)"

text \<open>A handler with a Sentry logger of its own sets it up when Sentry is on.\<close>

definition sentry_initialize_handler :: "sentry_options \<Rightarrow> ('h \<Rightarrow> 'h) option \<Rightarrow> 'h \<Rightarrow> 'h" where
  "sentry_initialize_handler opts initialize_sentry_logger h =
     (if \<not> truthy (so_dsn opts) then h else case initialize_sentry_logger of Some f \<Rightarrow> f h | None \<Rightarrow> h)"

record sentry_event =
  ev_trace :: "(string, string option) dict option"
  ev_extra :: "(string, string option) dict option"

definition before_send :: "sentry_event \<Rightarrow> sentry_event" where
  "before_send event =
     (let tr = (case ev_trace event of Some d \<Rightarrow> d | None \<Rightarrow> []);
          old_trace_id = (case dict_get tr ''trace_id'' of Some v \<Rightarrow> v | None \<Rightarrow> None);
          extra = (case ev_extra event of Some d \<Rightarrow> d | None \<Rightarrow> []);
          new_trace_id = (case dict_get extra ''request_id'' of Some v \<Rightarrow> v | None \<Rightarrow> old_trace_id)
      in event\<lparr>ev_trace := Some (if truthy new_trace_id then dict_set tr ''trace_id'' new_trace_id else tr)\<rparr>)"

text \<open>\<open>sentry_context\<close> puts the id of a request among the extras that events of its scope carry.\<close>

definition sentry_context :: "string option \<Rightarrow> string \<Rightarrow> (string, string option) dict \<Rightarrow> (string, string option) dict" where
  "sentry_context sentry_dsn rid extras = (if truthy sentry_dsn then dict_set extras ''request_id'' (Some rid) else extras)"

section \<open>Slow callbacks\<close>

record callback_stats =
  current_callback_start :: "rat option"
  callback_start :: "rat option"
  cb_gc_start :: "rat option"
  gc_sum_duration :: rat

definition new_callback_stats :: callback_stats where
  "new_callback_stats = \<lparr>current_callback_start = None, callback_start = None, cb_gc_start = None, gc_sum_duration = 0\<rparr>"

datatype gc_phase = GcStart | GcStop

definition long_gc_tracker :: "gc_phase \<times> rat \<Rightarrow> callback_stats \<Rightarrow> callback_stats" where
  "long_gc_tracker ev s =
     (case current_callback_start s of
        None \<Rightarrow> s
      | Some c \<Rightarrow>
          (case ev of
             (GcStart, now) \<Rightarrow> s\<lparr>cb_gc_start := Some now\<rparr>
           | (GcStop, now) \<Rightarrow>
               (case cb_gc_start s of
                  None \<Rightarrow> s
                | Some g \<Rightarrow>
                    (if callback_start s = Some c then s\<lparr>gc_sum_duration := gc_sum_duration s + (now - g)\<rparr>
                     else s\<lparr>callback_start := Some c, gc_sum_duration := now - g\<rparr>))))"

datatype slow_event = StatsdTime int | SlowTaskWarning rat | SentryMessage rat

definition log_slow_tasks :: "rat option \<Rightarrow> bool \<Rightarrow> rat \<Rightarrow> slow_event list" where
  "log_slow_tasks critical_threshold sentry_dsn delta =
     [StatsdTime (trunc (delta * 1000)), SlowTaskWarning (delta * 1000)] @
     (case critical_threshold of
        Some c \<Rightarrow> if c \<noteq> 0 \<and> delta \<ge> c \<and> sentry_dsn then [SentryMessage (delta * 1000)] else []
      | None \<Rightarrow> [])"

text \<open>
  \<open>run\<close>, which replaces \<open>Handle._run\<close>: \<open>now\<close> is \<open>time.time()\<close>, \<open>started\<close> and \<open>ended\<close> the loop's clock, and the
  collections that happen meanwhile call \<open>long_gc_tracker\<close>.
\<close>

definition run_tracked :: "rat \<Rightarrow> rat option \<Rightarrow> bool \<Rightarrow> rat \<Rightarrow> rat \<Rightarrow> rat \<Rightarrow> (gc_phase \<times> rat) list \<Rightarrow> callback_stats \<Rightarrow> slow_event list \<times> callback_stats" where
  "run_tracked threshold critical sentry_dsn now started ended gcs s =
     (let s = fold long_gc_tracker gcs (s\<lparr>current_callback_start := Some now\<rparr>);
          delta = ended - started - gc_sum_duration s;
          s = s\<lparr>gc_sum_duration := 0, current_callback_start := None\<rparr>
      in (if delta \<ge> threshold then log_slow_tasks critical sentry_dsn delta else [], s))"

section \<open>Lemmas\<close>

lemma create_clusters_names:
  "create_clusters cd dc ups cs acc = Inr clusters \<Longrightarrow>
    dict_get clusters c = (if c \<in> set cs \<and> ups (''scylla-'' @ c) \<noteq> None
      then (case create_monitored_cluster cd dc c (the (ups (''scylla-'' @ c))) of Inr cfg \<Rightarrow> Some cfg | Inl _ \<Rightarrow> None)
      else dict_get acc c)"
proof (induction cs arbitrary: acc)
  case (Cons d cs)
  show ?case
  proof (cases "ups (''scylla-'' @ d)")
    case None
    with Cons show ?thesis by auto
  next
    case (Some servers)
    with Cons.prems obtain cfg where "create_monitored_cluster cd dc d servers = Inr cfg"
      and "create_clusters cd dc ups cs (dict_set acc d cfg) = Inr clusters" by (auto simp: py_bind_Inr_conv)
    with Some Cons.IH [of "dict_set acc d cfg"] show ?thesis by auto
  qed
qed simp

lemma report_metrics_mem:
  "(s, f, v) \<in> set (report_metrics allowed metrics ss) \<longleftrightarrow>
     s \<in> set ss \<and> f \<in> set allowed \<and> (\<exists>fs. metrics s = Some fs \<and> (f, Some v) \<in> set fs)"
proof (induction ss)
  case (Cons t ss)
  then show ?case by (auto simp: report_fields_def map_filter_def split: option.splits if_splits) (force+)
qed simp

text \<open>A run of collections: each one starts and stops, one after the other.\<close>

fun collections :: "(rat \<times> rat) list \<Rightarrow> (gc_phase \<times> rat) list" where
  "collections [] = []"
| "collections ((a, b) # gs) = (GcStart, a) # (GcStop, b) # collections gs"

lemma track_collections:
  assumes "current_callback_start s = Some c" and "callback_start s = Some c \<or> gc_sum_duration s = 0"
  shows "gc_sum_duration (fold long_gc_tracker (collections gs) s) = gc_sum_duration s + (\<Sum>(a, b)\<leftarrow>gs. b - a)"
  using assms
proof (induction gs arbitrary: s)
  case (Cons g gs)
  obtain a b where g: "g = (a, b)" by (cases g)
  let ?s = "long_gc_tracker (GcStop, b) (long_gc_tracker (GcStart, a) s)"
  have "current_callback_start ?s = Some c" "callback_start ?s = Some c" "gc_sum_duration ?s = gc_sum_duration s + (b - a)"
    using Cons.prems by (auto simp: long_gc_tracker_def)
  with Cons.IH [of ?s] g show ?case by simp
qed simp

text \<open>Between callbacks nothing is summed up, whatever collections happen there.\<close>

definition tracker_idle :: "callback_stats \<Rightarrow> bool" where
  "tracker_idle s \<longleftrightarrow> current_callback_start s = None \<and> gc_sum_duration s = 0"

inductive tracked :: "callback_stats \<Rightarrow> bool" where
  tracked_new: "tracked new_callback_stats"
| tracked_gc: "tracked s \<Longrightarrow> tracked (long_gc_tracker ev s)"
| tracked_run: "tracked s \<Longrightarrow> tracked (snd (run_tracked threshold critical dsn now started ended gcs s))"

lemma tracked_idle: "tracked s \<Longrightarrow> tracker_idle s"
  by (induction rule: tracked.induct) (auto simp: tracker_idle_def new_callback_stats_def long_gc_tracker_def run_tracked_def Let_def)

section \<open>Properties\<close>

text \<open>C30. 
  A callback is reported as slow exactly when the time it took, less the garbage collections that ran
  inside it, reaches the threshold, and it is reported with that time; collections of other callbacks
  and between callbacks never count.
\<close>

theorem slow_callback_excludes_gc:
  assumes "tracked s"
  shows "fst (run_tracked threshold critical sentry_dsn now started ended (collections gs) s) =
    (let own_time = ended - started - (\<Sum>(a, b)\<leftarrow>gs. b - a)
     in if own_time \<ge> threshold then log_slow_tasks critical sentry_dsn own_time else [])"
  using tracked_idle [OF assms] track_collections [of "s\<lparr>current_callback_start := Some now\<rparr>" now gs]
  by (simp add: run_tracked_def tracker_idle_def Let_def)

theorem slow_callback_excludes_gc_witness:
  "fst (run_tracked (1/4) (Some 1) True 100 10 12 (collections [(100, 101), (101, 101 + 1/2)]) new_callback_stats) =
     [StatsdTime 500, SlowTaskWarning 500]"
  using slow_callback_excludes_gc [OF tracked_new, of "1/4" "Some 1" True 100 10 12 "[(100, 101), (101, 101 + 1/2)]"]
  by (simp add: Let_def log_slow_tasks_def trunc_def)

text \<open>
  The Scylla integration registers exactly the configured clusters that service discovery knows, each
  with the servers of its upstream.
\<close>

theorem scylla_clusters_registered:
  assumes "scylla_initialize_app True cross_dc (Some dc) upstreams cs = Inr clusters"
  shows "get_scylla_cluster clusters c =
    (if c \<in> set cs then Option.bind (upstreams (''scylla-'' @ c)) (\<lambda>servers.
       case create_monitored_cluster cross_dc (Some dc) c servers of Inr cfg \<Rightarrow> Some cfg | Inl _ \<Rightarrow> None) else None)"
  using assms create_clusters_names [of cross_dc "Some dc" upstreams cs "[]" clusters c]
  by (auto simp: scylla_initialize_app_def get_scylla_cluster_def dict_get_def split: if_splits option.splits)

theorem scylla_clusters_registered_witness:
  "get_scylla_cluster [(''main'', \<lparr>contact_points = [''10.0.0.1''], scylla_port = 9042, load_balance_dc_aware = Some ''dc1''\<rparr>)] ''other'' = None"
proof -
  have "scylla_initialize_app True False (Some ''dc1'') [''scylla-main'' \<mapsto> [None, Some ''10.0.0.1:9042'']] [''main'', ''other''] =
      Inr [(''main'', \<lparr>contact_points = [''10.0.0.1''], scylla_port = 9042, load_balance_dc_aware = Some ''dc1''\<rparr>)]"
    by code_simp
  from scylla_clusters_registered [OF this, of "''other''"] show ?thesis by simp
qed

text \<open>An upstream without servers raises \<open>IndexError\<close>: the check for missing servers comes after the first one was taken.\<close>

lemma scylla_without_servers_raises:
  "list_all (\<lambda>s. s = None) servers \<Longrightarrow> create_monitored_cluster cross_dc dc c servers = Inl IndexError"
proof -
  assume "list_all (\<lambda>s. s = None) servers"
  then have "List.map_filter id servers = []" by (induction servers) (auto simp: map_filter_simps)
  then show ?thesis by (simp add: create_monitored_cluster_def)
qed

lemma before_send_trace_id:
  "Option.bind (ev_trace (before_send ev)) (\<lambda>d. Option.bind (dict_get d ''trace_id'') id) =
   (let old = Option.bind (ev_trace ev) (\<lambda>d. Option.bind (dict_get d ''trace_id'') id);
        rid = Option.bind (ev_extra ev) (\<lambda>d. Option.bind (dict_get d ''request_id'') id)
    in if truthy rid then rid else old)"
  by (cases "ev_trace ev"; cases "ev_extra ev")
    (auto simp: before_send_def Let_def truthy_def split: option.splits)

text \<open>
  With Sentry configured, an event inside a request is reported under the id of the request as its
  trace id, whatever extras and trace the event had; without a request id it keeps its trace id.
\<close>

theorem sentry_events_carry_request_id:
  assumes "truthy sentry_dsn"
  shows "Option.bind (ev_trace (before_send \<lparr>ev_trace = tr, ev_extra = Some (sentry_context sentry_dsn rid extras)\<rparr>))
      (\<lambda>d. Option.bind (dict_get d ''trace_id'') id) =
    (if rid \<noteq> [] then Some rid else Option.bind tr (\<lambda>d. Option.bind (dict_get d ''trace_id'') id))"
  using assms by (simp add: before_send_trace_id sentry_context_def)

theorem sentry_events_carry_request_id_witness:
  "Option.bind (ev_trace (before_send \<lparr>ev_trace = None, ev_extra = Some (sentry_context (Some ''dsn'') ''15'' [])\<rparr>))
      (\<lambda>d. Option.bind (dict_get d ''trace_id'') id) = Some ''15''"
  using sentry_events_carry_request_id [of "Some ''dsn''" None "''15''" "[]"] by simp

text \<open>
  The packages that Sentry takes for the application's own are the non-empty comma-separated names of the
  option; joined again they give the option, when it names no empty package.
\<close>

lemma sentry_in_app_names:
  assumes "sentry_initialize_app opts ignored = Some s"
  shows "list_all (\<lambda>name. name \<noteq> [] \<and> CHR '','' \<notin> set name) (in_app_include s)"
    and "[] \<notin> set (split_on CHR '','' (sentry_in_app_include opts)) \<Longrightarrow> join_with '','' (in_app_include s) = sentry_in_app_include opts"
proof -
  have s: "in_app_include s = filter (\<lambda>s. s \<noteq> []) (split_on CHR '','' (sentry_in_app_include opts))"
    using assms by (auto simp: sentry_initialize_app_def split: if_splits)
  show "list_all (\<lambda>name. name \<noteq> [] \<and> CHR '','' \<notin> set name) (in_app_include s)"
    using split_on_free [of _ "CHR '',''" "sentry_in_app_include opts"] by (auto simp: s list_all_iff)
  show "join_with '','' (in_app_include s) = sentry_in_app_include opts"
    if "[] \<notin> set (split_on CHR '','' (sentry_in_app_include opts))"
  proof -
    have "in_app_include s = split_on CHR '','' (sentry_in_app_include opts)"
      unfolding s by (rule filter_True) (use that in auto)
    then show ?thesis by (simp add: join_split_on)
  qed
qed

lemma sentry_ignores_frontik_errors:
  assumes "sentry_initialize_app opts ignored = Some s"
  shows "{''HTTPException'', ''FailFastError'', ''OutOfRequestTime'', ''ClientDisconnect''} \<subseteq> set (ignore_errors s)"
  using assms by (auto simp: sentry_initialize_app_def split: if_splits)

text \<open>A wrapper answers like the wrapped object for every name it does not override.\<close>

lemma wrapper_transparent:
  assumes "own name = None"
  shows "wrapper_attr own native name = (case native name of Some a \<Rightarrow> Inr a | None \<Rightarrow> Inl (PyException ''AttributeError''))"
  using assms by (auto simp: wrapper_attr_def delegator_getattr_def split: option.splits attr.splits)

end
