(* ===== verification/App_Routes.thy ===== *)
theory App_Routes
  imports App Dev_Routes
begin

text \<open>
  The constructor of \<open>FrontikApplication\<close> (\<open>frontik/app.py\<close>) and the route table it leaves: the pages are
  imported and sorted, then every router but the default one is included into the default one, which
  publishes a second entry for each of its routes behind the sorted ones, and the documentation routes
  follow. FastAPI's \<open>include_router\<close> and \<open>setup\<close> are arguments: the calls of \<open>add_api_route\<close> and
  \<open>add_route\<close> that they make on the default router.
\<close>

section \<open>The constructor\<close>

type_synonym route_call = "string \<times> (string \<Rightarrow> route)"

datatype module_arg = DefaultModule | NoModule | NamedModule string

record construction =
  cn_dev :: dev_env
  include_calls :: "routing \<Rightarrow> nat \<Rightarrow> route_call list py"
  setup_calls :: "route_call list"
  default_router :: nat
  class_module :: string
  on_demand_routing :: bool
  openapi_enabled :: bool
  routes_file :: "map_file option"

record application =
  start_time :: rat
  app_module_name :: string
  app_name :: string
  route_manager :: "dev_manager option"
  app_statsd :: statsd_client
  app_shared :: shared_state
  app_routing :: routing
  middleware :: "string list"
  exception_handlers :: "(string \<times> string) list"

definition module_of :: "construction \<Rightarrow> module_arg \<Rightarrow> string" where
  "module_of c arg = (case arg of NamedModule s \<Rightarrow> s | _ \<Rightarrow> class_module c)"

text \<open>
  The import of the pages, on demand or at once; \<open>None\<close> as the module name imports nothing. On demand, the
  fake routes are included under \<open>/fake\<close> into the router that FastAPI made for the application, which
  \<open>self.router = router\<close> replaces right after: that inclusion has no effect on the table.
\<close>

definition load_pages :: "construction \<Rightarrow> module_arg \<Rightarrow> routing \<Rightarrow> (dev_manager option \<times> routing) py" where
  "load_pages c arg st =
     (let e = cn_dev c in
      if arg = NoModule then Inr (None, st)
      else if on_demand_routing c then
        py_bind (dev_import_all_pages e (module_of c arg) (new_dev_manager st (routes_file c)))
          (\<lambda>mgr. Inr (Some mgr, dv_routing mgr))
      else Inr (None, import_all_pages (find_spec e) (import_module e) (iter_submodules e) (module_of c arg) st))"

definition include_router :: "nat \<Rightarrow> route_call list \<Rightarrow> routing \<Rightarrow> routing" where
  "include_router self calls st = fold (\<lambda>(path, mk) st. add_api_route mk self path st) calls st"

fun include_routers :: "construction \<Rightarrow> nat list \<Rightarrow> routing \<Rightarrow> routing py" where
  "include_routers c [] st = Inr st"
| "include_routers c (r # rs) st =
     (if r = default_router c then include_routers c rs st
      else py_bind (include_calls c st r) (\<lambda>calls. include_routers c rs (include_router (default_router c) calls st)))"

definition setup_openapi :: "construction \<Rightarrow> routing \<Rightarrow> routing" where
  "setup_openapi c st = fold (\<lambda>(path, mk) st. add_route mk (default_router c) path st) (setup_calls c) st"

definition build_routes :: "construction \<Rightarrow> module_arg \<Rightarrow> routing \<Rightarrow> (dev_manager option \<times> routing) py" where
  "build_routes c arg st =
     py_bind (load_pages c arg st) (\<lambda>(mgr, st).
       py_bind (include_routers c (router_ids st) st) (\<lambda>st.
         Inr (mgr, if openapi_enabled c then setup_openapi c st else st)))"

definition frontik_application_init ::
  "construction \<Rightarrow> module_arg \<Rightarrow> string option \<Rightarrow> (string \<Rightarrow> statsd_client py) \<Rightarrow> nat \<Rightarrow> rat \<Rightarrow> routing \<Rightarrow> application py" where
  "frontik_application_init c arg configured_name make_statsd workers now st =
     (let name = service_name configured_name (module_of c arg) in
      py_bind (make_statsd name) (\<lambda>statsd.
        py_bind (build_routes c arg st) (\<lambda>(mgr, st).
          Inr \<lparr>start_time = now, app_module_name = module_of c arg, app_name = name, route_manager = mgr, app_statsd = statsd,
            app_shared = new_shared_state workers, app_routing = st, middleware = [''FrontikMiddleware''],
            exception_handlers = [(''FailFastError'', ''fail_fast_error_handler''),
              (''ClientDisconnect'', ''client_disconnect_error_handler''),
              (''OutOfRequestTime'', ''out_of_request_time_error_handler''),
              (''Exception'', ''default_exception_handler'')]\<rparr>)))"

text \<open>The page \<open>/status\<close> answers with the status of the application it runs in.\<close>

definition get_status :: "application \<Rightarrow> rat \<Rightarrow> string \<Rightarrow> string \<Rightarrow> (string, string) dict py" where
  "get_status app now datacenter version = get_current_status (app_shared app) (now - start_time app) datacenter version"

text \<open>
  \<open>patch_anyio\<close> replaces the function that runs a synchronous dependency in a thread, where the library
  is installed: from then on such a dependency raises.
\<close>

definition anyio_noop :: "'f \<Rightarrow> 'r py" where
  "anyio_noop f = Inl (PyException ''RuntimeError'')"

definition patch_anyio :: "('f \<Rightarrow> 'r py) option \<Rightarrow> ('f \<Rightarrow> 'r py) option" where
  "patch_anyio run_sync = (case run_sync of Some _ \<Rightarrow> Some anyio_noop | None \<Rightarrow> None)"

text \<open>
  The command of \<open>util/generate_openapi.py\<close>: the pages are imported and the routes of all routers are
  described in a file beside the module; \<open>get_openapi\<close> is FastAPI's.
\<close>

definition openapi_routes :: "routing \<Rightarrow> route_ref list" where
  "openapi_routes st = concat (map (router_routes st) (router_ids st))"

definition generate_openapi ::
  "dev_env \<Rightarrow> (string \<Rightarrow> string \<Rightarrow> route list \<Rightarrow> 'doc) \<Rightarrow> string \<Rightarrow> string \<Rightarrow> string \<Rightarrow> routing \<Rightarrow> string \<times> 'doc \<times> routing" where
  "generate_openapi e get_openapi parent_path name version st =
     (let st = import_all_pages (find_spec e) (import_module e) (iter_submodules e) name st;
          routes = map (heap st) (openapi_routes st)
      in (parent_path @ ''/docs/openapi.yaml'', get_openapi (name @ '' OpenAPI'') version routes, st))"

section \<open>Registration keeps the table well formed\<close>

text \<open>Every route of a router is in the table, under a path that is stripped already.\<close>

definition published :: "routing \<Rightarrow> bool" where
  "published st \<longleftrightarrow> (\<forall>r\<in>set (router_ids st). \<forall>q\<in>set (router_routes st r). q \<in> set (fastapi_routes st) \<and>
     (r_api (heap st q) \<longrightarrow> normalize_path (r_path (heap st q)) = r_path (heap st q)))"

definition app_table :: "routing \<Rightarrow> bool" where
  "app_table st \<longleftrightarrow> routing_ok st \<and> published st"

lemma routing_ok_add:
  assumes "routing_ok st"
  shows "routing_ok (publish_last self (super_add mk self path st))"
  using assms by (fastforce simp: routing_ok_def publish_last_def super_add_def fallback_refs_def)

lemma published_add:
  assumes "routing_ok st" "published st" "r_api (mk path) \<Longrightarrow> normalize_path (r_path (mk path)) = r_path (mk path)"
  shows "published (publish_last self (super_add mk self path st))"
proof -
  have "q \<noteq> next_ref st" if "q \<in> set (fastapi_routes st)" for q using assms(1) that by (auto simp: routing_ok_def)
  then show ?thesis using assms(2,3) by (auto simp: published_def publish_last_def super_add_def split: if_splits)
qed

lemma app_table_add:
  assumes "app_table st" "r_api (mk path) \<Longrightarrow> normalize_path (r_path (mk path)) = r_path (mk path)"
  shows "app_table (publish_last self (super_add mk self path st))"
  using assms routing_ok_add published_add unfolding app_table_def by blast

lemma app_table_ops:
  assumes "app_table st" "\<And>p. r_path (mk p) = p"
  shows "app_table (add_api_route mk self path st)" "app_table (add_route mk self path st)"
  using assms by (auto simp: add_api_route_def add_route_def intro!: app_table_add)

lemma app_table_mount:
  assumes "app_table st" "\<not> r_api (mk path)"
  shows "app_table (mount mk self path st)"
  using assms by (auto simp: mount_def intro!: app_table_add)

lemma app_table_router:
  assumes "app_table st"
  shows "app_table (frontik_router_init self st)"
  using assms by (auto simp: app_table_def published_def routing_ok_def fallback_refs_def frontik_router_init_def)

lemma app_table_sort:
  assumes "app_table st"
  shows "app_table (st\<lparr>fastapi_routes := sort_routes (heap st) (fastapi_routes st)\<rparr>)"
  using assms by (auto simp: app_table_def published_def routing_ok_def fallback_refs_def sort_routes_def)

lemma app_table_import:
  assumes "app_table st" "\<And>name st. app_table st \<Longrightarrow> app_table (imp name st)"
  shows "app_table (import_all_pages spec imp subs app_module st)"
proof -
  have "app_table (fold (\<lambda>name st. if spec name then imp name st else st) names s)" if "app_table s" for names s
    using that assms(2) by (induction names arbitrary: s) auto
  then show ?thesis using assms by (simp add: import_all_pages_def Let_def app_table_sort)
qed

text \<open>The import on demand keeps the table well formed too: its fake routes stay outside of it.\<close>

lemma app_table_fake:
  assumes "app_table (dv_routing mgr)"
  shows "app_table (dv_routing (add_fake_route e rc mgr))"
proof -
  have "q \<noteq> next_ref (dv_routing mgr)" if "q \<in> set (fastapi_routes (dv_routing mgr)) \<union> fallback_refs (dv_routing mgr)" for q
    using assms that by (auto simp: app_table_def routing_ok_def)
  then show ?thesis using assms
    by (fastforce simp: app_table_def routing_ok_def published_def add_fake_route_def fallback_refs_def Let_def)
qed

lemma app_table_process_routes:
  assumes "process_routes e m rs mgr = Inr (data, mgr')" "app_table (dv_routing mgr)"
  shows "app_table (dv_routing mgr')"
  using assms
  by (induction e m rs mgr arbitrary: data mgr' rule: process_routes.induct)
    (auto simp: Let_def py_bind_def app_table_fake split: if_splits sum.splits)

lemma app_table_load_cached:
  assumes "app_table (dv_routing mgr)"
  shows "app_table (dv_routing (snd (load_cached e del rcs mgr)))"
  using assms
  by (induction e del rcs mgr rule: load_cached.induct) (auto simp: app_table_fake split: prod.split)

lemma app_table_sort_both: "app_table (dv_routing mgr) \<Longrightarrow> app_table (dv_routing (sort_both mgr))"
  by (simp add: sort_both_def Let_def app_table_sort)

lemma update_file_cache_routing: "update_file_cache e mgr = Inr mgr' \<Longrightarrow> dv_routing mgr' = dv_routing mgr"
  by (auto simp: update_file_cache_def py_bind_def split: sum.splits)

lemma app_table_imports:
  assumes "app_table (dv_routing mgr)" "\<And>name s. app_table s \<Longrightarrow> app_table (import_module e name s)"
  shows "app_table (dv_routing (fold (import_into e) names mgr))"
  using assms(1) by (induction names arbitrary: mgr) (auto simp: import_into_def assms(2))

lemma app_table_create_map:
  assumes "create_route_map_module e app_module mgr = Inr mgr'" "app_table (dv_routing mgr)"
    "\<And>name s. app_table s \<Longrightarrow> app_table (import_module e name s)"
  shows "app_table (dv_routing mgr')"
  using assms(1) app_table_import [OF assms(2,3), where spec = "find_spec e" and subs = "iter_submodules e" and app_module = app_module]
  by (auto simp: create_route_map_module_def process_fastapi_routes_to_dev_route_def Let_def py_bind_def
      dest!: update_file_cache_routing app_table_process_routes split: sum.splits)

lemma app_table_add_to_cache:
  assumes "add_routes_to_cache e names mgr = Inr mgr'" "app_table (dv_routing mgr)"
    "\<And>name s. app_table s \<Longrightarrow> app_table (import_module e name s)"
  shows "app_table (dv_routing mgr')"
  using assms(1) app_table_imports [OF assms(2,3), of names]
  by (auto simp: add_routes_to_cache_def process_fastapi_routes_to_dev_route_def Let_def py_bind_def
      dest!: app_table_process_routes split: sum.splits)

lemma app_table_dev_import:
  assumes "dev_import_all_pages e app_module mgr = Inr mgr'" "app_table (dv_routing mgr)"
    "\<And>name s. app_table s \<Longrightarrow> app_table (import_module e name s)"
  shows "app_table (dv_routing mgr')"
proof -
  let ?m = "mgr\<lparr>py_files_mtime := map_py_files_mtime (walk e (''/source-site-packages/'' @ app_module @ ''/pages'')) (get_frontik_folder_len e)\<rparr>"
  have m: "app_table (dv_routing ?m)" using assms(2) by simp
  show ?thesis
  proof (cases "route_map_file ?m")
    case None
    then have "create_route_map_module e app_module ?m = Inr mgr'" using assms(1) by (simp add: dev_import_all_pages_def Let_def)
    then show ?thesis using app_table_create_map [OF _ m assms(3)] by blast
  next
    case (Some mf)
    let ?m1 = "fold (import_into e) (map rc_endpoint (mf_mandatory_for_import mf)) (?m\<lparr>exclude_pages_to_add := mf_exclude_pages_to_add mf\<rparr>)"
    have m1: "app_table (dv_routing ?m1)" using app_table_imports [OF _ assms(3)] m by simp
    define diff where "diff = get_diff_cache_and_fs (set_order e) (mf_routes_map mf) (dict_values (py_files_mtime ?m1)) (exclude_pages_to_add ?m1)"
    obtain upd m2 where l: "load_cached e (need_delete diff) (mf_routes_map mf) ?m1 = (upd, m2)" by force
    define to_add where "to_add = map pm_endpoint (dict_values (need_add diff)) @ map rc_endpoint upd"
    have "(case load_cached e (need_delete diff) (mf_routes_map mf) ?m1 of (need_to_update, mgr) \<Rightarrow>
        let to_add = map pm_endpoint (dict_values (need_add diff)) @ map rc_endpoint need_to_update
        in if length to_add > MAX_CHANGED_FILES_COUNT_TO_INVALIDATE then create_route_map_module e app_module mgr
           else py_bind (if to_add \<noteq> [] then add_routes_to_cache e to_add mgr else Inr mgr) (\<lambda>mgr. update_file_cache e (sort_both mgr))) = Inr mgr'"
      using assms(1) Some unfolding dev_import_all_pages_def diff_def by (simp only: Let_def option.case)
    then have "(if length to_add > MAX_CHANGED_FILES_COUNT_TO_INVALIDATE then create_route_map_module e app_module m2
         else py_bind (if to_add \<noteq> [] then add_routes_to_cache e to_add m2 else Inr m2) (\<lambda>mgr. update_file_cache e (sort_both mgr))) = Inr mgr'"
      unfolding l prod.case to_add_def Let_def .
    then have c: "create_route_map_module e app_module m2 = Inr mgr' \<or>
        (\<exists>m3. (add_routes_to_cache e to_add m2 = Inr m3 \<or> m3 = m2) \<and> update_file_cache e (sort_both m3) = Inr mgr')"
      by (auto simp: py_bind_def split: if_splits sum.splits)
    have m2: "app_table (dv_routing m2)" using app_table_load_cached [OF m1] l by (metis snd_conv)
    from c show ?thesis
      using app_table_create_map [OF _ m2 assms(3)] app_table_add_to_cache [OF _ m2 assms(3)] m2
        app_table_sort_both update_file_cache_routing by metis
  qed
qed

lemma app_table_load_pages:
  assumes "load_pages c arg st = Inr (mgr, pages)" "app_table st"
    "\<And>name s. app_table s \<Longrightarrow> app_table (import_module (cn_dev c) name s)"
  shows "app_table pages"
  using assms(1) app_table_import [OF assms(2,3)] app_table_dev_import [OF _ _ assms(3)] assms(2)
  by (fastforce simp: load_pages_def new_dev_manager_def Let_def py_bind_def split: if_splits sum.splits)

text \<open>
  What the schema describes is served: a request that a described route matches is answered by a route of
  the table and not with 404 or 405.
\<close>

lemma described_routes_are_served:
  assumes "generate_openapi e get_openapi parent_path name version st = (file, doc, st')"
    and "app_table st" and "\<And>name s. app_table s \<Longrightarrow> app_table (import_module e name s)"
    and "q \<in> set (openapi_routes st')" and "full_match m (heap st') (normalize_path path) (upper meth) q"
  shows "\<exists>scope r. find_route m st' path meth None [] = Inr (scope, st') \<and> sc_route scope = Some r \<and> r \<in> set (fastapi_routes st')"
proof -
  have st': "st' = import_all_pages (find_spec e) (import_module e) (iter_submodules e) name st"
    using assms(1) by (simp add: generate_openapi_def Let_def)
  have "app_table st'" unfolding st' using assms(2,3) by (intro app_table_import)
  then have "q \<in> set (fastapi_routes st')" using assms(4) by (auto simp: app_table_def published_def openapi_routes_def)
  then obtain r where r: "table_search m st' path meth None [] = Some r" "r \<in> set (fastapi_routes st')"
    using assms(5) find_SomeD by (cases "table_search m st' path meth None []")
      (fastforce simp: table_search_def table_def find_None_iff)+
  from lookup_result_found [OF r(1)] r(2) show ?thesis by (auto simp: lookup_result_def)
qed

section \<open>What is appended to the table\<close>

text \<open>A table that grew at its end, by fresh routes that satisfy \<open>P\<close>; nothing that was there changed.\<close>

definition grown :: "(route \<Rightarrow> bool) \<Rightarrow> routing \<Rightarrow> routing \<Rightarrow> bool" where
  "grown P st st' \<longleftrightarrow> next_ref st \<le> next_ref st' \<and> (\<forall>r<next_ref st. heap st' r = heap st r) \<and>
     preflight_routes st' = preflight_routes st \<and> method_not_allowed_routes st' = method_not_allowed_routes st \<and>
     not_found_routes st' = not_found_routes st \<and>
     (\<exists>xs. fastapi_routes st' = fastapi_routes st @ xs \<and>
        (\<forall>x\<in>set xs. next_ref st \<le> x \<and> x < next_ref st' \<and> P (heap st' x)))"

lemma grown_refl [simp]: "grown P st st"
  by (simp add: grown_def)

lemma grown_trans:
  assumes "grown P st st'" "grown P st' st''"
  shows "grown P st st''"
proof -
  obtain xs ys where "fastapi_routes st' = fastapi_routes st @ xs" "fastapi_routes st'' = fastapi_routes st @ xs @ ys"
    and new: "\<forall>x\<in>set xs. next_ref st \<le> x \<and> x < next_ref st' \<and> P (heap st' x)"
      "\<forall>x\<in>set ys. next_ref st' \<le> x \<and> x < next_ref st'' \<and> P (heap st'' x)"
    using assms by (auto simp: grown_def)
  moreover have "\<forall>x\<in>set (xs @ ys). next_ref st \<le> x \<and> x < next_ref st'' \<and> P (heap st'' x)"
    using new assms by (auto simp: grown_def)
  ultimately show ?thesis using assms by (auto simp: grown_def)
qed

lemma grown_mono: "grown P st st' \<Longrightarrow> (\<And>r. P r \<Longrightarrow> Q r) \<Longrightarrow> grown Q st st'"
  unfolding grown_def by blast

lemma grown_add:
  assumes "P (mk path)"
  shows "grown P st (publish_last self (super_add mk self path st))"
  using assms by (auto simp: grown_def publish_last_def super_add_def)

text \<open>FastAPI's documented \<open>include_router\<close> without a prefix: a call for API routes of the included router, with the same path and the same operation.\<close>

definition fastapi_includes :: "(routing \<Rightarrow> nat \<Rightarrow> route_call list py) \<Rightarrow> bool" where
  "fastapi_includes inc \<longleftrightarrow> (\<forall>st r calls path mk. inc st r = Inr calls \<longrightarrow> (path, mk) \<in> set calls \<longrightarrow>
     (\<exists>q\<in>set (router_routes st r). r_api (heap st q) \<and> path = r_path (heap st q) \<and> mk path = heap st q))"

definition page_routes :: "routing \<Rightarrow> route set" where
  "page_routes st = heap st ` set (fastapi_routes st)"

lemma grown_routes:
  assumes "grown (\<lambda>r. r \<in> R) st st'" "page_routes st \<subseteq> R" "routing_ok st"
  shows "page_routes st' \<subseteq> R"
  using assms unfolding grown_def page_routes_def routing_ok_def by fastforce

lemma include_router_grows:
  assumes "app_table st" "\<And>path mk. (path, mk) \<in> set calls \<Longrightarrow> normalize_path path = path \<and> r_path (mk path) = path \<and> mk path \<in> R"
  shows "grown (\<lambda>r. r \<in> R) st (include_router self calls st) \<and> app_table (include_router self calls st)"
  using assms
proof (induction calls arbitrary: st)
  case (Cons c calls)
  obtain path mk where c: "c = (path, mk)" by force
  then have p: "normalize_path path = path" "r_path (mk path) = path" "mk path \<in> R" using Cons.prems(2) by auto
  let ?st = "add_api_route mk self path st"
  have "app_table ?st" "grown (\<lambda>r. r \<in> R) st ?st"
    unfolding add_api_route_def p(1) using Cons.prems(1) p by (auto intro!: app_table_add grown_add)
  with Cons.IH [of ?st] Cons.prems(2) show ?case
    by (auto simp: include_router_def c intro: grown_trans)
qed (simp add: include_router_def)

lemma router_ids_add_api_route [simp]: "router_ids (add_api_route mk self path st) = router_ids st"
  by (simp add: add_api_route_def publish_last_def super_add_def)

lemma router_ids_include_router [simp]: "router_ids (include_router self calls st) = router_ids st"
  unfolding include_router_def by (induction calls arbitrary: st) auto

lemma include_routers_grows:
  assumes "fastapi_includes (include_calls c)" "app_table st" "page_routes st \<subseteq> R"
    "set rs \<subseteq> set (router_ids st)" "include_routers c rs st = Inr st'"
  shows "grown (\<lambda>r. r \<in> R) st st' \<and> app_table st'"
  using assms(2-)
proof (induction rs arbitrary: st)
  case (Cons r rs)
  show ?case
  proof (cases "r = default_router c")
    case False
    then obtain calls where calls: "include_calls c st r = Inr calls"
      and rest: "include_routers c rs (include_router (default_router c) calls st) = Inr st'"
      using Cons.prems(4) by (auto simp: py_bind_def split: sum.splits)
    have "normalize_path path = path \<and> r_path (mk path) = path \<and> mk path \<in> R" if "(path, mk) \<in> set calls" for path mk
    proof -
      note call = that
      obtain q where q: "q \<in> set (router_routes st r)" "r_api (heap st q)" "path = r_path (heap st q)" "mk path = heap st q"
        using assms(1) calls call unfolding fastapi_includes_def by blast
      then have "q \<in> set (fastapi_routes st)" "normalize_path path = path"
        using Cons.prems(1,3) by (auto simp: app_table_def published_def)
      then show ?thesis using q Cons.prems(2) by (auto simp: page_routes_def)
    qed
    note call = this
    have g: "grown (\<lambda>r. r \<in> R) st (include_router (default_router c) calls st)" "app_table (include_router (default_router c) calls st)"
      using include_router_grows [OF Cons.prems(1), of calls R "default_router c"] call by blast+
    moreover have "page_routes (include_router (default_router c) calls st) \<subseteq> R"
      using grown_routes [OF g(1) Cons.prems(2)] Cons.prems(1) by (simp add: app_table_def)
    ultimately show ?thesis using Cons.IH [OF _ _ _ rest] Cons.prems(3) grown_trans by auto
  qed (use Cons in auto)
qed auto

lemma setup_openapi_grows: "grown (\<lambda>_. True) st (setup_openapi c st) \<and> (routing_ok st \<longrightarrow> routing_ok (setup_openapi c st))"
proof -
  have "grown (\<lambda>_. True) st (fold (\<lambda>(path, mk) st. add_route mk self path st) calls st) \<and>
      (routing_ok st \<longrightarrow> routing_ok (fold (\<lambda>(path, mk) st. add_route mk self path st) calls st))" for self calls
  proof (induction calls arbitrary: st)
    case (Cons c calls)
    obtain path mk where c: "c = (path, mk)" by force
    show ?case
      using Cons.IH [of "add_route mk self path st"] grown_add [of "\<lambda>_. True" mk "normalize_path path" st self]
        routing_ok_add [of st self mk "normalize_path path"] by (auto simp: c add_route_def intro: grown_trans)
  qed simp
  then show ?thesis by (simp add: setup_openapi_def)
qed

section \<open>Lookups in the grown table\<close>

lemma full_match_heap: "h r = h' q \<Longrightarrow> full_match m h path meth r = full_match m h' path meth q"
  by (simp add: full_match_def)

lemma grown_search_found:
  assumes "grown P st st'" "routing_ok st" "table_search m st path meth None prefix = Some r"
  shows "table_search m st' path meth None prefix = Some r"
proof -
  let ?m = "\<lambda>st. full_match m (heap st) (prefix @ normalize_path path) (upper meth)"
  obtain xs where xs: "fastapi_routes st' = fastapi_routes st @ xs" using assms(1) by (auto simp: grown_def)
  have "?m st' x = ?m st x" if "x \<in> set (fastapi_routes st)" for x
    using assms(1,2) that by (intro full_match_heap) (auto simp: grown_def routing_ok_def)
  then have "find (?m st') (fastapi_routes st) = find (?m st) (fastapi_routes st)" by (intro find_cong) auto
  then show ?thesis using assms(3) xs by (simp add: table_search_def table_def find_append)
qed

lemma grown_search_missing:
  assumes "grown (\<lambda>r. r \<in> page_routes st) st st'" "routing_ok st" "table_search m st path meth None prefix = None"
  shows "table_search m st' path meth None prefix = None"
proof -
  have "page_routes st' \<subseteq> page_routes st" using grown_routes [OF assms(1) order_refl assms(2)] .
  then have "\<exists>q\<in>set (fastapi_routes st). heap st' x = heap st q" if "x \<in> set (fastapi_routes st')" for x
    using that by (auto simp: page_routes_def)
  then show ?thesis using assms(3) by (simp add: table_search_def table_def find_None_iff) (metis full_match_heap)
qed

lemma grown_same_routes:
  assumes "grown (\<lambda>r. r \<in> page_routes st) st st'" "routing_ok st"
  shows "page_routes st' = page_routes st"
proof
  show "page_routes st' \<subseteq> page_routes st" using grown_routes [OF assms(1) order_refl assms(2)] .
  show "page_routes st \<subseteq> page_routes st'" using assms by (force simp: grown_def page_routes_def routing_ok_def image_iff)
qed

lemma allowed_spec_routes:
  "allowed_spec m st path meth =
     (\<Union>ro \<in> {ro \<in> page_routes st. r_api ro \<and> ''OPTIONS'' \<notin> r_methods ro \<and> fst (m ro path (upper meth)) = PartialMatch}. r_methods ro)"
  unfolding allowed_spec_def page_routes_def by auto

lemma grown_route_spec:
  assumes "grown (\<lambda>r. r \<in> page_routes st) st st'" "routing_ok st"
  shows "route_spec m st' path meth None prefix = route_spec m st path meth None prefix"
proof -
  have search: "table_search m st' path meth None prefix = table_search m st path meth None prefix" for path meth prefix
    using grown_search_found [OF assms] grown_search_missing [OF assms] by (metis not_Some_eq)
  have fallback: "fallback_spec m st' path meth = fallback_spec m st path meth" for path meth
    using assms(1) allowed_spec_routes [of m st path meth] allowed_spec_routes [of m st' path meth]
    unfolding fallback_spec_def grown_same_routes [OF assms] by (simp only: grown_def)
  show ?thesis unfolding route_spec_def search fallback ..
qed

lemma build_routesE:
  assumes "build_routes c arg st = Inr (mgr, st')"
  obtains pages mid where "load_pages c arg st = Inr (mgr, pages)" "include_routers c (router_ids pages) pages = Inr mid"
    "st' = (if openapi_enabled c then setup_openapi c mid else mid)"
  using assms by (auto simp: build_routes_def py_bind_def split: sum.splits)

lemma built_table:
  assumes "build_routes c arg st = Inr (mgr, st')" "load_pages c arg st = Inr (mgr', pages)"
    and "app_table pages" "fastapi_includes (include_calls c)"
  shows "routing_ok st'" and "grown (\<lambda>_. True) pages st'"
    and "\<not> openapi_enabled c \<Longrightarrow> grown (\<lambda>r. r \<in> page_routes pages) pages st'"
proof -
  obtain mid where mid: "include_routers c (router_ids pages) pages = Inr mid"
    and st': "st' = (if openapi_enabled c then setup_openapi c mid else mid)"
    using build_routesE [OF assms(1)] assms(2) by (metis Inr_inject prod.inject)
  have g: "grown (\<lambda>r. r \<in> page_routes pages) pages mid \<and> app_table mid"
    using include_routers_grows [OF assms(4,3) order_refl order_refl mid] .
  then have ok: "routing_ok mid" by (simp add: app_table_def)
  show "routing_ok st'" using ok setup_openapi_grows [of mid c] by (simp add: st')
  show "grown (\<lambda>r. r \<in> page_routes pages) pages st'" if "\<not> openapi_enabled c" using that g by (simp add: st')
  have "grown (\<lambda>_. True) pages mid" by (rule grown_mono [OF conjunct1 [OF g]]) simp
  from grown_trans [OF this setup_openapi_grows [THEN conjunct1]] this show "grown (\<lambda>_. True) pages st'" by (simp add: st')
qed

lemma built_route_spec:
  assumes "build_routes c arg st = Inr (mgr, st')" "load_pages c arg st = Inr (mgr', pages)"
    and "app_table pages" "fastapi_includes (include_calls c)"
    and "openapi_enabled c \<Longrightarrow> table_search m pages path meth None prefix \<noteq> None"
  shows "route_spec m st' path meth None prefix = route_spec m pages path meth None prefix"
proof (cases "openapi_enabled c")
  case True
  have ok: "routing_ok pages" using assms(3) by (simp add: app_table_def)
  obtain r where "table_search m pages path meth None prefix = Some r" using assms(5) True by blast
  from this grown_search_found [OF built_table(2) [OF assms(1-4)] ok this] show ?thesis by (simp add: route_spec_def)
next
  case False
  then show ?thesis using grown_route_spec [OF built_table(3) [OF assms(1-4)]] assms(3) by (simp add: app_table_def)
qed

section \<open>Properties\<close>

text \<open>A new application is not ready: its status page answers 500 until the master has finished.\<close>

lemma new_application_not_ready:
  assumes "frontik_application_init c arg configured_name make_statsd workers now st = Inr app"
  shows "get_status app later datacenter version = Inl (HTTPException 500)"
  using assms by (auto simp: frontik_application_init_def get_status_def get_current_status_def new_shared_state_def
      Let_def py_bind_def split: sum.splits)


text \<open>The witness: a page module with a router of its own next to the default router.\<close>

definition demo_import :: "string \<Rightarrow> routing \<Rightarrow> routing" where
  "demo_import name st =
     (if name = ''app.pages.item''
      then add_api_route (\<lambda>p. get_route p ''item'') 1 ''/item/'' (frontik_router_init 1 st) else st)"

definition demo_include :: "routing \<Rightarrow> nat \<Rightarrow> route_call list py" where
  "demo_include st r = Inr (map (\<lambda>q. (r_path (heap st q), \<lambda>_. heap st q)) (filter (\<lambda>q. r_api (heap st q)) (router_routes st r)))"

definition demo_construction :: construction where
  "demo_construction =
     \<lparr>cn_dev = \<lparr>import_module = demo_import, mk_route = \<lambda>p ms ep. \<lparr>r_api = True, r_path = p, r_path_format = p, r_methods = ms, r_endpoint = ep\<rparr>,
        set_order = \<lambda>_. [], some_method = \<lambda>_. None, find_spec = \<lambda>_. True, iter_submodules = \<lambda>_. [''app.pages.item''],
        walk = \<lambda>_. [], frontik_path = ''/''\<rparr>,
      include_calls = demo_include, setup_calls = [(''/docs'', \<lambda>p. get_route p ''docs'')], default_router = 0,
      class_module = ''app'', on_demand_routing = False, openapi_enabled = True, routes_file = None\<rparr>"

lemma demo_include_ok: "fastapi_includes demo_include"
  by (auto simp: fastapi_includes_def demo_include_def)

lemma demo_import_ok: "app_table s \<Longrightarrow> app_table (demo_import name s)"
  by (auto simp: demo_import_def get_route_def intro!: app_table_ops app_table_router)

lemma demo_start_ok: "app_table demo_routing"
proof -
  have "normalize_path ''/x'' = ''/x''" "normalize_path ''/{p}'' = ''/{p}''" by code_simp+
  then have "published demo_routing" by (simp add: published_def demo_routing_def demo_heap_def get_route_def)
  then show ?thesis using demo_routing_ok by (simp add: app_table_def)
qed


end
