(* ===== verification/Telemetry.thy ===== *)
theory Telemetry
  imports Timeouts
begin

text \<open>
  Telemetry: the integration of the application, the hooks of the HTTP client and the trace ids
  (\<open>app_integrations/telemetry.py\<close>) and the span around a request (\<open>request_integrations/telemetry.py\<close>). The
  OpenTelemetry library is reached through the calls made on a span, which the model lists; whether a
  span is recording, its kind, and the library's helper functions are arguments.
\<close>

section \<open>Spans\<close>

datatype attribute =
    HTTP_METHOD | HTTP_SCHEME | HTTP_HOST | HTTP_TARGET | HTTP_CLIENT_IP | NET_PEER_IP | HTTP_STATUS_CODE
  | USER_AGENT_ORIGINAL | HTTP_ROUTE | CODE_FUNCTION | CODE_NAMESPACE | PEER_SERVICE | OtherAttribute string

datatype attr_value = TextValue string | IntValue int | NumberValue rat | TextsValue "string list"

datatype otel_status = UNSET | OK | ERROR

datatype span_call =
    SetAttribute attribute attr_value
  | SetAttributes "(attribute, attr_value) dict"
  | UpdateName string
  | SetStatus otel_status "string option"
  | EndSpan "py_exc option"

section \<open>The span of a request\<close>

text \<open>What the span reads of a request; \<open>orig_ip\<close> is the address before \<open>X-Real-Ip\<close>, where the connection keeps one.\<close>

record traced_request =
  tq_method :: string
  tq_protocol :: string
  tq_host :: string
  tq_uri :: string
  tq_path :: string
  tq_remote_ip :: "string option"
  tq_orig_ip :: "string option"
  tq_headers :: "string \<Rightarrow> string option"
  tq_path_format :: "string option"

text \<open>Helpers of the library and the environment variables they read.\<close>

record otel_lib =
  extract_attributes :: "traced_request \<Rightarrow> (attribute, attr_value) dict \<Rightarrow> (attribute, attr_value) dict"
  captured_request_headers :: "string list"
  captured_response_headers :: "string list"
  normalise_request_header :: "string \<Rightarrow> string"
  normalise_response_header :: "string \<Rightarrow> string"
  http_status_to_status_code :: "int \<Rightarrow> otel_status"

record traced_response =
  tp_status :: int
  tp_headers :: "string \<Rightarrow> string option"

definition get_attributes_from_request :: "otel_lib \<Rightarrow> traced_request \<Rightarrow> (attribute, attr_value) dict" where
  "get_attributes_from_request lib q =
     extract_attributes lib q
       ([(HTTP_METHOD, TextValue (tq_method q)), (HTTP_SCHEME, TextValue (tq_protocol q)),
         (HTTP_HOST, TextValue (tq_host q)), (HTTP_TARGET, TextValue (tq_uri q))] @
        (if truthy (tq_remote_ip q)
         then (HTTP_CLIENT_IP, TextValue (the (tq_remote_ip q))) #
              (if truthy (tq_orig_ip q) then [(NET_PEER_IP, TextValue (the (tq_orig_ip q)))] else [])
         else []))"

fun collect_custom_headers :: "(string \<Rightarrow> string) \<Rightarrow> (string \<Rightarrow> string option) \<Rightarrow> string list \<Rightarrow>
    (attribute, attr_value) dict \<Rightarrow> (attribute, attr_value) dict" where
  "collect_custom_headers normalise get [] attributes = attributes"
| "collect_custom_headers normalise get (h # hs) attributes =
     collect_custom_headers normalise get hs
       (if truthy (get h) then dict_set attributes (OtherAttribute (normalise (lower h))) (TextsValue [the (get h)])
        else attributes)"

definition collect_custom_request_headers_attributes :: "otel_lib \<Rightarrow> (string \<Rightarrow> string option) \<Rightarrow> (attribute, attr_value) dict" where
  "collect_custom_request_headers_attributes lib get =
     collect_custom_headers (normalise_request_header lib) get (captured_request_headers lib) []"

definition collect_custom_response_headers_attributes :: "otel_lib \<Rightarrow> (string \<Rightarrow> string option) \<Rightarrow> (attribute, attr_value) dict" where
  "collect_custom_response_headers_attributes lib get =
     collect_custom_headers (normalise_response_header lib) get (captured_response_headers lib) []"

definition custom_attributes :: "bool \<Rightarrow> (attribute, attr_value) dict \<Rightarrow> span_call list" where
  "custom_attributes server_kind attrs = (if server_kind \<and> attrs \<noteq> [] then [SetAttributes attrs] else [])"

definition start_span :: "otel_lib \<Rightarrow> bool \<Rightarrow> bool \<Rightarrow> traced_request \<Rightarrow> span_call list" where
  "start_span lib recording server_kind q =
     (if \<not> recording then []
      else map (\<lambda>(k, v). SetAttribute k v) (get_attributes_from_request lib q) @
           custom_attributes server_kind (collect_custom_request_headers_attributes lib (tq_headers q)))"

text \<open>The name of the handler as function and module; unpacking a name without a dot raises.\<close>

definition name_span :: "string option \<Rightarrow> span_call list \<times> py_exc option" where
  "name_span hname =
     (case hname of
        None \<Rightarrow> ([], None)
      | Some h \<Rightarrow>
          (case rsplit_dot h of
             None \<Rightarrow> ([], Some ValueError)
           | Some (method_path, method_name) \<Rightarrow>
               ([UpdateName (method_path @ ''.'' @ method_name), SetAttribute CODE_FUNCTION (TextValue method_name),
                 SetAttribute CODE_NAMESPACE (TextValue method_path)], None)))"

definition span_outcome :: "otel_lib \<Rightarrow> (int \<Rightarrow> string option) \<Rightarrow> int \<Rightarrow> span_call" where
  "span_outcome lib reasons status =
     (let otel_status_code = http_status_to_status_code lib status
      in SetStatus otel_status_code
           (if otel_status_code = ERROR then Some (case reasons status of Some r \<Rightarrow> r | None \<Rightarrow> ''Unknown'') else None))"

definition finish_span :: "otel_lib \<Rightarrow> (int \<Rightarrow> string option) \<Rightarrow> bool \<Rightarrow> bool \<Rightarrow> (unit, traced_response) integration_dto \<Rightarrow>
    string option \<Rightarrow> traced_request \<Rightarrow> span_call list \<times> py_exc option" where
  "finish_span lib reasons recording server_kind dto hname q =
     (if \<not> recording then ([], None)
      else case dto_response dto of
             None \<Rightarrow> ([], Some (PyException ''AttributeError''))
           | Some r \<Rightarrow>
               (let pre = [SetAttribute HTTP_STATUS_CODE (IntValue (tp_status r)),
                           SetAttribute USER_AGENT_ORIGINAL
                             (TextValue (case tq_headers q ''User-Agent'' of Some u \<Rightarrow> u | None \<Rightarrow> ''noUserAgent''))] @
                          (case tq_path_format q of Some p \<Rightarrow> [SetAttribute HTTP_ROUTE (TextValue p)] | None \<Rightarrow> [])
                in case name_span hname of
                     (named, Some e) \<Rightarrow> (pre @ named, Some e)
                   | (named, None) \<Rightarrow>
                       (pre @ named @ [span_outcome lib reasons (tp_status r)] @
                        custom_attributes server_kind (collect_custom_response_headers_attributes lib (tp_headers r)), None)))"

definition excluded_urls :: "string list" where
  "excluded_urls = [''/status'']"

text \<open>
  \<open>otel_instrumentation_ctx\<close> around a request: \<open>q\<close> is the request as it enters; \<open>dto\<close>, \<open>hname\<close>, \<open>q'\<close> and
  \<open>raised\<close> are what the body leaves. The library ends the span on every exit. The result is the calls on
  the span and the exception that leaves the context manager.
\<close>

definition otel_instrumentation_ctx :: "otel_lib \<Rightarrow> (int \<Rightarrow> string option) \<Rightarrow> bool \<Rightarrow> bool \<Rightarrow> bool \<Rightarrow> traced_request \<Rightarrow>
    (unit, traced_response) integration_dto \<Rightarrow> string option \<Rightarrow> traced_request \<Rightarrow> py_exc option \<Rightarrow> span_call list \<times> py_exc option" where
  "otel_instrumentation_ctx lib reasons on recording server_kind q dto hname q' raised =
     (if \<not> on \<or> tq_path q \<in> set excluded_urls then ([], raised)
      else case finish_span lib reasons recording server_kind dto hname q' of
             (calls, failed) \<Rightarrow>
               (let left = (case failed of Some e \<Rightarrow> Some e | None \<Rightarrow> raised)
                in (start_span lib recording server_kind q @ calls @ [EndSpan left], left)))"

section \<open>The integration of the application\<close>

record otel_options =
  opentelemetry_enabled :: bool
  opentelemetry_exporter_type :: string
  opentelemetry_collector_url :: string
  opentelemetry_sampler_ratio :: rat
  otel_node_name :: string
  otel_datacenter :: "string option"

datatype resource_attribute = SERVICE_NAME | SERVICE_VERSION | HOST_NAME | CLOUD_REGION

text \<open>
  The provider of tracers, with \<open>FrontikIdGenerator\<close> for its ids and a sampler that follows the caller's
  decision or else takes the configured share of the traces. Which shares the library accepts is \<open>ratio_ok\<close>.
\<close>

record otel_provider =
  otel_resource :: "(resource_attribute, string option) dict"
  otel_sampler_ratio :: rat

definition make_otel_provider :: "(rat \<Rightarrow> bool) \<Rightarrow> otel_options \<Rightarrow> string \<Rightarrow> string \<Rightarrow> otel_provider py" where
  "make_otel_provider ratio_ok opts app_name version =
     (if \<not> ratio_ok (opentelemetry_sampler_ratio opts) then Inl ValueError
      else Inr \<lparr>otel_resource = [(SERVICE_NAME, Some app_name), (SERVICE_VERSION, Some version),
                  (HOST_NAME, Some (otel_node_name opts)), (CLOUD_REGION, otel_datacenter opts)],
                otel_sampler_ratio = opentelemetry_sampler_ratio opts\<rparr>)"

text \<open>A gRPC exporter is given \<open>insecure=True\<close>; the tracer of the server is named by library and version.\<close>

datatype exporter = GrpcExporter string bool | HttpExporter string

datatype telemetry_effect =
    MakeProvider otel_provider
  | AddSpanProcessor exporter
  | SetTracerProvider
  | InstrumentClient
  | InstrumentServer string string
  | UninstrumentServer
  | UninstrumentClient

definition server_instrument :: telemetry_effect where
  "server_instrument = InstrumentServer ''frontik'' ''0.0.1''"

definition make_exporter :: "otel_options \<Rightarrow> exporter py" where
  "make_exporter opts =
     (if opentelemetry_exporter_type opts = ''grpc'' then Inr (GrpcExporter (opentelemetry_collector_url opts) True)
      else if opentelemetry_exporter_type opts = ''http'' then Inr (HttpExporter (opentelemetry_collector_url opts))
      else Inl ValueError)"

definition telemetry_initialize_app :: "(rat \<Rightarrow> bool) \<Rightarrow> otel_options \<Rightarrow> string \<Rightarrow> string \<Rightarrow> telemetry_effect list \<times> py_exc option" where
  "telemetry_initialize_app ratio_ok opts app_name version =
     (if \<not> opentelemetry_enabled opts then ([], None)
      else case make_otel_provider ratio_ok opts app_name version of
             Inl e \<Rightarrow> ([], Some e)
           | Inr provider \<Rightarrow>
               (case make_exporter opts of
                  Inl e \<Rightarrow> ([MakeProvider provider], Some e)
                | Inr otlp_exporter \<Rightarrow>
                    ([MakeProvider provider, AddSpanProcessor otlp_exporter, SetTracerProvider, InstrumentClient, server_instrument], None)))"

definition telemetry_deinitialize_app :: "otel_options \<Rightarrow> telemetry_effect list" where
  "telemetry_deinitialize_app opts = (if opentelemetry_enabled opts then [UninstrumentServer, UninstrumentClient] else [])"

section \<open>Outgoing requests\<close>

text \<open>
  Scheme and host part that \<open>urlparse\<close> finds in a text of ASCII characters. The check of a host in
  brackets, which differs between versions of Python, is the argument \<open>bracketed_ok\<close>.
\<close>

definition alpha :: "char \<Rightarrow> bool" where
  "alpha c \<longleftrightarrow> (let n = (of_char c :: nat) in 65 \<le> n \<and> n \<le> 90 \<or> 97 \<le> n \<and> n \<le> 122)"

definition scheme_char :: "char \<Rightarrow> bool" where
  "scheme_char c \<longleftrightarrow> alpha c \<or> (let n = (of_char c :: nat) in 48 \<le> n \<and> n \<le> 57) \<or> c \<in> {CHR ''+'', CHR ''-'', CHR ''.''}"

definition clean_url :: "string \<Rightarrow> string" where
  "clean_url url = filter (\<lambda>c. (of_char c :: nat) \<notin> {9, 10, 13}) (dropWhile (\<lambda>c. (of_char c :: nat) \<le> 32) url)"

definition split_scheme :: "string \<Rightarrow> string \<times> string" where
  "split_scheme url =
     (let s = takeWhile (\<lambda>c. c \<noteq> CHR '':'') url
      in if length s < length url \<and> s \<noteq> [] \<and> alpha (hd s) \<and> list_all scheme_char s
         then (lower s, drop (Suc (length s)) url) else ([], url))"

definition split_netloc :: "(string \<Rightarrow> bool) \<Rightarrow> string \<Rightarrow> string py" where
  "split_netloc bracketed_ok rest =
     (if take 2 rest \<noteq> ''//'' then Inr []
      else let netloc = takeWhile (\<lambda>c. c \<notin> {CHR ''/'', CHR ''?'', CHR ''#''}) (drop 2 rest)
           in if (CHR ''['' \<in> set netloc) \<noteq> (CHR '']'' \<in> set netloc) then Inl ValueError
              else if CHR ''['' \<in> set netloc \<and> \<not> bracketed_ok netloc then Inl ValueError
              else Inr netloc)"

definition urlparse :: "(string \<Rightarrow> bool) \<Rightarrow> string \<Rightarrow> (string \<times> string) py" where
  "urlparse bracketed_ok url =
     (case split_scheme (clean_url url) of (scheme, rest) \<Rightarrow>
        py_bind (split_netloc bracketed_ok rest) (\<lambda>netloc. Inr (scheme, netloc)))"

definition get_netloc :: "(string \<Rightarrow> bool) \<Rightarrow> string \<Rightarrow> string py" where
  "get_netloc bracketed_ok url =
     py_bind (urlparse bracketed_ok url) (\<lambda>(scheme, netloc).
       if scheme \<notin> {''http'', ''https'', []} then py_bind (urlparse bracketed_ok (''//'' @ url)) (\<lambda>(_, netloc). Inr netloc)
       else Inr netloc)"

text \<open>The request of the client as the hook sees it, \<open>None\<close> where an attribute is missing.\<close>

record client_request =
  cq_method :: string
  cq_url :: string
  cq_upstream_datacenter :: "string option"
  cq_upstream_hostname :: "string option"
  cq_upstream_name :: "string option"
  cq_timeout :: rat
  cq_outer_timeout :: "string option"

definition client_request_hook :: "(string \<Rightarrow> bool) \<Rightarrow> bool \<Rightarrow> client_request option \<Rightarrow> span_call list py" where
  "client_request_hook bracketed_ok recording request =
     (if \<not> recording then Inr []
      else case request of
             None \<Rightarrow> Inr []
           | Some r \<Rightarrow>
               py_bind (case cq_upstream_name r of Some n \<Rightarrow> Inr n | None \<Rightarrow> get_netloc bracketed_ok (cq_url r)) (\<lambda>upstream_name.
                 let hostname = (case cq_upstream_hostname r of Some h \<Rightarrow> h | None \<Rightarrow> ''unknown'')
                 in Inr ([UpdateName (join_with '' '' (filter (\<lambda>el. el \<noteq> []) [cq_method r, upstream_name])),
                          SetAttribute PEER_SERVICE (TextValue upstream_name),
                          SetAttribute (OtherAttribute ''http.request.timeout'') (NumberValue (cq_timeout r * 1000))] @
                         (case cq_outer_timeout r of
                            Some t \<Rightarrow> [SetAttribute (OtherAttribute ''http.request.original.timeout'') (TextValue t)] | None \<Rightarrow> []) @
                         [SetAttribute (OtherAttribute ''destination.address'') (TextValue hostname)] @
                         (case cq_upstream_datacenter r of
                            Some d \<Rightarrow> [SetAttribute (OtherAttribute ''http.request.cloud.region'') (TextValue d)] | None \<Rightarrow> []))))"

definition client_response_hook :: "bool \<Rightarrow> int option \<Rightarrow> span_call list" where
  "client_response_hook recording status =
     (if \<not> recording then [] else case status of None \<Rightarrow> [] | Some s \<Rightarrow> [SetAttribute HTTP_STATUS_CODE (IntValue s)])"

section \<open>Trace ids\<close>

text \<open>\<open>random_id\<close> is \<open>random.getrandbits(128)\<close>.\<close>

definition generate_trace_id :: "string option \<Rightarrow> int \<Rightarrow> int" where
  "generate_trace_id given_id random_id =
     (case given_id of
        None \<Rightarrow> random_id
      | Some rid \<Rightarrow>
          (if length rid < 32 then random_id
           else case py_int 16 (take 32 rid) of Some i \<Rightarrow> i | None \<Rightarrow> random_id))"

section \<open>Lemmas\<close>

text \<open>The number a text of hexadecimal digits stands for.\<close>

definition hex_value :: "string \<Rightarrow> nat" where
  "hex_value s = foldl (\<lambda>a c. a * 16 + the (digit_value c)) 0 s"

lemma hex_value_simps [simp]: "hex_value [] = 0" "hex_value (s @ [c]) = hex_value s * 16 + the (digit_value c)"
  by (simp_all add: hex_value_def)

lemma hex_digit_bound: "hex_char c \<Longrightarrow> the (digit_value c) < 16"
  using hex_char_digit by force

lemma hex_char_code: "hex_char c \<Longrightarrow> (of_char c :: nat) = (if the (digit_value c) < 10 then 48 + the (digit_value c) else 87 + the (digit_value c))"
  by (auto simp: hex_char_def digit_value_def Let_def)

lemma hex_digit_inj: "hex_char c \<Longrightarrow> hex_char d \<Longrightarrow> the (digit_value c) = the (digit_value d) \<Longrightarrow> c = d"
  by (metis hex_char_code of_char_eq_iff)

lemma hex_value_bound: "list_all hex_char s \<Longrightarrow> hex_value s < 16 ^ length s"
proof (induction s rule: rev_induct)
  case (snoc c s)
  then have "hex_value s < 16 ^ length s" "the (digit_value c) < 16" by (auto simp: hex_digit_bound)
  then show ?case by simp
qed simp

lemma hex_value_inj:
  "list_all hex_char s \<Longrightarrow> list_all hex_char t \<Longrightarrow> length s = length t \<Longrightarrow> hex_value s = hex_value t \<Longrightarrow> s = t"
proof (induction s arbitrary: t rule: rev_induct)
  case (snoc c s)
  then obtain d u where t: "t = u @ [d]" by (cases t rule: rev_cases) auto
  have b: "the (digit_value c) < 16" "the (digit_value d) < 16" using snoc.prems t by (auto simp: hex_digit_bound)
  have e: "hex_value s * 16 + the (digit_value c) = hex_value u * 16 + the (digit_value d)" using snoc.prems t by simp
  then have "(hex_value s * 16 + the (digit_value c)) mod 16 = (hex_value u * 16 + the (digit_value d)) mod 16" by simp
  with b have same: "the (digit_value c) = the (digit_value d)" by simp
  with e have "hex_value s = hex_value u" by simp
  with snoc t have "s = u" by auto
  with same snoc.prems t show ?case using hex_digit_inj by auto
qed simp

lemma parse_hex_foldl:
  "list_all hex_char s \<Longrightarrow> after_digit \<or> s \<noteq> [] \<Longrightarrow>
    parse_digits 16 after_digit (int a) s = Some (int (foldl (\<lambda>a c. a * 16 + the (digit_value c)) a s))"
proof (induction s arbitrary: after_digit a)
  case (Cons c s)
  then have c: "hex_char c" by simp
  from hex_char_digit [OF c] obtain d where d: "d < 16" "digit_value c = Some d" by blast
  from Cons.IH [of True "a * 16 + d"] Cons.prems d hex_char_plain [OF c] show ?case by (simp add: mult.commute)
qed simp

lemma py_int_hex:
  assumes "list_all hex_char s" and "s \<noteq> []"
  shows "py_int 16 s = Some (int (hex_value s))"
proof -
  have "hex_char (hd s)" using assms by (cases s) auto
  from hex_char_plain [OF this] have "take (Suc 0) s \<noteq> ''-''" "take (Suc 0) s \<noteq> ''+''" using assms(2) by (cases s; auto)+
  with parse_hex_foldl [OF assms(1), of False 0] assms show ?thesis
    by (simp add: py_int_def strip_hex skip_prefix_hex hex_value_def)
qed

lemma nat_digits_length: "10 ^ k \<le> n \<Longrightarrow> n < 10 ^ Suc k \<Longrightarrow> length (nat_digits n) = Suc k"
proof (induction k arbitrary: n)
  case 0
  then show ?case by (subst nat_digits.simps) simp
next
  case (Suc k)
  have "10 ^ k \<le> n div 10" "n div 10 < 10 ^ Suc k" using Suc.prems by (simp_all add: less_mult_imp_div_less less_eq_div_iff_mult_less_eq mult.commute)
  moreover have "10 \<le> n" by (rule order_trans [OF _ Suc.prems(1)]) simp
  ultimately show ?case using Suc.IH [of "n div 10"] Suc.prems by (subst nat_digits.simps) simp
qed

lemma nat_digits_inj: "nat_digits m = nat_digits n \<Longrightarrow> m = n"
  by (metis parse_nat_digits option.inject of_nat_eq_iff)

lemma hex_padded_length [simp]: "length (hex_padded w n) = w"
  by (induction w arbitrary: n) simp_all

lemma hex_digit_value: "d < 16 \<Longrightarrow> digit_value (hex_digit d) = Some d"
  by (auto simp: digit_value_def hex_digit_def of_char_of Let_def)

lemma hex_value_padded: "n < 16 ^ w \<Longrightarrow> hex_value (hex_padded w n) = n"
proof (induction w arbitrary: n)
  case (Suc w)
  then have "hex_value (hex_padded w (n div 16)) = n div 16" by (simp add: less_mult_imp_div_less mult.commute)
  then show ?case by (simp add: hex_digit_value)
qed simp

lemma generated_id_chars: "list_all hex_char (generate_uniq_timestamp_request_id stamp r)"
  by (simp add: generate_uniq_timestamp_request_id_def nat_digits_chars hex_padded_chars)

lemma generated_id_length:
  "10 ^ 14 \<le> stamp \<Longrightarrow> stamp < 10 ^ 15 \<Longrightarrow> length (generate_uniq_timestamp_request_id stamp r) = 32"
  using nat_digits_length [of 14 stamp] by (simp add: generate_uniq_timestamp_request_id_def)

lemma generated_id_inj:
  assumes "generate_uniq_timestamp_request_id s r = generate_uniq_timestamp_request_id s' r'"
    and "length (nat_digits s) = length (nat_digits s')" and "r < 16 ^ 17" and "r' < 16 ^ 17"
  shows "s = s' \<and> r = r'"
proof -
  from assms(1,2) have "nat_digits s = nat_digits s'" "hex_padded 17 r = hex_padded 17 r'"
    by (simp_all add: generate_uniq_timestamp_request_id_def)
  then show ?thesis using nat_digits_inj hex_value_padded [OF assms(3)] hex_value_padded [OF assms(4)] by metis
qed

lemma trace_id_hex:
  assumes "list_all hex_char rid" and "32 \<le> length rid"
  shows "generate_trace_id (Some rid) random_id = int (hex_value (take 32 rid))"
proof -
  have "list_all hex_char (take 32 rid)" "take 32 rid \<noteq> []" using assms by (auto simp: list_all_iff dest: in_set_takeD)
  from py_int_hex [OF this] assms(2) show ?thesis by (simp add: generate_trace_id_def)
qed

text \<open>
  Shutting telemetry down undoes in reverse order what starting it instrumented; starting fails, and
  instruments nothing, for an unknown exporter or a share that the sampler refuses.
\<close>

fun undone_by :: "telemetry_effect \<Rightarrow> telemetry_effect option" where
  "undone_by InstrumentClient = Some UninstrumentClient"
| "undone_by (InstrumentServer _ _) = Some UninstrumentServer"
| "undone_by _ = None"

lemma telemetry_shutdown_undoes:
  assumes "telemetry_initialize_app ratio_ok opts app_name version = (effects, failed)"
  shows "failed = None \<Longrightarrow> telemetry_deinitialize_app opts = rev (List.map_filter undone_by effects)"
    and "failed \<noteq> None \<Longrightarrow> List.map_filter undone_by effects = []"
    and "failed \<noteq> None \<longleftrightarrow> opentelemetry_enabled opts \<and>
      (\<not> ratio_ok (opentelemetry_sampler_ratio opts) \<or> opentelemetry_exporter_type opts \<notin> {''grpc'', ''http''})"
  using assms
  by (auto simp: telemetry_initialize_app_def telemetry_deinitialize_app_def make_otel_provider_def make_exporter_def
      server_instrument_def map_filter_simps split: if_splits)

section \<open>Properties\<close>

text \<open>C28. 
  The trace id of a request with an id that the server made up (between the years 2001 and 2286) fits
  into 128 bits and does not depend on the random number, and different request ids have different
  trace ids.
\<close>

theorem trace_ids_of_generated_ids:
  assumes "10 ^ 14 \<le> s" "s < 10 ^ 15" "r < 16 ^ 17" and "10 ^ 14 \<le> s'" "s' < 10 ^ 15" "r' < 16 ^ 17"
  shows "0 \<le> generate_trace_id (Some (generate_uniq_timestamp_request_id s r)) random_id \<and>
    generate_trace_id (Some (generate_uniq_timestamp_request_id s r)) random_id < 2 ^ 128 \<and>
    (generate_trace_id (Some (generate_uniq_timestamp_request_id s r)) random_id =
       generate_trace_id (Some (generate_uniq_timestamp_request_id s' r')) random_id' \<longleftrightarrow> s = s' \<and> r = r')"
proof -
  let ?a = "generate_uniq_timestamp_request_id s r" and ?b = "generate_uniq_timestamp_request_id s' r'"
  have len: "length ?a = 32" "length ?b = 32" using assms generated_id_length by auto
  have id: "generate_trace_id (Some ?a) random_id = int (hex_value ?a)" "generate_trace_id (Some ?b) random_id' = int (hex_value ?b)"
    using len trace_id_hex [OF generated_id_chars] by simp_all
  have "hex_value ?a < 2 ^ 128" using hex_value_bound [OF generated_id_chars, of s r] len by simp
  then have "int (hex_value ?a) < int (2 ^ 128)" by (simp only: of_nat_less_iff)
  moreover have "?a = ?b" if "hex_value ?a = hex_value ?b"
    using that len by (intro hex_value_inj generated_id_chars) simp_all
  moreover have "s = s' \<and> r = r'" if "?a = ?b"
    using that assms nat_digits_length [of 14 s] nat_digits_length [of 14 s'] by (intro generated_id_inj) simp_all
  ultimately show ?thesis unfolding id by auto
qed

theorem trace_ids_of_generated_ids_witness:
  "generate_trace_id (Some (generate_uniq_timestamp_request_id 170000000000000 5)) 1 \<noteq>
    generate_trace_id (Some (generate_uniq_timestamp_request_id 170000000000000 6)) 1"
  using trace_ids_of_generated_ids [of 170000000000000 5 170000000000000 6 1 1] by simp

text \<open>A request id given by the caller may start with a sign, and then the trace id is negative.\<close>

lemma signed_request_id_gives_negative_trace_id:
  "check_request_id ''-1111111111111111111111111111111'' \<and>
   generate_trace_id (Some ''-1111111111111111111111111111111'') random_id < 0"
proof -
  have "py_int 16 ''-1111111111111111111111111111111'' = Some (- 1417843195503910264430727530965700881)" by code_simp
  then show ?thesis by (simp add: check_request_id_def generate_trace_id_def)
qed

text \<open>
  The exception that leaves the telemetry context: that of the request itself, unless the span is
  recorded and the request got no response, or its handler has a name without a dot.
\<close>

theorem telemetry_exit:
  "snd (otel_instrumentation_ctx lib reasons on recording server_kind q dto hname q' raised) =
     (if on \<and> tq_path q \<noteq> ''/status'' \<and> recording
      then (case dto_response dto of
              None \<Rightarrow> Some (PyException ''AttributeError'')
            | Some r \<Rightarrow> (case hname of None \<Rightarrow> raised | Some h \<Rightarrow> if CHR ''.'' \<in> set h then raised else Some ValueError))
      else raised)"
  by (auto simp: otel_instrumentation_ctx_def excluded_urls_def finish_span_def name_span_def Let_def rsplit_dot_None
      split: option.splits prod.splits dest: rsplit_dot_join(1))

text \<open>The calls that describe the response come from \<open>_finish_span\<close> alone.\<close>

definition describes_response :: "span_call \<Rightarrow> bool" where
  "describes_response c = (case c of UpdateName _ \<Rightarrow> True | SetStatus _ _ \<Rightarrow> True | EndSpan _ \<Rightarrow> True | _ \<Rightarrow> False)"

lemma start_span_calls: "filter describes_response (start_span lib recording server_kind q) = []"
  by (auto simp: start_span_def custom_attributes_def describes_response_def filter_empty_conv)

text \<open>C27. 
  The span of an answered request: it is named after the handler, has the status code of the response,
  is marked as failed, with the reason phrase, exactly when the library takes that code for an error,
  and is ended exactly once, last of all.
\<close>

theorem span_describes_response:
  assumes "tq_path q \<noteq> ''/status''" and "dto_response dto = Some r" and "CHR ''.'' \<in> set h"
  shows "let (calls, left) = otel_instrumentation_ctx lib reasons True True server_kind q dto (Some h) q' raised;
             st = http_status_to_status_code lib (tp_status r)
         in left = raised \<and> last calls = EndSpan raised \<and>
            SetAttribute HTTP_STATUS_CODE (IntValue (tp_status r)) \<in> set calls \<and>
            filter describes_response calls =
              [UpdateName h,
               SetStatus st (if st = ERROR then Some (case reasons (tp_status r) of Some m \<Rightarrow> m | None \<Rightarrow> ''Unknown'') else None),
               EndSpan raised]"
proof -
  obtain path fn where h: "rsplit_dot h = Some (path, fn)" using assms(3) rsplit_dot_None [of h] by auto
  have "path @ ''.'' @ fn = h" using rsplit_dot_join(1) [OF h] .
  moreover have "filter describes_response (custom_attributes k as) = []" for k as
    by (simp add: custom_attributes_def describes_response_def)
  ultimately show ?thesis using assms(1,2) h start_span_calls [of lib True server_kind q]
    by (simp add: otel_instrumentation_ctx_def excluded_urls_def finish_span_def name_span_def span_outcome_def Let_def
        describes_response_def split: option.splits)
qed

definition sample_otel :: otel_lib where
  "sample_otel = \<lparr>extract_attributes = (\<lambda>_ d. d), captured_request_headers = [''X-Source''], captured_response_headers = [],
     normalise_request_header = (\<lambda>h. ''http.request.header.'' @ h), normalise_response_header = (\<lambda>h. ''http.response.header.'' @ h),
     http_status_to_status_code = (\<lambda>s. if 100 \<le> s \<and> s < 500 then UNSET else ERROR)\<rparr>"

definition sample_traced :: traced_request where
  "sample_traced = \<lparr>tq_method = ''GET'', tq_protocol = ''http'', tq_host = ''example'', tq_uri = ''/page'', tq_path = ''/page'',
     tq_remote_ip = Some ''10.0.0.1'', tq_orig_ip = None, tq_headers = [''X-Source'' \<mapsto> ''test''], tq_path_format = Some ''/page''\<rparr>"

theorem span_describes_response_witness:
  "filter describes_response (fst (otel_instrumentation_ctx sample_otel [502 \<mapsto> ''Bad Gateway''] True True True sample_traced
      \<lparr>dto_value = None, dto_response = Some \<lparr>tp_status = 502, tp_headers = (\<lambda>_. None)\<rparr>\<rparr> (Some ''pages.page.get_page'') sample_traced None)) =
    [UpdateName ''pages.page.get_page'', SetStatus ERROR (Some ''Bad Gateway''), EndSpan None]"
proof -
  let ?dto = "\<lparr>dto_value = None, dto_response = Some \<lparr>tp_status = 502, tp_headers = (\<lambda>_. None)\<rparr>\<rparr> :: (unit, traced_response) integration_dto"
  have "tq_path sample_traced \<noteq> ''/status''" by (simp add: sample_traced_def)
  from span_describes_response [OF this, of ?dto "\<lparr>tp_status = 502, tp_headers = (\<lambda>_. None)\<rparr>" "''pages.page.get_page''" sample_otel
      "[502 \<mapsto> ''Bad Gateway'']" True sample_traced None]
  show ?thesis by (simp add: Let_def sample_otel_def split: prod.splits)
qed

text \<open>The host of an outgoing request: what stands between the slashes of an HTTP URL.\<close>

definition plain_host :: "string \<Rightarrow> bool" where
  "plain_host h \<longleftrightarrow> list_all (\<lambda>c. 32 < (of_char c :: nat) \<and> c \<notin> {CHR ''/'', CHR ''?'', CHR ''#'', CHR ''['', CHR '']''}) h"

lemma clean_url_keeps:
  assumes "list_all (\<lambda>c. 32 < (of_char c :: nat)) s"
  shows "clean_url (s @ t) = s @ (if s = [] then clean_url t else filter (\<lambda>c. (of_char c :: nat) \<notin> {9, 10, 13}) t)"
proof -
  have "filter (\<lambda>c. (of_char c :: nat) \<notin> {9, 10, 13}) s = s" using assms by (intro filter_True) (auto simp: list_all_iff)
  with assms show ?thesis by (cases s) (auto simp: clean_url_def)
qed

theorem client_span_named_after_host:
  assumes "plain_host h" and "cq_upstream_name r = None" and "cq_url r = ''http://'' @ h @ CHR ''/'' # rest"
    and "h \<noteq> []" and "cq_method r \<noteq> []"
  shows "\<exists>calls. client_request_hook ok True (Some r) = Inr (UpdateName (cq_method r @ '' '' @ h) #
    SetAttribute PEER_SERVICE (TextValue h) # calls)"
proof -
  have plain: "list_all (\<lambda>c. 32 < (of_char c :: nat)) (''http://'' @ h @ ''/'')"
    using assms(1) by (auto simp: plain_host_def list_all_iff)
  let ?rest = "filter (\<lambda>c. (of_char c :: nat) \<notin> {9, 10, 13}) rest"
  have clean: "clean_url (''http://'' @ h @ CHR ''/'' # rest) = ''http://'' @ h @ CHR ''/'' # ?rest"
    using clean_url_keeps [OF plain, of rest] by simp
  have scheme: "split_scheme (''http://'' @ h @ CHR ''/'' # ?rest) = (''http'', ''//'' @ h @ CHR ''/'' # ?rest)"
    by (simp add: split_scheme_def alpha_def scheme_char_def lower_def lower_char_def)
  have "CHR ''['' \<notin> set h" "CHR '']'' \<notin> set h" using assms(1) by (auto simp: plain_host_def list_all_iff)
  moreover have "takeWhile (\<lambda>c. c \<notin> {CHR ''/'', CHR ''?'', CHR ''#''}) (h @ CHR ''/'' # ?rest) = h"
    using assms(1) by (subst takeWhile_append2) (auto simp: plain_host_def list_all_iff)
  ultimately have "get_netloc ok (cq_url r) = Inr h"
    by (simp add: get_netloc_def urlparse_def assms(3) clean [simplified] scheme [simplified] split_netloc_def)
  with assms show ?thesis by (simp add: client_request_hook_def)
qed

theorem client_span_named_after_host_witness:
  "\<exists>calls. client_request_hook (\<lambda>_. True) True (Some \<lparr>cq_method = ''GET'', cq_url = ''http://back:80/x'', cq_upstream_datacenter = None,
      cq_upstream_hostname = None, cq_upstream_name = None, cq_timeout = 2, cq_outer_timeout = None\<rparr>) =
    Inr (UpdateName ''GET back:80'' # SetAttribute PEER_SERVICE (TextValue ''back:80'') # calls)"
  using client_span_named_after_host [of "''back:80''" "\<lparr>cq_method = ''GET'', cq_url = ''http://back:80/x'', cq_upstream_datacenter = None,
      cq_upstream_hostname = None, cq_upstream_name = None, cq_timeout = 2, cq_outer_timeout = None\<rparr>" "''x''" "\<lambda>_. True"]
  by (simp add: plain_host_def)

end
