(* ===== verification/Request_Stack.thy ===== *)
theory Request_Stack
  imports Handler Telemetry App_Integrations
begin

text \<open>
  The four integrations around a request put together, as \<open>serve_tornado_request\<close> does with an \<open>ExitStack\<close>
  over the list of \<open>request_integrations/__init__.py\<close>: request context, limiter, telemetry, Sentry. A
  context manager is entered on a state and gives the function that leaves it; that function gets the
  exception on its way out and decides which one goes on.
\<close>

section \<open>A stack of context managers\<close>

type_synonym 's leave_fun = "py_exc option \<Rightarrow> 's \<Rightarrow> py_exc option \<times> 's"

type_synonym 's manager = "'s \<Rightarrow> (py_exc \<times> 's) + ('s leave_fun \<times> 's)"

text \<open>\<open>StillInside\<close>: the body waits, so nothing is left yet.\<close>

datatype with_end = LeftWith "py_exc option" | StillInside

text \<open>\<open>ExitStack.__exit__\<close>: the functions of the managers entered last are called first.\<close>

fun unwind :: "'s leave_fun list \<Rightarrow> py_exc option \<Rightarrow> 's \<Rightarrow> py_exc option \<times> 's" where
  "unwind [] e s = (e, s)"
| "unwind (f # fs) e s = (case f e s of (e', s') \<Rightarrow> unwind fs e' s')"

fun enter_contexts :: "'s manager list \<Rightarrow> 's leave_fun list \<Rightarrow> 's \<Rightarrow> py_exc option \<times> 's leave_fun list \<times> 's" where
  "enter_contexts [] stack s = (None, stack, s)"
| "enter_contexts (m # ms) stack s =
     (case m s of
        Inl (e, s) \<Rightarrow> (Some e, stack, s)
      | Inr (f, s) \<Rightarrow> enter_contexts ms (f # stack) s)"

definition exit_stack :: "'s manager list \<Rightarrow> ('s \<Rightarrow> with_end \<times> 's) \<Rightarrow> 's \<Rightarrow> with_end \<times> 's" where
  "exit_stack ms body s =
     (case enter_contexts ms [] s of
        (Some e, stack, s) \<Rightarrow> (case unwind stack (Some e) s of (e, s) \<Rightarrow> (LeftWith e, s))
      | (None, stack, s) \<Rightarrow>
          (case body s of
             (StillInside, s) \<Rightarrow> (StillInside, s)
           | (LeftWith e, s) \<Rightarrow> (case unwind stack e s of (e, s) \<Rightarrow> (LeftWith e, s))))"

text \<open>The reference: nested \<open>with\<close> statements.\<close>

fun nested_with :: "'s manager list \<Rightarrow> ('s \<Rightarrow> with_end \<times> 's) \<Rightarrow> 's \<Rightarrow> with_end \<times> 's" where
  "nested_with [] body s = body s"
| "nested_with (m # ms) body s =
     (case m s of
        Inl (e, s) \<Rightarrow> (LeftWith (Some e), s)
      | Inr (f, s) \<Rightarrow>
          (case nested_with ms body s of
             (StillInside, s) \<Rightarrow> (StillInside, s)
           | (LeftWith e, s) \<Rightarrow> (case f e s of (e, s) \<Rightarrow> (LeftWith e, s))))"

lemma enter_contexts_unwind:
  "(case enter_contexts ms stack s of
      (Some e, stack', s) \<Rightarrow> (case unwind stack' (Some e) s of (e, s) \<Rightarrow> (LeftWith e, s))
    | (None, stack', s) \<Rightarrow>
        (case body s of
           (StillInside, s) \<Rightarrow> (StillInside, s)
         | (LeftWith e, s) \<Rightarrow> (case unwind stack' e s of (e, s) \<Rightarrow> (LeftWith e, s)))) =
   (case nested_with ms body s of
      (StillInside, s) \<Rightarrow> (StillInside, s)
    | (LeftWith e, s) \<Rightarrow> (case unwind stack e s of (e, s) \<Rightarrow> (LeftWith e, s)))"
  by (induction ms arbitrary: stack s) (auto split: sum.splits with_end.splits prod.splits)

lemma exit_stack_nested: "exit_stack ms body s = nested_with ms body s"
  using enter_contexts_unwind [where ms = ms and stack = "[]" and s = s and body = body]
  by (auto simp: exit_stack_def split: with_end.splits prod.splits)

text \<open>
  The contract of an integration: it can be entered, and if the body left the part of the state that
  \<open>view\<close> shows as it found it, then so does the whole \<open>with\<close> statement, whatever exception leaves it.
\<close>

locale balanced =
  fixes m :: "'s manager" and view :: "'s \<Rightarrow> 'v"
  assumes enters: "\<exists>f s1. m s = Inr (f, s1)"
    and restores: "m s = Inr (f, s1) \<Longrightarrow> view s2 = view s1 \<Longrightarrow> view (snd (f e s2)) = view s"
begin

lemma with_around:
  assumes "\<And>s e s'. nested_with ms body s = (LeftWith e, s') \<Longrightarrow> view s' = view s"
    and "nested_with (m # ms) body s = (LeftWith e, s')"
  shows "view s' = view s"
proof -
  obtain f s1 where f: "m s = Inr (f, s1)" using enters by blast
  with assms(2) obtain e1 s2 where inner: "nested_with ms body s1 = (LeftWith e1, s2)" and out: "f e1 s2 = (e, s')"
    by (auto split: with_end.splits prod.splits)
  from restores [OF f assms(1) [OF inner], of e1] out show ?thesis by simp
qed

end

lemma balanced_stack:
  assumes "\<forall>m\<in>set ms. balanced m view" and "\<And>s e s'. body s = (LeftWith e, s') \<Longrightarrow> view s' = view s"
    and "exit_stack ms body s = (LeftWith e, s')"
  shows "view s' = view s"
  using assms(1) assms(3) [unfolded exit_stack_nested]
proof (induction ms arbitrary: s e s')
  case (Cons m ms)
  show ?case
  proof (rule balanced.with_around [of m view ms body])
    show "balanced m view" "nested_with (m # ms) body s = (LeftWith e, s')" using Cons.prems by simp_all
    show "view s' = view s" if "nested_with ms body s = (LeftWith e, s')" for s e s'
      using Cons.IH [OF _ that] Cons.prems(1) by simp
  qed
qed (simp add: assms(2))

section \<open>The integrations of a request\<close>

text \<open>
  The state during a request: the server, the exchange, the calls on the span, the extras of Sentry's
  scope, and the value that the limiter's object holds. \<open>traced_connection\<close> is what the span reads from the
  connection beside the request.
\<close>

record request_state =
  rs_server :: server
  rs_exchange :: exchange
  rs_spans :: "span_call list"
  rs_extras :: "(string, string option) dict"
  rs_admitted :: "bool option"

record traced_connection =
  tc_protocol :: string
  tc_host :: string
  tc_uri :: string
  tc_orig_ip :: "string option"

definition traced :: "traced_connection \<Rightarrow> tornado_request \<Rightarrow> traced_request" where
  "traced tc r = \<lparr>tq_method = tr_method r, tq_protocol = tc_protocol tc, tq_host = tc_host tc, tq_uri = tc_uri tc,
     tq_path = tr_path r, tq_remote_ip = Some (tr_remote_ip r), tq_orig_ip = tc_orig_ip tc,
     tq_headers = header_get (web r), tq_path_format = path_format r\<rparr>"

text \<open>The response the integrations were given last: none, the page's, or the one for a closed connection.\<close>

definition noted_response :: "'c application \<Rightarrow> exchange \<Rightarrow> traced_response option" where
  "noted_response app x =
     (let seen = (\<lambda>r. Some \<lparr>tp_status = response.status_code r, tp_headers = header_lookup app (resp_headers r)\<rparr>)
      in case noted x of
           NotNoted \<Rightarrow> None
         | NotedPage \<Rightarrow> seen (resp x)
         | NotedClosed \<Rightarrow> seen (FrontikResponse CLIENT_CLOSED_REQUEST [] []
             (case tr_request_id (req x) of Some rid \<Rightarrow> rid | None \<Rightarrow> [])))"

definition request_context_manager :: "nat \<Rightarrow> string \<Rightarrow> request_state manager" where
  "request_context_manager task generated s =
     (let sv = rs_server s; r = req (rs_exchange s);
          rid = choose_request_id (header_get (web r) ''X-Request-Id'') generated;
          (token, cs) = request_context_enter task rid (contexts sv)
      in Inr (\<lambda>e s. (e, s\<lparr>rs_server := (rs_server s)\<lparr>contexts := request_context_exit task token (contexts (rs_server s))\<rparr>\<rparr>),
              s\<lparr>rs_server := sv\<lparr>contexts := cs\<rparr>, rs_exchange := (rs_exchange s)\<lparr>req := r\<lparr>tr_request_id := Some rid\<rparr>\<rparr>\<rparr>))"

definition request_limiter_manager :: "'c application \<Rightarrow> request_state manager" where
  "request_limiter_manager app s =
     (let sv = rs_server s;
          (dto, acquired, l) = (request_limiter_enter (max_active_handlers app) (limit_state sv) :: (bool, response) integration_dto \<times> bool \<times> limiter)
      in Inr (\<lambda>e s. (e, s\<lparr>rs_server := (rs_server s)\<lparr>limit_state := request_limiter_exit acquired (limit_state (rs_server s))\<rparr>\<rparr>),
              s\<lparr>rs_server := sv\<lparr>limit_state := l\<rparr>, rs_admitted := get_value dto\<rparr>))"

text \<open>\<open>otel_instrumentation_ctx\<close> split at its \<open>yield\<close>; \<open>on\<close>, \<open>recording\<close> and \<open>server_kind\<close> are as in \<^const>\<open>otel_instrumentation_ctx\<close>.\<close>

record tracing =
  tr_lib :: otel_lib
  tr_on :: bool
  tr_recording :: bool
  tr_server_kind :: bool
  tr_connection :: traced_connection

definition telemetry_leave :: "tracing \<Rightarrow> env \<Rightarrow> 'c application \<Rightarrow> nat \<Rightarrow> request_state leave_fun" where
  "telemetry_leave t env app task e s =
     (case finish_span (tr_lib t) (phrases env) (tr_recording t) (tr_server_kind t)
             \<lparr>dto_value = None, dto_response = noted_response app (rs_exchange s)\<rparr>
             (get_handler_name task (contexts (rs_server s))) (traced (tr_connection t) (req (rs_exchange s))) of
        (calls, failed) \<Rightarrow>
          (let left = (case failed of Some e \<Rightarrow> Some e | None \<Rightarrow> e)
           in (left, s\<lparr>rs_spans := rs_spans s @ calls @ [EndSpan left]\<rparr>)))"

definition telemetry_manager :: "tracing \<Rightarrow> env \<Rightarrow> 'c application \<Rightarrow> nat \<Rightarrow> request_state manager" where
  "telemetry_manager t env app task s =
     (let q = traced (tr_connection t) (req (rs_exchange s)) in
      if \<not> tr_on t \<or> tq_path q \<in> set excluded_urls then Inr (\<lambda>e s. (e, s), s)
      else Inr (telemetry_leave t env app task,
        s\<lparr>rs_spans := rs_spans s @ start_span (tr_lib t) (tr_recording t) (tr_server_kind t) q\<rparr>))"

definition sentry_manager :: "string option \<Rightarrow> request_state manager" where
  "sentry_manager sentry_dsn s =
     Inr (\<lambda>e s. (e, s),
          s\<lparr>rs_extras := (case tr_request_id (req (rs_exchange s)) of
                           Some rid \<Rightarrow> sentry_context sentry_dsn rid (rs_extras s)
                         | None \<Rightarrow> rs_extras s)\<rparr>)"

text \<open>The list \<open>_integrations\<close>, by the names under which their objects are handed to the request.\<close>

definition get_integrations :: "tracing \<Rightarrow> string option \<Rightarrow> env \<Rightarrow> 'c application \<Rightarrow> nat \<Rightarrow> string \<Rightarrow> (string \<times> request_state manager) list" where
  "get_integrations t sentry_dsn env app task generated =
     [(''request_context'', request_context_manager task generated),
      (''request_limiter'', request_limiter_manager app),
      (''telemetry'', telemetry_manager t env app task),
      (''sentry'', sentry_manager sentry_dsn)]"

text \<open>The body of the \<open>with\<close> statement: process the request in a task of its own, then answer.\<close>

definition serve_body :: "env \<Rightarrow> 'c application \<Rightarrow> nat \<Rightarrow> nat \<Rightarrow> nat option \<Rightarrow> request_state \<Rightarrow> with_end \<times> request_state" where
  "serve_body env app task child close_in s =
     (let sv = (rs_server s)\<lparr>contexts := create_task task child (contexts (rs_server s))\<rparr>
      in case process_request env app child (rs_admitted s) close_in sv (rs_exchange s) of
           (e, sv, x) \<Rightarrow>
             (case e of
                Suspended \<Rightarrow> (StillInside, s\<lparr>rs_server := sv, rs_exchange := x\<rparr>)
              | Processed \<Rightarrow> (LeftWith None, s\<lparr>rs_server := sv, rs_exchange := finish_response env x\<rparr>)
              | Raised err \<Rightarrow> (LeftWith (Some err), s\<lparr>rs_server := sv, rs_exchange := x\<rparr>)
              | Aborted \<Rightarrow> (LeftWith (Some (PyException ''CancelledError'')), s\<lparr>rs_server := sv, rs_exchange := x\<rparr>)))"

definition start_request :: "server \<Rightarrow> (string, string option) dict \<Rightarrow> tornado_request \<Rightarrow> request_state" where
  "start_request sv extras r =
     \<lparr>rs_server = sv, rs_exchange = \<lparr>req = r, resp = FrontikResponse 200 [] [] [], conn = [], noted = NotNoted\<rparr>,
      rs_spans = [], rs_extras = extras, rs_admitted = None\<rparr>"

definition serve_in_stack :: "tracing \<Rightarrow> string option \<Rightarrow> env \<Rightarrow> 'c application \<Rightarrow> nat \<Rightarrow> nat \<Rightarrow> string \<Rightarrow> nat option \<Rightarrow>
    request_state \<Rightarrow> with_end \<times> request_state" where
  "serve_in_stack t sentry_dsn env app task child generated close_in s =
     exit_stack (map snd (get_integrations t sentry_dsn env app task generated)) (serve_body env app task child close_in) s"

section \<open>Each integration keeps its contract\<close>

text \<open>What a request takes from the server: a slot of the limiter, the context variable of its task.\<close>

definition taken :: "nat \<Rightarrow> request_state \<Rightarrow> int \<times> nat" where
  "taken task s = (active_count (limit_state (rs_server s)), ctxvar (contexts (rs_server s)) task)"

interpretation context_mgr: balanced "request_context_manager task generated" "taken task" for task generated
  by unfold_locales
    (auto simp: request_context_manager_def taken_def request_context_enter_def request_context_exit_def Let_def)

interpretation limiter_mgr: balanced "request_limiter_manager app" "taken task" for app task
  by unfold_locales (auto simp: request_limiter_manager_def taken_def limiter_defs Let_def split: if_splits prod.splits)

interpretation telemetry_mgr: balanced "telemetry_manager t env app task" "taken task" for t env app task
  by unfold_locales (auto simp: telemetry_manager_def telemetry_leave_def taken_def Let_def split: if_splits prod.splits)

interpretation sentry_mgr: balanced "sentry_manager sentry_dsn" "taken task" for sentry_dsn task
  by unfold_locales (auto simp: sentry_manager_def taken_def)

section \<open>The body\<close>

lemma process_request_keeps:
  assumes "process_request env app task acquired close_in sv x = (e, sv', x')"
  shows "limit_state sv' = limit_state sv \<and> ctxvar (contexts sv') = ctxvar (contexts sv)"
  using assms
  by (auto simp: process_request_def dispatch_page_def execute_asgi_page_def Let_def
      split: if_splits sum.splits prod.splits option.splits page_end.splits)

lemma serve_body_keeps:
  assumes "serve_body env app task child close_in s = (w, s')" and "child \<noteq> task"
  shows "taken task s' = taken task s"
proof -
  let ?sv = "(rs_server s)\<lparr>contexts := create_task task child (contexts (rs_server s))\<rparr>"
  obtain e sv x where p: "process_request env app child (rs_admitted s) close_in ?sv (rs_exchange s) = (e, sv, x)"
    by (metis prod_cases3)
  have "rs_server s' = sv" using assms(1) p by (cases e) (auto simp: serve_body_def Let_def)
  with process_request_keeps [OF p] assms(2) show ?thesis by (simp add: taken_def create_task_def)
qed

section \<open>Simulation\<close>

text \<open>The exception with which processing leaves the body.\<close>

fun raised_by :: "process_end \<Rightarrow> py_exc option" where
  "raised_by (Raised e) = Some e"
| "raised_by Aborted = Some (PyException ''CancelledError'')"
| "raised_by _ = None"

definition handler_of :: "server \<Rightarrow> server \<Rightarrow> string option" where
  "handler_of sv sv' = handler_name (store (contexts sv') (next_context (contexts sv)))"

lemma serve_in_stack_eq:
  "serve_in_stack t sentry_dsn env app task child generated close_in s =
     nested_with [request_context_manager task generated, request_limiter_manager app, telemetry_manager t env app task, sentry_manager sentry_dsn]
       (serve_body env app task child close_in) s"
  by (simp add: serve_in_stack_def exit_stack_nested get_integrations_def)

definition request_span :: "tracing \<Rightarrow> env \<Rightarrow> 'c application \<Rightarrow> server \<Rightarrow> tornado_request \<Rightarrow> process_end \<Rightarrow> server \<Rightarrow> exchange \<Rightarrow>
    span_call list \<times> py_exc option" where
  "request_span t env app sv r e sv' x =
     otel_instrumentation_ctx (tr_lib t) (phrases env) (tr_on t) (tr_recording t) (tr_server_kind t) (traced (tr_connection t) r)
       \<lparr>dto_value = None, dto_response = noted_response app x\<rparr> (handler_of sv sv') (traced (tr_connection t) (req x)) (raised_by e)"

lemma traced_with_id [simp]: "traced tc (r\<lparr>tr_request_id := i\<rparr>) = traced tc r"
  by (simp add: traced_def)

text \<open>The stack with its four managers entered and, unless the body waits, left again.\<close>

lemma stack_steps:
  assumes "request_context_enter task (choose_request_id (header_get (web r) ''X-Request-Id'') generated) (contexts sv) = (token, cs)"
    and "(request_limiter_enter (max_active_handlers app) (limit_state sv) :: (bool, response) integration_dto \<times> bool \<times> limiter) = (dto, acquired, l)"
    and "off = (\<not> tr_on t \<or> tr_path r \<in> set excluded_urls)"
    and "rid = choose_request_id (header_get (web r) ''X-Request-Id'') generated"
    and "serve_body env app task child close_in
        \<lparr>rs_server = sv\<lparr>contexts := cs, limit_state := l\<rparr>,
         rs_exchange = \<lparr>req = r\<lparr>tr_request_id := Some rid\<rparr>, resp = FrontikResponse 200 [] [] [], conn = [], noted = NotNoted\<rparr>,
         rs_spans = (if off then [] else start_span (tr_lib t) (tr_recording t) (tr_server_kind t) (traced (tr_connection t) r)),
         rs_extras = sentry_context sentry_dsn rid extras, rs_admitted = get_value dto\<rparr> = (w, s)"
  shows "serve_in_stack t sentry_dsn env app task child generated close_in (start_request sv extras r) =
    (case w of
       StillInside \<Rightarrow> (StillInside, s)
     | LeftWith e \<Rightarrow>
         (case (if off then (e, s) else telemetry_leave t env app task e s) of
            (e, s) \<Rightarrow> (LeftWith e, s\<lparr>rs_server := leave_integrations task token acquired (rs_server s)\<rparr>)))"
proof -
  have path: "tq_path (traced (tr_connection t) r) = tr_path r" by (simp add: traced_def)
  show ?thesis
    using assms path
    by (cases w; cases off)
      (simp_all add: serve_in_stack_eq request_context_manager_def request_limiter_manager_def telemetry_manager_def
        sentry_manager_def start_request_def leave_integrations_def Let_def split: prod.split)
qed

lemma serve_body_of_process:
  assumes "process_request env app child admitted close_in (sv\<lparr>contexts := create_task task child cs, limit_state := l\<rparr>) x0 = (pe, sv2, x2)"
  shows "serve_body env app task child close_in \<lparr>rs_server = sv\<lparr>contexts := cs, limit_state := l\<rparr>, rs_exchange = x0,
        rs_spans = sp, rs_extras = ex, rs_admitted = admitted\<rparr> =
      (if pe = Suspended then StillInside else LeftWith (raised_by pe),
       \<lparr>rs_server = sv2, rs_exchange = if pe = Processed then finish_response env x2 else x2,
        rs_spans = sp, rs_extras = ex, rs_admitted = admitted\<rparr>)"
proof -
  have sv1: "sv\<lparr>contexts := cs, limit_state := l\<rparr>\<lparr>contexts := create_task task child (contexts (sv\<lparr>contexts := cs, limit_state := l\<rparr>))\<rparr> =
      sv\<lparr>contexts := create_task task child cs, limit_state := l\<rparr>" by (cases sv) simp
  show ?thesis unfolding serve_body_def Let_def request_state.select_convs sv1 assms by (cases pe) simp_all
qed

lemma stack_simulates:
  assumes "serve_tornado_request env app task child generated close_in sv r = (e, sv', x)" and "child \<noteq> task"
  shows "\<exists>s'. serve_in_stack t sentry_dsn env app task child generated close_in (start_request sv extras r) =
      (if e = Suspended then StillInside else LeftWith (snd (request_span t env app sv r e sv' x)), s') \<and>
    rs_server s' = sv' \<and> rs_exchange s' = x \<and>
    (e \<noteq> Suspended \<longrightarrow> rs_spans s' = fst (request_span t env app sv r e sv' x))"
proof -
  let ?rid = "choose_request_id (header_get (web r) ''X-Request-Id'') generated"
  obtain token cs where cs: "request_context_enter task ?rid (contexts sv) = (token, cs)" by force
  obtain dto acquired l where l: "(request_limiter_enter (max_active_handlers app) (limit_state sv) :: (bool, response) integration_dto \<times> bool \<times> limiter) = (dto, acquired, l)"
    by (metis prod_cases3)
  let ?sv1 = "sv\<lparr>contexts := create_task task child cs, limit_state := l\<rparr>"
  let ?x0 = "\<lparr>req = r\<lparr>tr_request_id := Some ?rid\<rparr>, resp = FrontikResponse 200 [] [] [], conn = [], noted = NotNoted\<rparr>"
  obtain pe sv2 x2 where p: "process_request env app child (get_value dto) close_in ?sv1 ?x0 = (pe, sv2, x2)"
    by (metis prod_cases3)
  have tok: "ctxvar (contexts sv2) task = next_context (contexts sv)"
    using process_request_keeps [OF p] cs assms(2) by (auto simp: create_task_def request_context_enter_def)
  have srv: "(e, sv', x) = (case pe of Suspended \<Rightarrow> (Suspended, sv2, x2)
      | Processed \<Rightarrow> (Processed, leave_integrations task token acquired sv2, finish_response env x2)
      | _ \<Rightarrow> (pe, leave_integrations task token acquired sv2, x2))"
    using assms(1) cs l p by (cases pe) (auto simp: serve_tornado_request_def Let_def)
  have h: "handler_of sv (leave_integrations task token acquired sv2) = get_handler_name task (contexts sv2)"
    by (simp add: handler_of_def get_handler_name_def get_request_context_def leave_integrations_def request_context_exit_def tok)
  define off where "off = (\<not> tr_on t \<or> tr_path r \<in> set excluded_urls)"
  have path: "tq_path (traced (tr_connection t) r) = tr_path r" by (simp add: traced_def)
  let ?spans = "if off then [] else start_span (tr_lib t) (tr_recording t) (tr_server_kind t) (traced (tr_connection t) r)"
  note steps = stack_steps [OF cs l off_def refl serve_body_of_process [OF p]]
  show ?thesis
  proof (cases "pe = Suspended")
    case True
    then show ?thesis using srv steps by simp
  next
    case False
    then have e: "e = pe" "sv' = leave_integrations task token acquired sv2" "x = (if pe = Processed then finish_response env x2 else x2)"
      using srv by (cases pe; simp)+
    show ?thesis
    proof (cases off)
      case True
      with False e steps path show ?thesis by (simp add: off_def request_span_def otel_instrumentation_ctx_def)
    next
      case off: False
      with False e steps path h show ?thesis
        by (auto simp: off_def request_span_def otel_instrumentation_ctx_def telemetry_leave_def Let_def split: prod.splits)
    qed
  qed
qed

section \<open>Properties\<close>

text \<open>C22. 
  The integrations leave no trace: once a request is over, whatever exception its processing or an
  integration raised, the count of active handlers is what it was before and the context variable of the
  task is restored.
\<close>

theorem stack_leaves_no_trace:
  assumes "serve_in_stack t sentry_dsn env app task child generated close_in s = (LeftWith e, s')" and "child \<noteq> task"
  shows "active_count (limit_state (rs_server s')) = active_count (limit_state (rs_server s)) \<and>
    ctxvar (contexts (rs_server s')) task = ctxvar (contexts (rs_server s)) task"
proof -
  have "taken task s' = taken task s"
  proof (rule balanced_stack [OF _ _ assms(1) [unfolded serve_in_stack_def]])
    show "\<forall>m\<in>set (map snd (get_integrations t sentry_dsn env app task generated)). balanced m (taken task)"
      by (simp add: get_integrations_def context_mgr.balanced_axioms limiter_mgr.balanced_axioms
          telemetry_mgr.balanced_axioms sentry_mgr.balanced_axioms)
  qed (rule serve_body_keeps [OF _ assms(2)])
  then show ?thesis by (simp add: taken_def)
qed

text \<open>C5. 
  Telemetry and Sentry only observe: with all four integrations the server ends in the same state and
  the connection gets the same calls as with the first two alone, which is what \<open>serve_tornado_request\<close>
  describes. The span gets the calls of \<open>otel_instrumentation_ctx\<close> for the response that was sent, and the
  exception that leaves is the one that \<open>otel_instrumentation_ctx\<close> lets out.
\<close>

theorem stack_refines_serve:
  assumes "serve_tornado_request env app task child generated close_in sv r = (e, sv', x)" and "child \<noteq> task"
  shows "\<exists>s'. serve_in_stack t sentry_dsn env app task child generated close_in (start_request sv extras r) =
      (if e = Suspended then StillInside else LeftWith (snd (request_span t env app sv r e sv' x)), s') \<and>
    rs_server s' = sv' \<and> rs_exchange s' = x \<and>
    (e \<noteq> Suspended \<longrightarrow> rs_spans s' = fst (request_span t env app sv r e sv' x))"
  using assms by (rule stack_simulates)

section \<open>A concrete request\<close>

definition demo_tracing :: tracing where
  "demo_tracing = \<lparr>tr_lib = sample_otel, tr_on = True, tr_recording = True, tr_server_kind = True,
     tr_connection = \<lparr>tc_protocol = ''http'', tc_host = ''example'', tc_uri = ''/x'', tc_orig_ip = None\<rparr>\<rparr>"

lemma demo_stack: "fst (serve_in_stack demo_tracing (Some ''dsn'') demo_env demo_app 1 2 ''id'' None
    (start_request (demo_server 101 demo_routing) [] (demo_tornado_request ''GET'' []))) = LeftWith None"
  by code_simp

lemma demo_serve: "fst (serve_tornado_request demo_env demo_app 1 2 ''id'' None (demo_server 101 demo_routing)
    (demo_tornado_request ''GET'' [])) = Processed"
  by code_simp

theorem stack_leaves_no_trace_witness:
  "\<exists>s'. serve_in_stack demo_tracing (Some ''dsn'') demo_env demo_app 1 2 ''id'' None
      (start_request (demo_server 101 demo_routing) [] (demo_tornado_request ''GET'' [])) = (LeftWith None, s') \<and>
    active_count (limit_state (rs_server s')) = 101 \<and> ctxvar (contexts (rs_server s')) 1 = 0"
proof -
  obtain s' where s: "serve_in_stack demo_tracing (Some ''dsn'') demo_env demo_app 1 2 ''id'' None
      (start_request (demo_server 101 demo_routing) [] (demo_tornado_request ''GET'' [])) = (LeftWith None, s')"
    using demo_stack by (metis fst_conv surj_pair)
  from stack_leaves_no_trace [OF s] show ?thesis using s by (simp add: start_request_def demo_server_def initial_contexts_def)
qed

theorem stack_refines_serve_witness:
  "\<exists>sv' x s'. serve_tornado_request demo_env demo_app 1 2 ''id'' None (demo_server 101 demo_routing) (demo_tornado_request ''GET'' []) = (Processed, sv', x) \<and>
    serve_in_stack demo_tracing (Some ''dsn'') demo_env demo_app 1 2 ''id'' None
      (start_request (demo_server 101 demo_routing) [] (demo_tornado_request ''GET'' [])) = (LeftWith None, s') \<and>
    rs_server s' = sv' \<and> rs_exchange s' = x"
proof -
  obtain sv' x where s: "serve_tornado_request demo_env demo_app 1 2 ''id'' None (demo_server 101 demo_routing)
      (demo_tornado_request ''GET'' []) = (Processed, sv', x)" using demo_serve by (metis prod_cases3 fst_conv)
  have "(2 :: nat) \<noteq> 1" by simp
  from stack_refines_serve [OF s this, of demo_tracing "Some ''dsn''" "[]"] demo_stack s show ?thesis by auto
qed

end
