(* ===== verification/Update_Path.thy ===== *)
theory Update_Path
  imports Discovery Workers
begin

text \<open>
  The way of an update from the listener of the Consul cache in the master to the table of a worker:
  service discovery hands the changed upstreams to the hook that \<open>__master_function_wrapper\<close> installed,
  which pickles them once and writes them to the pipe of every worker; the listener of the worker reads
  the pipe and calls \<open>_worker_listener_handler\<close>. The theories of these parts are put together here; pickle
  is an argument.
\<close>

section \<open>Master and workers together\<close>

text \<open>The hook: each update is written to all workers, with the answers of their pipes.\<close>

definition broadcast :: "nat \<Rightarrow> ((int \<Rightarrow> nat \<Rightarrow> raw_reply list) \<times> byte list) list \<Rightarrow> 'v worker_state \<Rightarrow> 'v worker_state" where
  "broadcast bufsize updates ws = fold (\<lambda>(replies, data). send_to_all bufsize replies data) updates ws"

text \<open>What a worker makes of the rounds of its listener.\<close>

definition worker_listener_handler :: "('u, 's, 'c) balancing \<Rightarrow> 'u list \<Rightarrow> 'u worker_sd \<Rightarrow> 'u worker_sd" where
  "worker_listener_handler lib data w = worker_update_upstreams lib data w"

fun handle_events :: "('u, 's, 'c) balancing \<Rightarrow> (byte list \<Rightarrow> 'u list option) \<Rightarrow> listen_event list \<Rightarrow> 'u worker_sd \<Rightarrow> 'u worker_sd" where
  "handle_events lib loads [] w = w"
| "handle_events lib loads (Delivered d # evs) w =
     handle_events lib loads evs (case loads d of Some us \<Rightarrow> worker_listener_handler lib us w | None \<Rightarrow> w)"
| "handle_events lib loads (_ # evs) w = handle_events lib loads evs w"

definition unpickles :: "(byte list \<Rightarrow> 'u list option) \<Rightarrow> byte list \<Rightarrow> bool" where
  "unpickles loads d \<longleftrightarrow> loads d \<noteq> None"

section \<open>Lemmas\<close>

lemma send_to_all_pipe:
  assumes "dict_ok (write_pipes ws)" and "dict_get (write_pipes ws) pid = Some p"
  shows "\<exists>mb rs' mb' p'. send_update bufsize (replies pid 0) mb pid p data = (rs', mb', p') \<and>
    dict_get (write_pipes (send_to_all bufsize replies data ws)) pid = Some p'"
proof -
  let ?send = "send_to_pid bufsize replies data 0"
  have "pid \<in> set (dict_keys (write_pipes ws))" "distinct (dict_keys (write_pipes ws))"
    using assms pydict.ok_distinct by (auto simp: dict_keys_iff)
  then obtain us vs where keys: "dict_keys (write_pipes ws) = us @ pid # vs" "pid \<notin> set us" "pid \<notin> set vs"
    by (metis distinct.simps(2) distinct_append not_distinct_conv_prefix split_list_first)
  let ?ws1 = "fold ?send us ws"
  obtain rs' mb' p' where s: "send_update bufsize (replies pid 0) (mbox ?ws1) pid p data = (rs', mb', p')" by (metis prod_cases3)
  have "dict_get (write_pipes ?ws1) pid = Some p" using keys(2) assms(2) by (simp add: fold_send_other)
  then have "dict_get (write_pipes (?send pid ?ws1)) pid = Some p'" by (simp add: send_to_pid_def s)
  then show ?thesis using s fold_send_other [OF keys(3), of bufsize replies data 0 "?send pid ?ws1"]
    by (auto simp: send_to_all_def keys(1))
qed

text \<open>The pipe of a worker never breaks, and its buffer is empty after each update.\<close>

definition unbroken :: "int \<Rightarrow> ((int \<Rightarrow> nat \<Rightarrow> raw_reply list) \<times> byte list) list \<Rightarrow> bool" where
  "unbroken pid updates \<longleftrightarrow> (\<forall>u\<in>set updates. Broken \<notin> set (fst u pid 0))"

definition never_blocked :: "nat \<Rightarrow> ((int \<Rightarrow> nat \<Rightarrow> raw_reply list) \<times> byte list) list \<Rightarrow> int \<Rightarrow> 'v worker_state \<Rightarrow> bool" where
  "never_blocked bufsize updates pid ws \<longleftrightarrow> (\<forall>k\<le>length updates.
     case dict_get (write_pipes (broadcast bufsize (take k updates) ws)) pid of Some q \<Rightarrow> pending q = [] | None \<Rightarrow> False)"

lemma never_blocked_Cons:
  assumes "never_blocked bufsize ((r, d) # updates) pid ws"
  shows "never_blocked bufsize updates pid (send_to_all bufsize r d ws)"
    and "dict_get (write_pipes (send_to_all bufsize r d ws)) pid = Some q \<Longrightarrow> pending q = []"
proof -
  have step: "broadcast bufsize (take (Suc k) ((r, d) # updates)) ws = broadcast bufsize (take k updates) (send_to_all bufsize r d ws)" for k
    by (simp add: broadcast_def)
  show "never_blocked bufsize updates pid (send_to_all bufsize r d ws)"
    unfolding never_blocked_def
  proof (intro allI impI)
    fix k
    assume "k \<le> length updates"
    then show "case dict_get (write_pipes (broadcast bufsize (take k updates) (send_to_all bufsize r d ws))) pid of
        Some q \<Rightarrow> pending q = [] | None \<Rightarrow> False"
      using assms [unfolded never_blocked_def, rule_format, of "Suc k"] unfolding step by simp
  qed
  then show "pending q = []" if "dict_get (write_pipes (send_to_all bufsize r d ws)) pid = Some q"
    using that unfolding never_blocked_def by (auto simp: broadcast_def dest!: spec [of _ 0])
qed

text \<open>When no update leaves anything in the buffer of a pipe, the pipe holds all messages, complete and in order.\<close>

lemma broadcast_stream:
  assumes "0 < bufsize" and "pool_ok ws" and "dict_get (write_pipes ws) pid = Some p" and "pending p = []"
    and "unbroken pid updates" and "list_all (\<lambda>u. length (snd u) < 2 ^ 64) updates" and "never_blocked bufsize updates pid ws"
  shows "\<exists>q. dict_get (write_pipes (broadcast bufsize updates ws)) pid = Some q \<and>
    wire q = wire p @ concat (map (\<lambda>u. message (snd u)) updates)"
  using assms(2-7)
proof (induction updates arbitrary: ws p)
  case (Cons u updates)
  obtain r d where u: "u = (r, d)" by (cases u)
  let ?ws = "send_to_all bufsize r d ws"
  obtain mb rs' mb' q where s: "send_update bufsize (r pid 0) mb pid p d = (rs', mb', q)"
    and q: "dict_get (write_pipes ?ws) pid = Some q"
    using send_to_all_pipe [OF _ Cons.prems(2), of bufsize r d] Cons.prems(1) by (auto simp: pool_ok_def)
  note calm = never_blocked_Cons [OF Cons.prems(6) [unfolded u]]
  have empty: "pending q = []" by (rule calm(2) [OF q])
  have ok: "Broken \<notin> set (r pid 0)" "length d < 2 ^ 64" using Cons.prems(4,5) u by (auto simp: unbroken_def)
  have "stream q = stream p @ message d" using send_update_cases [OF s assms(1) ok] empty by auto
  then have wire: "wire q = wire p @ message d" using empty Cons.prems(3) by (simp add: stream_def)
  have "pool_ok ?ws" using send_to_all_pool [OF Cons.prems(1)] by blast
  from Cons.IH [OF this q empty _ _ calm(1)] Cons.prems(4,5)
  obtain q' where "dict_get (write_pipes (broadcast bufsize updates ?ws)) pid = Some q'"
    and "wire q' = wire q @ concat (map (\<lambda>u. message (snd u)) updates)" by (auto simp: unbroken_def)
  then show ?case using u wire by (auto simp: broadcast_def)
qed (simp add: broadcast_def)

lemma new_pipe_empty: "wire new_pipe = []" "pending new_pipe = []"
  by (simp_all add: new_pipe_def)

lemma handle_delivered:
  "(\<And>us. us \<in> set msgs \<Longrightarrow> loads (dumps us) = Some us) \<Longrightarrow>
    handle_events lib loads (map (received (unpickles loads)) (map dumps msgs) @ [PipeClosed]) w =
      fold (worker_update_upstreams lib) msgs w"
  by (induction msgs arbitrary: w) (simp_all add: received_def unpickles_def worker_listener_handler_def)

section \<open>Properties\<close>


section \<open>A concrete update\<close>

definition demo_update :: "(plain_upstream, string, nat) master_sd" where
  "demo_update = fold (master_event plain_lib demo_options) [Health ''u'' (Some (''dc1'', [''a'', ''b'']))] demo_master"

lemma demo_update_sent: "sent demo_update = [[\<lparr>pu_name = ''u'', pu_config = 0, pu_servers = [''b'', ''a'']\<rparr>]]"
  by (simp add: demo_update_def master_event_def update_upstreams_service_def update_upstreams_at_def send_updates_def
      create_upstream_def combine_servers_def plain_lib_def demo_defs Let_def)

definition demo_loads :: "byte list \<Rightarrow> plain_upstream list option" where
  "demo_loads d = (if d = [1, 2] then Some [\<lparr>pu_name = ''u'', pu_config = 0, pu_servers = [''b'', ''a'']\<rparr>] else None)"

lemma demo_broadcast: "never_blocked 8192 [(\<lambda>_ _. [Wrote 40], [1, 2])] 20 demo_pool"
proof -
  have "case dict_get (write_pipes (broadcast 8192 (take k [(\<lambda>_ _. [Wrote 40], [1, 2])]) demo_pool)) 20 of
      Some q \<Rightarrow> pending q = [] | None \<Rightarrow> False" for k
    by (cases k) (simp_all add: broadcast_def send_to_all_def send_to_pid_def demo_pool_fields dict_defs pipe_eval)
  then show ?thesis by (simp add: never_blocked_def)
qed


end
