(* ===== verification/Debug_Page.thy ===== *)
theory Debug_Page
  imports Debug_Log App Handler
begin

text \<open>
  The document of the debug page: the rest of \<open>DebugTransform.transform_chunk\<close> in \<open>frontik/debug.py\<close> and the
  versions that \<open>frontik/app.py\<close> reports. Pretty printing, the style sheet and the serialisation of XML
  are arguments, and so are the versions of the libraries.
\<close>

section \<open>Versions\<close>

record runtime =
  rt_tornado :: string
  rt_lxml :: "int list"
  rt_libxml :: "int list"
  rt_libxslt :: "int list"
  rt_aiohttp :: string
  rt_python :: string
  rt_loop_type :: string

definition dotted :: "int list \<Rightarrow> string" where
  "dotted xs = join_with ''.'' (map str_of_int xs)"

definition application_version :: string where
  "application_version = ''unknown''"

definition application_version_xml :: "string \<Rightarrow> xnode list" where
  "application_version_xml v = [E_text ''version'' v]"

text \<open>\<open>str(type(loop)).split("'")[1]\<close> raises \<open>IndexError\<close> on a text without an apostrophe.\<close>

definition get_frontik_and_apps_versions :: "runtime \<Rightarrow> string \<Rightarrow> string \<Rightarrow> xnode py" where
  "get_frontik_and_apps_versions rt app_module version =
     (let parts = split_on apos (rt_loop_type rt)
      in if length parts < 2 then Inl IndexError
         else Inr (E_kids ''versions''
           [E_text ''frontik'' frontik_version, E_text ''tornado'' (rt_tornado rt), E_text ''lxml.etree.LXML'' (dotted (rt_lxml rt)),
            E_text ''lxml.etree.LIBXML'' (dotted (rt_libxml rt)), E_text ''lxml.etree.LIBXSLT'' (dotted (rt_libxslt rt)),
            E_text ''aiohttp'' (rt_aiohttp rt), E_text ''python'' (filter (\<lambda>c. c \<noteq> CHR 0x0A) (rt_python rt)),
            E_text ''event_loop'' (parts ! 1),
            Node ''application'' [(''name'', app_module)] [] (application_version_xml version)]))"

section \<open>The document\<close>

text \<open>A node of a dict in XML as a node of the document.\<close>

fun element_node :: "element \<Rightarrow> xnode" where
  "element_node (Element t s ks) = Node t [] (case s of Some x \<Rightarrow> x | None \<Rightarrow> []) (map element_node ks)"

definition set_attr :: "print_env \<Rightarrow> string \<Rightarrow> string \<Rightarrow> xnode \<Rightarrow> xnode py" where
  "set_attr e k v n =
     (if valid_text e v then (case n of Node t as s ks \<Rightarrow> Inr (Node t (dict_set as k v) s ks)) else Inl ValueError)"

fun set_attrs :: "print_env \<Rightarrow> (string \<times> string) list \<Rightarrow> xnode \<Rightarrow> xnode py" where
  "set_attrs e [] n = Inr n"
| "set_attrs e ((k, v) # kvs) n = py_bind (set_attr e k v n) (set_attrs e kvs)"

definition append_nodes :: "xnode list \<Rightarrow> xnode \<Rightarrow> xnode" where
  "append_nodes ns n = (case n of Node t as s ks \<Rightarrow> Node t as s (ks @ ns))"

text \<open>A part that may fail is replaced by a text that says so.\<close>

definition safe_part :: "string \<Rightarrow> string \<Rightarrow> string py \<Rightarrow> xnode" where
  "safe_part t fallback part = E_text t (case part of Inr s \<Rightarrow> s | Inl _ \<Rightarrow> fallback)"

text \<open>The colours of \<open>//meta-info/upstream\<close>; \<open>crc\<close> is the checksum, and a node without a name raises.\<close>

fun color_node :: "(string \<Rightarrow> nat) \<Rightarrow> bool \<Rightarrow> xnode \<Rightarrow> xnode py"
  and color_nodes :: "(string \<Rightarrow> nat) \<Rightarrow> bool \<Rightarrow> xnode list \<Rightarrow> xnode list py" where
  "color_node crc in_meta (Node t as s ks) =
     py_bind (color_nodes crc (t = ''meta-info'') ks) (\<lambda>ks.
       if in_meta \<and> t = ''upstream'' then
         (case map_of as ''name'' of
            None \<Rightarrow> Inl TypeError
          | Some n \<Rightarrow> (case string_to_color (crc n) of (bg, fg) \<Rightarrow>
              Inr (Node t (dict_set (dict_set as ''bgcolor'' bg) ''fgcolor'' fg) s ks)))
       else Inr (Node t as s ks))"
| "color_nodes crc in_meta [] = Inr []"
| "color_nodes crc in_meta (n # ns) =
     py_bind (color_node crc in_meta n) (\<lambda>n. py_bind (color_nodes crc in_meta ns) (\<lambda>ns. Inr (n # ns)))"

text \<open>
  What the page is made of: the request, the response, the log, the two parts that may fail, and the
  clock when the request started, when the page is begun and when it is ended.
\<close>

record page_data =
  pg_method :: string
  pg_uri :: string
  pg_headers :: "(string \<times> string) list"
  pg_rid :: "string option"
  pg_handler :: "string option"
  pg_records :: "debug_record list"
  pg_code :: int
  pg_resp_headers :: "(string \<times> string) list"
  pg_streamed :: bool
  pg_body :: string
  pg_versions :: "string py"
  pg_status :: "string py"
  pg_started :: rat
  pg_begun :: rat
  pg_ended :: rat

definition head_attrs :: "print_env \<Rightarrow> page_data \<Rightarrow> (string \<times> string) list" where
  "head_attrs e d =
     [(''code'', str_of_int (pg_code d)),
      (''handler-name'', if truthy (pg_handler d) then the (pg_handler d) else ''unknown handler''),
      (''started'', fmt4 e (pg_started d)), (''request-id'', str_of_opt (pg_rid d)),
      (''stages-total'', fmt4 e ((pg_begun d - pg_started d) * 1000))]"

definition debug_log_data :: "print_env \<Rightarrow> (string \<Rightarrow> bool) \<Rightarrow> (string \<Rightarrow> nat) \<Rightarrow> page_data \<Rightarrow> xnode py" where
  "debug_log_data e valid_tag crc d =
     py_bind (produce_all e (pg_records d)) (\<lambda>log.
     py_bind (set_attrs e (head_attrs e d) log) (\<lambda>log.
     py_bind (headers_to_xml e (pg_headers d)) (\<lambda>request_headers.
     py_bind (cookies_to_xml e (pg_headers d)) (\<lambda>request_cookies.
     py_bind (headers_to_xml e (pg_resp_headers d)) (\<lambda>response_headers.
     py_bind (cookies_to_xml e (pg_resp_headers d)) (\<lambda>response_cookies.
     py_bind (original_response_xml valid_tag (valid_text e) (pg_streamed d) (pg_body d) (pg_resp_headers d) (pg_code d)) (\<lambda>original.
     py_bind (set_attrs e
       [(''response-size'', str_of_int (int (length (debug_chunk (pg_streamed d) (pg_body d))))),
        (''generate-time'', fmt4 e ((pg_ended d - pg_begun d) * 1000))]
       (append_nodes
         [safe_part ''versions'' ''failed to get version information'' (pg_versions d),
          safe_part ''status'' ''failed to get status information'' (pg_status d),
          E_kids ''request'' [E_text ''method'' (pg_method d), params_to_xml e (pg_uri d), request_headers, request_cookies],
          E_kids ''response'' [response_headers, response_cookies],
          element_node original] log))
       (color_node crc False))))))))"

text \<open>The body: rendered by the style sheet for a browser, the plain document for a calling frontik or when rendering fails.\<close>

definition log_document :: "(xnode \<Rightarrow> string option) \<Rightarrow> (xnode \<Rightarrow> string) \<Rightarrow> bool \<Rightarrow> xnode \<Rightarrow> string" where
  "log_document xslt tostring is_inherited doc =
     (if is_inherited then tostring doc else case xslt doc of Some s \<Rightarrow> s | None \<Rightarrow> tostring doc)"

definition page_versions :: "(xnode \<Rightarrow> string) \<Rightarrow> runtime \<Rightarrow> string \<Rightarrow> string py" where
  "page_versions pretty rt app_module =
     py_bind (get_frontik_and_apps_versions rt app_module application_version) (\<lambda>n. Inr (pretty n))"

definition page_status :: "((string, string) dict \<Rightarrow> string) \<Rightarrow> shared_state \<Rightarrow> rat \<Rightarrow> string \<Rightarrow> string py" where
  "page_status pretty sh uptime dc = py_bind (get_current_status sh uptime dc application_version) (\<lambda>s. Inr (pretty s))"

section \<open>Lemmas\<close>

text \<open>A dict read back from a node, as \<open>xml_to_dict\<close> reads it.\<close>

fun node_dict :: "xnode \<Rightarrow> xml_dict" where
  "node_dict (Node t as s ks) =
     (if ks = [] then XText s else XDict (fold (\<lambda>(k, v) d. dict_set d k v) (map (\<lambda>n. (xtag n, node_dict n)) ks) []))"

lemma xtag_element_node [simp]: "xtag (element_node el) = tag el"
  by (cases el) simp

lemma node_dict_element: "node_dict (element_node el) = xml_to_dict el"
proof (induction el)
  case (Element t s ks)
  then have "map (\<lambda>n. (xtag n, node_dict n)) (map element_node ks) = map (\<lambda>e. (tag e, xml_to_dict e)) ks" by simp
  then show ?case by (simp del: map_map)
qed

text \<open>Nodes the colouring leaves alone.\<close>

fun uncolored :: "xnode \<Rightarrow> bool" where
  "uncolored (Node t as s ks) \<longleftrightarrow> (t = ''meta-info'' \<longrightarrow> ks = []) \<and> list_all uncolored ks"

lemma color_uncolored: "uncolored n \<Longrightarrow> color_node crc False n = Inr n"
proof (induction n)
  case (Node t as s ks)
  have "color_nodes crc False ks = Inr ks" using Node.prems Node.IH by (induction ks) auto
  with Node.prems show ?case by (cases "t = ''meta-info''") simp_all
qed

lemma color_nodes_snoc:
  "color_nodes crc b (ns @ [n]) = py_bind (color_nodes crc b ns) (\<lambda>ns. py_bind (color_node crc b n) (\<lambda>n. Inr (ns @ [n])))"
proof (induction ns)
  case (Cons m ns)
  then show ?case by (cases "color_node crc b m"; cases "color_nodes crc b ns"; cases "color_node crc b n") simp_all
qed (cases "color_node crc b n", simp_all)

lemma text_items_leaves:
  "items_to_xml vt vx (map (\<lambda>(k, v). (k, XText v)) hs) = Inr es \<Longrightarrow> list_all (\<lambda>el. uncolored (element_node el)) es"
  by (induction hs arbitrary: es) (auto simp: py_bind_Inr_conv split: if_splits)

lemma original_uncolored:
  assumes "original_response_xml vt vx streamed body hs code = Inr el"
  shows "uncolored (element_node el) \<and> tag el = ''original-response''"
  using assms text_items_leaves [of vt vx hs]
  by (auto simp: original_response_xml_def original_response_def py_bind_Inr_conv list_all_iff split: if_splits)

lemma set_attr_shape:
  assumes "set_attr e k v n = Inr n'"
  shows "xkids n' = xkids n" and "xtag n' = xtag n" and "map_of (xattrs n') j = (if j = k then Some v else map_of (xattrs n) j)"
  using assms dict_get_set [of "xattrs n" k v j] by (cases n; auto simp: set_attr_def dict_get_def split: if_splits)+

lemma set_attrs_shape:
  assumes "set_attrs e kvs n = Inr n'"
  shows "xkids n' = xkids n" and "xtag n' = xtag n"
    and "map_of (xattrs n') j = (case map_of (rev kvs) j of Some v \<Rightarrow> Some v | None \<Rightarrow> map_of (xattrs n) j)"
proof -
  have "xkids n' = xkids n \<and> xtag n' = xtag n \<and>
      map_of (xattrs n') j = (case map_of (rev kvs) j of Some v \<Rightarrow> Some v | None \<Rightarrow> map_of (xattrs n) j)"
    using assms
  proof (induction kvs arbitrary: n)
    case (Cons kv kvs)
    obtain k v where kv: "kv = (k, v)" by (cases kv)
    with Cons.prems obtain n1 where n1: "set_attr e k v n = Inr n1" "set_attrs e kvs n1 = Inr n'" by (auto simp: py_bind_Inr_conv)
    from Cons.IH [OF n1(2)] set_attr_shape [OF n1(1)] kv show ?case
      by (auto simp: map_add_def split: option.splits)
  qed simp
  then show "xkids n' = xkids n" "xtag n' = xtag n"
    "map_of (xattrs n') j = (case map_of (rev kvs) j of Some v \<Rightarrow> Some v | None \<Rightarrow> map_of (xattrs n) j)" by blast+
qed

lemma append_nodes_shape [simp]:
  "xkids (append_nodes ns n) = xkids n @ ns" "xtag (append_nodes ns n) = xtag n" "xattrs (append_nodes ns n) = xattrs n"
  by (cases n; simp add: append_nodes_def)+

lemma color_root:
  assumes "color_node crc False n = Inr n'" and "xtag n \<noteq> ''meta-info''" and "xkids n = ks @ [k]" and "uncolored k"
  shows "xattrs n' = xattrs n \<and> last (xkids n') = k"
  using assms color_uncolored [OF assms(4), of crc]
  by (cases n) (auto simp: color_nodes_snoc py_bind_Inr_conv)

section \<open>Properties\<close>


definition sample_page :: page_data where
  "sample_page = \<lparr>pg_method = ''GET'', pg_uri = ''/page?a=1'', pg_headers = [(''Host'', ''example'')], pg_rid = Some ''15'',
     pg_handler = None, pg_records = [], pg_code = 404, pg_resp_headers = [(''Server'', ''Frontik'')], pg_streamed = False,
     pg_body = ''no such page'', pg_versions = Inr ''v'', pg_status = Inl (HTTPException 500), pg_started = 1, pg_begun = 2, pg_ended = 3\<rparr>"

lemma sample_page_built: "\<not> isl (debug_log_data sample_print_env (\<lambda>_. True) length sample_page)"
  by code_simp


end
