(* ===== verification/Bootstrap.thy ===== *)
theory Bootstrap
  imports Integrations
begin

text \<open>
  What happens before a server serves: the debugger that \<open>frontik/pydebug.py\<close> attaches, and the search for
  the modules of the pages, \<open>_iter_submodules\<close> in \<open>frontik/routing.py\<close>. The file system is a tree of folders.
\<close>

section \<open>The debugger\<close>

definition removeprefix :: "string \<Rightarrow> string \<Rightarrow> string" where
  "removeprefix s p = (if starts_with s p then drop (length p) s else s)"

datatype debugger_call =
    DebugpyListen int
  | DebugpyWaitForClient
  | PydevdSettrace string int bool

definition parse_debug_setting :: "string \<Rightarrow> (bool \<times> int) py" where
  "parse_debug_setting setting =
     (let suspend = starts_with setting ''suspend:''
      in case py_int 10 (if \<not> suspend then setting else removeprefix setting ''suspend:'') of
           None \<Rightarrow> Inl ValueError
         | Some port \<Rightarrow> Inr (suspend, port))"

definition try_init_debugger :: "string option \<Rightarrow> debugger_call list py" where
  "try_init_debugger debug_setting =
     (if \<not> truthy debug_setting then Inr []
      else let s = the debug_setting
           in if starts_with s ''debugpy:'' then
                py_bind (parse_debug_setting (removeprefix s ''debugpy:'')) (\<lambda>(suspend, port).
                  Inr (DebugpyListen port # (if suspend then [DebugpyWaitForClient] else [])))
              else if starts_with s ''pydevd:'' then
                (case partition_at CHR '':'' (removeprefix s ''pydevd:'') of (host, _, rest) \<Rightarrow>
                   py_bind (parse_debug_setting rest) (\<lambda>(suspend, port). Inr [PydevdSettrace host port suspend]))
              else Inr [])"

section \<open>The modules of the pages\<close>

text \<open>
  A folder: the modules in it, whether it has an \<open>__init__.py\<close>, and its folders. What is listed is in
  the order of the file system; \<open>walk_packages\<close> goes only into folders with an \<open>__init__.py\<close>.
\<close>

datatype folder = Folder (modules_in: "string list") (has_init: bool) (folders: "(string \<times> folder) list")

fun walk_packages :: "string \<Rightarrow> folder \<Rightarrow> string list" where
  "walk_packages prefix (Folder ms i fs) =
     map (\<lambda>m. prefix @ m) ms @
     concat (map (\<lambda>(n, f). if has_init f then (prefix @ n) # walk_packages (prefix @ n @ ''.'') f else []) fs)"

definition namespace_folders :: "folder list \<Rightarrow> (string \<times> folder) list" where
  "namespace_folders fs = filter (\<lambda>(n, f). \<not> ends_with n ''__pycache__'') (concat (map folders fs))"

text \<open>The entries of \<open>namespace_packages\<close>: the names in the order of their first folder, each with all its folders.\<close>

definition folders_named :: "string \<Rightarrow> (string \<times> folder) list \<Rightarrow> folder list" where
  "folders_named n nfs = map snd (filter (\<lambda>nf. fst nf = n) nfs)"

definition names_in_order :: "(string \<times> folder) list \<Rightarrow> string list" where
  "names_in_order nfs = rev (remdups (rev (map fst nfs)))"

lemma folder_size_sub: "(n, f) \<in> set fs \<Longrightarrow> size f < size (Folder ms i fs)"
  by (induction fs) auto

lemma size_concat_folders: "fs \<noteq> [] \<Longrightarrow> sum_list (map (\<lambda>nf. size (snd nf)) (concat (map folders fs))) < sum_list (map size fs)"
proof -
  have one: "sum_list (map (\<lambda>nf. size (snd nf)) (folders f)) < size f" for f
  proof (cases f)
    case (Folder ms i nfs)
    have "sum_list (map (\<lambda>nf. size (snd nf)) nfs) \<le> size_list (size_prod (\<lambda>_. 0) size) nfs" by (induction nfs) auto
    with Folder show ?thesis by simp
  qed
  show "fs \<noteq> [] \<Longrightarrow> ?thesis"
  proof (induction fs)
    case (Cons f fs)
    then show ?case using one [of f] by (cases fs) auto
  qed simp
qed

lemma sum_list_filter_le: "sum_list (map f (filter P xs)) \<le> (sum_list (map f xs) :: nat)"
  by (induction xs) auto

function iter_submodules :: "string \<Rightarrow> folder list \<Rightarrow> string list" where
  "iter_submodules prefix path =
     concat (map (walk_packages prefix) path) @
     (if path = [] then [] else
      concat (map (\<lambda>n. (prefix @ n) # iter_submodules (prefix @ n @ ''.'') (folders_named n (namespace_folders path)))
        (names_in_order (namespace_folders path))))"
  by pat_completeness auto
termination
proof (relation "measure (\<lambda>(_, path). sum_list (map size path))")
  fix prefix n and path :: "folder list"
  assume "path \<noteq> []"
  have "sum_list (map size (folders_named n (namespace_folders path))) \<le>
      sum_list (map (\<lambda>nf. size (snd nf)) (concat (map folders path)))"
    unfolding folders_named_def namespace_folders_def
    using sum_list_filter_le order_trans by (fastforce simp: comp_def)
  also have "\<dots> < sum_list (map size path)" using size_concat_folders [OF \<open>path \<noteq> []\<close>] .
  finally show "((prefix @ n @ ''.'', folders_named n (namespace_folders path)), prefix, path)
    \<in> measure (\<lambda>(_, path). sum_list (map size path))" by simp
qed simp

declare iter_submodules.simps [simp del]

section \<open>Lemmas\<close>

text \<open>The modules below a path, in folders of any kind, and the names of modules and folders below it.\<close>

inductive page_module :: "string \<Rightarrow> folder list \<Rightarrow> string \<Rightarrow> bool" where
  module_here: "f \<in> set path \<Longrightarrow> m \<in> set (modules_in f) \<Longrightarrow> page_module prefix path (prefix @ m)"
| module_below: "(n, f) \<in> set (namespace_folders path) \<Longrightarrow> page_module (prefix @ n @ ''.'') [f] name \<Longrightarrow> page_module prefix path name"

inductive page_name :: "string \<Rightarrow> folder list \<Rightarrow> string \<Rightarrow> bool" where
  name_module: "f \<in> set path \<Longrightarrow> m \<in> set (modules_in f) \<Longrightarrow> page_name prefix path (prefix @ m)"
| name_folder: "f \<in> set path \<Longrightarrow> (n, g) \<in> set (folders f) \<Longrightarrow> page_name prefix path (prefix @ n)"
| name_below: "f \<in> set path \<Longrightarrow> (n, g) \<in> set (folders f) \<Longrightarrow> page_name (prefix @ n @ ''.'') [g] name \<Longrightarrow> page_name prefix path name"

lemma names_in_order_set: "set (names_in_order nfs) = fst ` set nfs"
  by (simp add: names_in_order_def)

lemma folders_named_set: "f \<in> set (folders_named n nfs) \<longleftrightarrow> (n, f) \<in> set nfs"
  by (force simp: folders_named_def)

lemma namespace_folders_mono: "set path \<subseteq> set path' \<Longrightarrow> set (namespace_folders path) \<subseteq> set (namespace_folders path')"
  by (auto simp: namespace_folders_def)

lemma iter_submodules_here: "f \<in> set path \<Longrightarrow> m \<in> set (modules_in f) \<Longrightarrow> prefix @ m \<in> set (iter_submodules prefix path)"
  by (subst iter_submodules.simps) (cases f, force)

lemma iter_submodules_below:
  assumes "(n, f) \<in> set (namespace_folders path)"
    and "name \<in> set (iter_submodules (prefix @ n @ ''.'') (folders_named n (namespace_folders path)))"
  shows "name \<in> set (iter_submodules prefix path)"
proof -
  have "path \<noteq> []" using assms(1) by (auto simp: namespace_folders_def)
  moreover have "n \<in> set (names_in_order (namespace_folders path))" using assms(1) by (force simp: names_in_order_set)
  ultimately show ?thesis using assms(2) by (subst iter_submodules.simps) auto
qed

lemma iter_submodules_finds:
  "page_module prefix path name \<Longrightarrow> set path \<subseteq> set path' \<Longrightarrow> name \<in> set (iter_submodules prefix path')"
proof (induction arbitrary: path' rule: page_module.induct)
  case (module_here f path m prefix)
  then show ?case by (blast intro: iter_submodules_here)
next
  case (module_below n f path prefix name)
  then have nf: "(n, f) \<in> set (namespace_folders path')" using namespace_folders_mono by blast
  then have "set [f] \<subseteq> set (folders_named n (namespace_folders path'))" by (simp add: folders_named_set)
  with module_below.IH nf show ?case by (blast intro: iter_submodules_below)
qed

lemma page_name_mono: "page_name prefix path name \<Longrightarrow> set path \<subseteq> set path' \<Longrightarrow> page_name prefix path' name"
  by (induction rule: page_name.induct) (blast intro: page_name.intros)+

lemma walk_packages_names: "name \<in> set (walk_packages prefix f) \<Longrightarrow> page_name prefix [f] name"
proof (induction prefix f rule: walk_packages.induct)
  case (1 prefix ms i fs)
  consider m where "m \<in> set ms" "name = prefix @ m"
    | n g where "(n, g) \<in> set fs" "has_init g" "name = prefix @ n \<or> name \<in> set (walk_packages (prefix @ n @ ''.'') g)"
    using "1.prems" by (auto split: if_splits)
  then show ?case
  proof cases
    case 1
    then show ?thesis by (auto intro: name_module [of "Folder ms i fs"])
  next
    case 2
    from 2(3) show ?thesis
    proof
      assume "name = prefix @ n"
      with 2(1) show ?thesis by (auto intro: name_folder [of "Folder ms i fs"])
    next
      assume "name \<in> set (walk_packages (prefix @ n @ ''.'') g)"
      with "1.IH" 2(1,2) have "page_name (prefix @ n @ ''.'') [g] name" by auto
      with 2(1) show ?thesis by (auto intro: name_below [of "Folder ms i fs"])
    qed
  qed
qed

text \<open>Names below several folders of one name are names below one of them.\<close>

lemma page_name_one: "page_name prefix path name \<Longrightarrow> \<exists>f\<in>set path. page_name prefix [f] name"
proof (induction rule: page_name.induct)
  case (name_module f path m prefix)
  then show ?case using page_name.name_module [of f "[f]" m prefix] by auto
next
  case (name_folder f path n g prefix)
  then show ?case using page_name.name_folder [of f "[f]" n g prefix] by auto
next
  case (name_below f path n g prefix name)
  then show ?case using page_name.name_below [of f "[f]" n g prefix name] by auto
qed

lemma iter_submodules_names: "name \<in> set (iter_submodules prefix path) \<Longrightarrow> page_name prefix path name"
proof (induction prefix path arbitrary: name rule: iter_submodules.induct)
  case (1 prefix path)
  consider f where "f \<in> set path" "name \<in> set (walk_packages prefix f)"
    | n where "path \<noteq> []" "n \<in> set (names_in_order (namespace_folders path))"
        "name = prefix @ n \<or> name \<in> set (iter_submodules (prefix @ n @ ''.'') (folders_named n (namespace_folders path)))"
    using "1.prems" by (subst (asm) iter_submodules.simps) (auto split: if_splits)
  then show ?case
  proof cases
    case 1
    then show ?thesis using page_name_mono [OF walk_packages_names [of name prefix f], of path] by simp
  next
    case 2
    have folder: "\<exists>h\<in>set path. (n, g) \<in> set (folders h)" if "(n, g) \<in> set (namespace_folders path)" for g
      using that by (auto simp: namespace_folders_def)
    from 2(3) show ?thesis
    proof
      assume "name = prefix @ n"
      moreover obtain g where "(n, g) \<in> set (namespace_folders path)" using 2(2) by (auto simp: names_in_order_set)
      ultimately show ?thesis using folder by (blast intro: name_folder)
    next
      assume "name \<in> set (iter_submodules (prefix @ n @ ''.'') (folders_named n (namespace_folders path)))"
      from page_name_one [OF "1.IH" [OF 2(1,2) this]]
      obtain g where "(n, g) \<in> set (namespace_folders path)" "page_name (prefix @ n @ ''.'') [g] name"
        by (auto simp: folders_named_set)
      then show ?thesis using folder by (blast intro: name_below)
    qed
  qed
qed

section \<open>Properties\<close>

text \<open>C31. 
  The search for pages finds every module below the package, in folders with and without an
  \<open>__init__.py\<close>, except in byte-code caches, and yields only names of modules and folders below it.
\<close>

theorem iter_submodules_complete:
  "{name. page_module prefix path name} \<subseteq> set (iter_submodules prefix path) \<and>
   set (iter_submodules prefix path) \<subseteq> {name. page_name prefix path name}"
  using iter_submodules_finds [OF _ subset_refl] iter_submodules_names by blast

lemma parse_debug_setting_str:
  assumes "0 \<le> port"
  shows "parse_debug_setting ((if suspend then ''suspend:'' else []) @ str_of_int port) = Inr (suspend, port)"
proof -
  have "decimal (hd (nat_digits (nat port)))" using nat_digits_decimal [of "nat port"] nat_digits_not_Nil [of "nat port"]
    by (cases "nat_digits (nat port)") auto
  then have "hd (nat_digits (nat port)) \<noteq> CHR ''s''" by (auto simp: decimal_def)
  then have "\<not> starts_with (str_of_int port) ''suspend:''" using assms nat_digits_not_Nil [of "nat port"]
    by (cases "nat_digits (nat port)") (auto simp: str_of_int_def starts_with_def)
  then show ?thesis
    by (simp add: parse_debug_setting_def removeprefix_def starts_with_def py_int_str_of_int)
qed

lemma debugpy_setting: "try_init_debugger (Some (''debugpy:'' @ x)) =
    py_bind (parse_debug_setting x) (\<lambda>(suspend, port). Inr (DebugpyListen port # (if suspend then [DebugpyWaitForClient] else [])))"
  by (simp add: try_init_debugger_def starts_with_def removeprefix_def)

lemma pydevd_setting: "try_init_debugger (Some (''pydevd:'' @ x)) =
    (case partition_at CHR '':'' x of (host, _, rest) \<Rightarrow> py_bind (parse_debug_setting rest) (\<lambda>(suspend, port). Inr [PydevdSettrace host port suspend]))"
  by (simp add: try_init_debugger_def starts_with_def removeprefix_def)

text \<open>
  The setting of the debugger is read back: the port, whether the server waits, and for pydevd the host.
\<close>

theorem debugger_setting_read:
  assumes "0 \<le> port" and "CHR '':'' \<notin> set host"
  shows "try_init_debugger (Some (''pydevd:'' @ host @ '':'' @ (if suspend then ''suspend:'' else []) @ str_of_int port)) =
      Inr [PydevdSettrace host port suspend] \<and>
    try_init_debugger (Some (''debugpy:'' @ (if suspend then ''suspend:'' else []) @ str_of_int port)) =
      Inr (DebugpyListen port # (if suspend then [DebugpyWaitForClient] else []))"
proof -
  let ?rest = "(if suspend then ''suspend:'' else []) @ str_of_int port"
  have parsed: "parse_debug_setting ?rest = Inr (suspend, port)" by (rule parse_debug_setting_str [OF assms(1)])
  have "partition_at CHR '':'' (host @ '':'' @ ?rest) = (host, '':'', ?rest)"
    using partition_at_found [OF assms(2), of ?rest] by simp
  then show ?thesis by (simp only: pydevd_setting debugpy_setting parsed py_bind_simps prod.case simp_thms)
qed

theorem debugger_setting_read_witness:
  "try_init_debugger (Some ''pydevd:localhost:suspend:90'') = Inr [PydevdSettrace ''localhost'' 90 True]"
proof -
  have port: "str_of_int 90 = ''90''" by code_simp
  have "try_init_debugger (Some (''pydevd:'' @ ''localhost'' @ '':'' @ (if True then ''suspend:'' else []) @ str_of_int 90)) =
      Inr [PydevdSettrace ''localhost'' 90 True]"
    by (rule conjunct1 [OF debugger_setting_read]) simp_all
  then show ?thesis by (simp only: port if_True append.simps)
qed

end
