(* ===== verification/Test_Support.thy ===== *)
theory Test_Support
  imports Util
begin

text \<open>
  What \<open>frontik/testing.py\<close> offers to the tests of an application: stubs for outgoing requests, whose address
  and body are templates (\<open>safe_template\<close> in \<open>frontik/util/__init__.py\<close>), and content types by file name
  (\<open>frontik/media_types.py\<close>).
\<close>

section \<open>Templates\<close>

definition id_start :: "char \<Rightarrow> bool" where
  "id_start c \<longleftrightarrow> c = CHR ''_'' \<or> (let n = (of_char c :: nat) in 65 \<le> n \<and> n \<le> 90 \<or> 97 \<le> n \<and> n \<le> 122)"

definition id_char :: "char \<Rightarrow> bool" where
  "id_char c \<longleftrightarrow> id_start c \<or> (let n = (of_char c :: nat) in 48 \<le> n \<and> n \<le> 57)"

definition leading_name :: "string \<Rightarrow> string" where
  "leading_name s = (case s of c # _ \<Rightarrow> if id_start c then takeWhile id_char s else [] | [] \<Rightarrow> [])"

text \<open>
  \<open>Template(s).safe_substitute\<close>: a dollar sign before a dollar sign, before a name or before a name in
  braces; an unknown name stays as it is, and so does any other dollar sign.
\<close>

function safe_substitute :: "(string \<Rightarrow> string option) \<Rightarrow> string \<Rightarrow> string" where
  "safe_substitute m [] = []"
| "safe_substitute m (c # s) =
     (if c \<noteq> CHR ''$'' then c # safe_substitute m s
      else if s \<noteq> [] \<and> hd s = CHR ''$'' then CHR ''$'' # safe_substitute m (tl s)
      else if leading_name s \<noteq> []
        then (case m (leading_name s) of Some v \<Rightarrow> v | None \<Rightarrow> c # leading_name s) @ safe_substitute m (drop (length (leading_name s)) s)
      else if s \<noteq> [] \<and> hd s = CHR ''{'' \<and> leading_name (tl s) \<noteq> [] \<and> take 1 (drop (length (leading_name (tl s))) (tl s)) = ''}''
        then (case m (leading_name (tl s)) of Some v \<Rightarrow> v | None \<Rightarrow> ''${'' @ leading_name (tl s) @ ''}'') @
             safe_substitute m (drop (Suc (length (leading_name (tl s)))) (tl s))
      else c # safe_substitute m s)"
  by pat_completeness auto
termination
  by (relation "measure (\<lambda>(m, s). length s)") auto

declare safe_substitute.simps(2) [simp del]

definition safe_template :: "(string \<Rightarrow> string option) \<Rightarrow> string \<Rightarrow> string" where
  "safe_template kwargs format_string = safe_substitute kwargs format_string"

section \<open>Stubs\<close>

definition guess_content_type_headers :: "string \<Rightarrow> (string, string) dict" where
  "guess_content_type_headers file_name =
     (if ends_with file_name ''.json'' then [(''Content-Type'', ''application/json'')]
      else if ends_with file_name ''.xml'' then [(''Content-Type'', ''application/xml'')]
      else if ends_with file_name ''.txt'' then [(''Content-Type'', ''text/plain'')]
      else if ends_with file_name ''.proto'' then [(''Content-Type'', ''application/x-protobuf'')]
      else [])"

record 'f stub =
  stub_url :: string
  stub_method :: string
  stub_status :: int
  stub_headers :: "(string, string) dict"
  stub_body :: string
  stub_repeat :: bool
  stub_function :: "'f option"

text \<open>\<open>read_file\<close> gives the content of the file; \<open>processor\<close> is the response body processor, if it is callable.\<close>

definition set_stub :: "(string \<Rightarrow> string) \<Rightarrow> ((string \<Rightarrow> string option) \<Rightarrow> string \<Rightarrow> string) option \<Rightarrow> (string \<Rightarrow> string option) \<Rightarrow>
    string \<Rightarrow> string \<Rightarrow> string option \<Rightarrow> string \<Rightarrow> int \<Rightarrow> (string, string) dict option \<Rightarrow> bool \<Rightarrow> 'f option \<Rightarrow> 'f stub" where
  "set_stub read_file processor kwargs url request_method response_file response_body response_code response_headers repeat response_function =
     (let headers = (case response_file of Some f \<Rightarrow> guess_content_type_headers f | None \<Rightarrow> []);
          body = (case response_file of Some f \<Rightarrow> read_file f | None \<Rightarrow> response_body)
      in \<lparr>stub_url = safe_template kwargs url, stub_method = request_method, stub_status = response_code,
          stub_headers = (case response_headers of Some hs \<Rightarrow> fold (\<lambda>(k, v) d. dict_set d k v) hs headers | None \<Rightarrow> headers),
          stub_body = (case processor of Some p \<Rightarrow> p kwargs body | None \<Rightarrow> body),
          stub_repeat = repeat, stub_function = response_function\<rparr>)"

section \<open>Requests of a test\<close>

record test_request =
  tq_url_host :: string
  tq_name :: string
  tq_request_path :: string
  tq_request_name :: string
  tq_request_method :: string
  tq_request_timeout :: rat

text \<open>\<open>fetch\<close> builds a request to the port of the application under test; \<open>client\<close> is the HTTP client.\<close>

definition fetch :: "(test_request \<Rightarrow> 'r py) \<Rightarrow> int \<Rightarrow> string \<Rightarrow> (string, query_value) dict option \<Rightarrow> string \<Rightarrow> rat \<Rightarrow> 'r py" where
  "fetch client port path query meth request_timeout =
     client \<lparr>tq_url_host = ''http://127.0.0.1:'' @ str_of_int port, tq_name = ''test'',
       tq_request_path = make_url path (case query of Some q \<Rightarrow> q | None \<Rightarrow> []), tq_request_name = ''test_request'',
       tq_request_method = meth, tq_request_timeout = request_timeout\<rparr>"

text \<open>\<open>fetch_json\<close> and \<open>fetch_xml\<close>: the body of the answer, read by \<open>parse\<close>; the timeout is that of \<open>fetch\<close>.\<close>

definition fetch_parsed :: "('r \<Rightarrow> 'd py) \<Rightarrow> (test_request \<Rightarrow> 'r py) \<Rightarrow> int \<Rightarrow> string \<Rightarrow> (string, query_value) dict option \<Rightarrow> string \<Rightarrow> 'd py" where
  "fetch_parsed parse client port path query meth = py_bind (fetch client port path query meth 2) parse"

definition configure_app :: "(string, 'v) dict \<Rightarrow> (string, 'v) dict \<Rightarrow> (string, 'v) dict" where
  "configure_app kwargs config = fold (\<lambda>(name, val) d. dict_set d name val) kwargs config"

section \<open>Properties\<close>

lemma leading_name_prefix: "take (length (leading_name s)) s = leading_name s"
proof (cases "leading_name s = []")
  case False
  then have "leading_name s = takeWhile id_char s" by (cases s) (auto simp: leading_name_def split: if_splits)
  then show ?thesis by (metis takeWhile_eq_take)
qed simp

lemma safe_substitute_other: "c \<noteq> CHR ''$'' \<Longrightarrow> safe_substitute m (c # s) = c # safe_substitute m s"
  by (subst safe_substitute.simps(2)) simp

lemma safe_substitute_plain: "CHR ''$'' \<notin> set s \<Longrightarrow> safe_substitute m (s @ t) = s @ safe_substitute m t"
  by (induction s) (auto simp: safe_substitute_other)

text \<open>A template without values for its names keeps them: only doubled dollar signs change.\<close>

theorem template_keeps_unknown_names:
  assumes "\<not> contains s ''$$''"
  shows "safe_template (\<lambda>_. None) s = s"
  using assms unfolding safe_template_def
proof (induction "\<lambda>_ :: string. None :: string option" s rule: safe_substitute.induct)
  case (2 c s)
  let ?n = "leading_name s" and ?t = "leading_name (tl s)"
  have rest: "\<not> contains (drop k s) ''$$''" for k using "2.prems" contains_drop [of k s] by (auto simp: contains_Cons)
  have single: "\<not> (s \<noteq> [] \<and> hd s = CHR ''$'' \<and> c = CHR ''$'')" using "2.prems" by (cases s) (auto simp: contains_Cons)
  consider "c \<noteq> CHR ''$''" | "c = CHR ''$''" "?n \<noteq> []"
    | "c = CHR ''$''" "?n = []" "s \<noteq> []" "hd s = CHR ''{''" "?t \<noteq> []" "take 1 (drop (length ?t) (tl s)) = ''}''"
    | "c = CHR ''$''" "?n = []" "\<not> (s \<noteq> [] \<and> hd s = CHR ''{'' \<and> ?t \<noteq> [] \<and> take 1 (drop (length ?t) (tl s)) = ''}'')" by blast
  then show ?case
  proof cases
    case 1
    then show ?thesis using "2.hyps"(1) rest [of 0] by (simp add: safe_substitute_other)
  next
    case 2
    with single have "safe_substitute (\<lambda>_. None) (drop (length ?n) s) = drop (length ?n) s" using "2.hyps"(3) rest by auto
    then have "safe_substitute (\<lambda>_. None) (c # s) = c # ?n @ drop (length ?n) s"
      by (subst safe_substitute.simps(2)) (use 2 single in auto)
    then show ?thesis using append_take_drop_id [of "length ?n" s] by (simp add: leading_name_prefix)
  next
    case 3
    have IH: "safe_substitute (\<lambda>_. None) (drop (Suc (length ?t)) (tl s)) = drop (Suc (length ?t)) (tl s)"
      using "2.hyps"(4) 3 single rest [of "Suc (Suc (length ?t))"] by (simp add: drop_Suc)
    have step: "safe_substitute (\<lambda>_. None) (c # s) = ''${'' @ ?t @ ''}'' @ drop (Suc (length ?t)) (tl s)"
      by (subst safe_substitute.simps(2)) (use 3 single IH in simp)
    have "s = CHR ''{'' # ?t @ ''}'' @ drop (Suc (length ?t)) (tl s)"
    proof -
      have "tl s = ?t @ drop (length ?t) (tl s)" using append_take_drop_id [of "length ?t" "tl s"] by (simp add: leading_name_prefix)
      moreover have "drop (length ?t) (tl s) = ''}'' @ drop (Suc (length ?t)) (tl s)"
        using append_take_drop_id [of 1 "drop (length ?t) (tl s)"] 3(6) by simp
      ultimately show ?thesis using 3(3,4) by (metis append_Cons list.collapse)
    qed
    then show ?thesis unfolding step using 3(1) by (metis append_Cons append_Nil)
  next
    case 4
    then have "safe_substitute (\<lambda>_. None) s = s" using "2.hyps"(5) rest [of 0] single by simp
    then show ?thesis by (subst safe_substitute.simps(2)) (use 4 single in auto)
  qed
qed simp

theorem template_keeps_unknown_names_witness: "safe_template (\<lambda>_. None) ''cost $5 for ${name}'' = ''cost $5 for ${name}''"
  by (rule template_keeps_unknown_names) code_simp

text \<open>A name in braces is replaced by its value, whatever follows it.\<close>

theorem template_fills_name:
  assumes "CHR ''$'' \<notin> set before" and "\<And>t. leading_name (name @ CHR ''}'' # t) = name" and "name \<noteq> []" and "kwargs name = Some v"
  shows "safe_template kwargs (before @ ''${'' @ name @ ''}'' @ rest) = before @ v @ safe_template kwargs rest"
proof -
  have "leading_name (CHR ''{'' # name @ ''}'' @ rest) = []" by (simp add: leading_name_def id_start_def)
  then have "safe_substitute kwargs (''${'' @ name @ ''}'' @ rest) = v @ safe_substitute kwargs rest"
    using assms(2) [of rest] assms(3,4) by (simp add: safe_substitute.simps(2))
  with safe_substitute_plain [OF assms(1), of kwargs "''${'' @ name @ ''}'' @ rest"] show ?thesis by (simp add: safe_template_def)
qed

theorem template_fills_name_witness: "safe_template [''who'' \<mapsto> ''you''] (''hi '' @ ''${'' @ ''who'' @ ''}'' @ ''!'') = ''hi '' @ ''you'' @ safe_template [''who'' \<mapsto> ''you''] ''!''"
  by (rule template_fills_name) (simp_all add: leading_name_def id_start_def id_char_def)

lemma dict_set_all:
  "dict_get (fold (\<lambda>(k, v) d. dict_set d k v) hs d) k = (case map_of (rev hs) k of Some v \<Rightarrow> Some v | None \<Rightarrow> dict_get d k)"
  by (induction hs arbitrary: d) (auto simp: map_add_def split: option.splits)

text \<open>Headers given for a stub win over the guessed content type.\<close>

theorem stub_headers_win:
  "dict_get (stub_headers (set_stub read_file processor kwargs url meth response_file response_body response_code (Some hs) repeat f)) k =
     (case map_of (rev hs) k of
        Some v \<Rightarrow> Some v
      | None \<Rightarrow> Option.bind response_file (\<lambda>f. dict_get (guess_content_type_headers f) k))"
  by (cases response_file) (simp_all add: set_stub_def dict_set_all Let_def split: option.splits)

text \<open>A test that configures the application changes the named settings and no others.\<close>

lemma configure_app_get:
  "dict_get (configure_app kwargs config) name = (case map_of (rev kwargs) name of Some v \<Rightarrow> Some v | None \<Rightarrow> dict_get config name)"
  by (simp add: configure_app_def dict_set_all)

text \<open>The query of a test request is read by the application as it was given.\<close>

lemma fetch_query_read_back:
  assumes "query_items args \<noteq> []" and "\<forall>(k, s) \<in> set (query_items args). ascii k \<and> ascii s" and "CHR ''?'' \<notin> set path"
    and "\<And>q. client q = Inr q"
  shows "\<exists>q qs. fetch client port path (Some args) meth t = Inr q \<and> tq_request_path q = path @ ''?'' @ qs \<and> parse_query qs = query_items args"
  using make_url_parsed [OF assms(1-3)] assms(4) by (auto simp: fetch_def)

end
