(* ===== verification/Connection.thy ===== *)
theory Connection
  imports Handler
begin

text \<open>
  The connections of a server: \<open>frontik/tornado_connection_handler.py\<close> creates a task for each request and
  keeps it in \<open>frontik/server_tasks.py\<close>, since the event loop holds tasks only weakly; \<open>log_request\<close> of
  \<open>frontik/handler_asgi.py\<close> writes the access log.
\<close>

section \<open>Tasks\<close>

record 'q connection_handler =
  ch_request :: "'q option"

record server_state =
  server_tasks :: "nat list"
  unfinished :: "nat list"
  next_task :: nat

definition create_task :: "server_state \<Rightarrow> nat \<times> server_state" where
  "create_task s = (next_task s, s\<lparr>unfinished := unfinished s @ [next_task s], next_task := Suc (next_task s)\<rparr>)"

definition serve_request :: "'q connection_handler \<Rightarrow> server_state \<Rightarrow> nat py \<times> server_state" where
  "serve_request ch s =
     (if ch_request ch = None then (Inl AssertionError, s)
      else case create_task s of (task, s) \<Rightarrow> (Inr task, s\<lparr>server_tasks := task # server_tasks s\<rparr>))"

definition headers_received :: "(string \<Rightarrow> (string \<times> string) list \<Rightarrow> 'q) \<Rightarrow> string \<Rightarrow> (string \<times> string) list \<Rightarrow>
    'q connection_handler \<Rightarrow> server_state \<Rightarrow> 'q connection_handler \<times> nat py \<times> server_state" where
  "headers_received make_request start_line headers ch s =
     (let ch = ch\<lparr>ch_request := Some (make_request start_line headers)\<rparr>
      in case serve_request ch s of (r, s) \<Rightarrow> (ch, r, s))"

text \<open>The loop finishes a task and runs its done callback, \<open>_server_tasks.discard\<close>.\<close>

definition task_done :: "nat \<Rightarrow> server_state \<Rightarrow> server_state" where
  "task_done task s = s\<lparr>unfinished := removeAll task (unfinished s), server_tasks := removeAll task (server_tasks s)\<rparr>"

inductive server_step :: "server_state \<Rightarrow> server_state \<Rightarrow> bool" where
  request_arrives: "headers_received make_request line hs (ch :: string connection_handler) s = (ch', r, s') \<Longrightarrow> server_step s s'"
| task_ends: "task \<in> set (unfinished s) \<Longrightarrow> server_step s (task_done task s)"

inductive_cases server_step_cases: "server_step s s'"

definition no_tasks :: server_state where
  "no_tasks = \<lparr>server_tasks = [], unfinished = [], next_task = 0\<rparr>"

section \<open>The access log\<close>

datatype access_value = AccessText "string option" | AccessNumber int

definition log_request :: "rat \<Rightarrow> string \<Rightarrow> string option \<Rightarrow> string \<Rightarrow> string \<Rightarrow> string option \<Rightarrow> int \<Rightarrow> (string, access_value) dict" where
  "log_request request_time ip rid meth uri hname status =
     [(''ip'', AccessText (Some ip)), (''rid'', AccessText rid), (''status'', AccessNumber status),
      (''time'', AccessNumber (if 0 \<le> request_time then \<lfloor>request_time * 1000\<rfloor> else \<lceil>request_time * 1000\<rceil>)),
      (''method'', AccessText (Some meth)), (''uri'', AccessText (Some uri))] @
     (if truthy hname then [(''controller'', AccessText hname)] else [])"

section \<open>Properties\<close>

lemma headers_received_task:
  "headers_received make_request line hs ch s = (ch', r, s') \<Longrightarrow>
    r = Inr (next_task s) \<and> server_tasks s' = next_task s # server_tasks s \<and> unfinished s' = unfinished s @ [next_task s]"
  by (auto simp: headers_received_def serve_request_def create_task_def)

text \<open>
  No request is lost to the garbage collector: at any time exactly the unfinished tasks are referred to
  by the server.
\<close>

theorem unfinished_tasks_referenced:
  assumes "server_step\<^sup>*\<^sup>* no_tasks s"
  shows "set (server_tasks s) = set (unfinished s)"
  using assms
proof (induction rule: rtranclp_induct)
  case base
  then show ?case by (simp add: no_tasks_def)
next
  case (step s s')
  from step(2) show ?case
    by (rule server_step_cases) (use step(3) in \<open>auto simp: task_done_def dest!: headers_received_task\<close>)
qed

theorem unfinished_tasks_referenced_witness:
  "\<exists>s. server_step\<^sup>*\<^sup>* no_tasks s \<and> set (server_tasks s) = set (unfinished s) \<and> unfinished s = [0]"
proof -
  obtain ch' r s where h: "headers_received (\<lambda>l _. l) ''GET /'' [] \<lparr>ch_request = None\<rparr> no_tasks = (ch', r, s)" by (metis prod_cases3)
  then have reach: "server_step\<^sup>*\<^sup>* no_tasks s" by (blast intro: request_arrives)
  from unfinished_tasks_referenced [OF reach] reach headers_received_task [OF h] show ?thesis by (auto simp: no_tasks_def)
qed

end
