(* ===== verification/Spec2Isabelle.thy ===== *)
theory Spec2Isabelle
  imports Routing Resend_Thread Discovery Handler Config Timeouts Dev_Routes Logging Debug_Log App Consul_Client App_Integrations
    App_Routes Telemetry Request_Stack Update_Path Debug_Page Bootstrap Test_Support Connection
begin

text \<open>
  Verification of frontik, an application server on tornado and FastAPI (the Python package \<open>frontik\<close>).

  \<^bold>\<open>The program.\<close> \<open>frontik.server.main\<close> reads the options, imports the application and either runs it in one
  process or forks workers. The master keeps the worker processes alive, listens to Consul and sends
  every change of the upstreams through a pipe to each worker. A worker accepts connections: tornado
  hands headers and body to a connection handler, the request passes the context managers of the request
  integrations (context, limiter, telemetry, Sentry), then the check of debug access, the lookup of the
  route and the page, an ASGI application that receives the body and sends the response piece by piece.
  Outgoing requests of a page get the deadline of the request they belong to. In debug mode the response
  is wrapped into a page that shows the log of the request.

  \<^bold>\<open>The theories\<close>, each importing those it builds on:

  \<^item> \<open>Frontik_Prelude\<close>: exceptions as the left of a sum (\<open>'a py\<close>), the string functions of Python that the code
    uses (\<open>split\<close>, \<open>rsplit\<close>, \<open>join\<close>, \<open>partition\<close>, \<open>strip\<close>, \<open>int\<close>, \<open>str\<close>) with their round trips, dictionaries as association
    lists in insertion order with the locale \<open>dict_like\<close>, stable sorting and first matches.
  \<^item> \<open>Routing\<close> (\<open>routing.py\<close>): the heap of routes, registration, the sort key, \<open>find_route\<close> with its fallbacks. The
    lookup refines an abstract choice of a route, honours the priorities, and the routes it mutates.
  \<^item> \<open>Bootstrap\<close> (\<open>pydebug.py\<close>, \<open>_iter_submodules\<close>): the setting of the debugger and the search for page modules,
    shown to end and to be complete.
  \<^item> \<open>Dev_Routes\<close> (\<open>dev_route_manager.py\<close>): the cache of routes in development mode and import on demand.
  \<^item> \<open>Pipe_Protocol\<close>, \<open>Pipe_Writer\<close> (\<open>process.py\<close>): framing of messages, the listener loop (locale \<open>framed_stream\<close>),
    the buffered writer on a non-blocking pipe (locale \<open>byte_sink\<close>) and the outcomes of \<open>__send_update\<close>.
  \<^item> \<open>Workers\<close>, \<open>Resend_Thread\<close> (\<open>process.py\<close>): children, signals, supervision, sending to all, resending; the
    interleaving of the two threads of the master.
  \<^item> \<open>Discovery\<close> (\<open>service_discovery.py\<close>): registration, subscriptions and the tables of master and worker, both
    interpretations of the locale \<open>upstream_table\<close>. \<open>Consul_Client\<close> (\<open>consul_client.py\<close>): the two HTTP clients.
  \<^item> \<open>Update_Path\<close>: discovery, pipes and listeners put together: what Consul tells the master reaches the
    table of a worker.
  \<^item> \<open>Integrations\<close> (\<open>request_integrations\<close>): limiter, request context and request ids; the locale \<open>context_manager\<close>
    is the contract of what is entered and left around a request.
  \<^item> \<open>Debug_Auth\<close> (\<open>auth.py\<close>, \<open>DebugMode\<close>): who may use the debug mode.
  \<^item> \<open>Handler\<close>, \<open>Connection\<close> (\<open>handler_asgi.py\<close>, \<open>tornado_connection_handler.py\<close>, \<open>frontik_response.py\<close>): a request from
    its first callback to the last call on the connection, with the page as a tree of receive and send.
  \<^item> \<open>Request_Stack\<close> (\<open>request_integrations/__init__.py\<close>): the stack of all four integrations around a request; the
    locale \<open>balanced\<close> is the contract of each, and the stack refines \<open>serve_tornado_request\<close> of \<open>Handler\<close>.
  \<^item> \<open>Config\<close> (\<open>options.py\<close>, \<open>config_parser.py\<close>): the table of options, configuration files, command line.
  \<^item> \<open>Util\<close>, \<open>Test_Support\<close> (\<open>util\<close>, \<open>testing.py\<close>): query strings, URLs, patterns, conversions, templates, stubs.
  \<^item> \<open>Timeouts\<close> (\<open>balancing_client.py\<close>, \<open>timeout_tracking.py\<close>): deadlines of outgoing requests, error answers.
  \<^item> \<open>Logging\<close> (\<open>loggers\<close>, \<open>gc_metrics_collector.py\<close>): the tree of loggers, bootstrap, level overrides.
  \<^item> \<open>Debug_Log\<close>, \<open>Debug_Page\<close> (\<open>debug.py\<close>): the XML of the debug page, the curl command line, the document.
  \<^item> \<open>App\<close> (\<open>app.py\<close>, \<open>server.py\<close>): start and stop as sequences of effects with their exceptions, the status
    page, the event loop of a worker that shuts down. \<open>App_Routes\<close>: the constructor of the application and the
    route table it builds, shown to answer like the table of the pages, and the command that describes the routes.
  \<^item> \<open>App_Integrations\<close>, \<open>Telemetry\<close>: Scylla, Kafka, Sentry, slow callbacks, delegation; spans, client hooks and trace ids.

  \<^bold>\<open>How code becomes definitions.\<close> A class is a record, a method a function that returns the new state, an
  exception the value \<open>Inl\<close>. Objects that are shared and mutated live in a store (routes, request
  contexts); a context variable is a function of the task. Times are rational numbers, bytes are words
  of 8 bits, sizes on the wire 8 bytes in little-endian order. Where threads, processes or
  requests interleave there is an inductive step relation and the invariant is shown by rule induction
  (\<open>master_step\<close>, \<open>thread_step\<close>, \<open>limiter_step\<close>, \<open>boot_step\<close>, \<open>server_step\<close>). What the operating system, Consul or a page
  does is an argument: the results of \<open>os.wait\<close>, the replies of a pipe, the answers of the network.

  \<^bold>\<open>Loops.\<close> All functions terminate. \<open>worker_listener\<close>, which loops forever in the code, takes the number of rounds;
  the theorems say which events the rounds give, one round for each message. \<open>supervise_workers\<close> runs over the
  list of results of \<open>os.wait\<close>, and \<open>shutdown_exits\<close> shows that it exits once every child was waited for.
  \<open>worker_shutdown_ends\<close> gives the number of iterations of the event loop by its clock.

  \<^bold>\<open>Third-party code\<close> is an argument with named hypotheses: \<open>Upstream\<close> of \<open>http_client\<close> (\<open>lawful\<close>), pickle (reads
  back what it wrote), route matching and inclusion of routers of FastAPI, \<open>HTTPHeaders\<close>, UTF-8, the serialisation of XML and JSON,
  OpenTelemetry (whose spans are the list of calls made on them), drivers of Kafka and Scylla. Each
  such hypothesis is met by a concrete instance in the witness of the property that has it.

  \<^bold>\<open>Not modelled.\<close> Fixtures of pytest; constructors of the Consul clients, which only store their arguments; the
  style sheet of the debug page; \<open>orjson\<close>; the example application. Log messages are modelled only where a theorem is about them.
\<close>

end
